(* ===== verification/Prelude.thy ===== *)
theory Prelude
  imports Main "HOL-Library.Word" "HOL-Library.Signed_Division" "HOL-Library.Char_ord"
    "HOL-Library.List_Lexorder" "HOL-Library.Code_Target_Numeral"
begin

text \<open>
  What every component shares: the type synonyms of the model, the theorem collections
  the component proofs draw on, and generic facts on lists, options and 64-bit words.

  Go strings and byte slices are byte sequences, modelled as \<^typ>\<open>string\<close> (a list of
  \<^typ>\<open>char\<close>, each an 8-bit value). An \<open>int64\<close> is a \<open>64 word\<close> read with
  \<^const>\<open>sint\<close>. A Go \<open>int\<close> that the code never computes with is an \<^typ>\<open>int\<close>.
\<close>

section \<open>Types\<close>

type_synonym bytes = string
type_synonym int64 = "64 word"

text \<open>Nanoseconds, as \<open>time.Duration\<close> counts them.\<close>

type_synonym go_duration = int64

text \<open>
  Strings are ordered as Go orders them: \<open>List_Lexorder\<close> over \<open>Char_ord\<close>, which compares bytes, so
  the library's \<^const>\<open>sort\<close> is \<open>slices.Sort\<close> on strings.
\<close>

section \<open>Theorem collections\<close>

named_theorems text_simps \<open>evaluation of text operations\<close>
named_theorems wire_simps \<open>what a ResponseWriter call does to the exchange\<close>
named_theorems keeps_intros \<open>what a handler leaves alone\<close>

section \<open>Lists\<close>

lemma dropWhile_id: "(\<And>x. x \<in> set xs \<Longrightarrow> \<not> P x) \<Longrightarrow> dropWhile P xs = xs"
  by (cases xs) auto

lemma takeWhile_append_stop:
  "(\<And>x. x \<in> set xs \<Longrightarrow> P x) \<Longrightarrow> ys = [] \<or> \<not> P (hd ys) \<Longrightarrow> takeWhile P (xs @ ys) = xs"
  by (cases ys) auto

lemma dropWhile_append_stop:
  "(\<And>x. x \<in> set xs \<Longrightarrow> P x) \<Longrightarrow> ys = [] \<or> \<not> P (hd ys) \<Longrightarrow> dropWhile P (xs @ ys) = ys"
  by (cases ys) auto

lemma takeWhile_none: "xs = [] \<or> \<not> P (hd xs) \<Longrightarrow> takeWhile P xs = []"
  by (cases xs) auto

lemma dropWhile_none: "xs = [] \<or> \<not> P (hd xs) \<Longrightarrow> dropWhile P xs = xs"
  by (cases xs) auto

section \<open>Bytes\<close>

abbreviation byte :: "char \<Rightarrow> nat" where
  "byte c \<equiv> of_char c"

lemma byte_inject [simp]: "(byte c = byte d) = (c = d)"
  by simp

lemma byte_bound [simp]: "byte c < 256"
  by (rule nat_of_char_less_256)

lemma byte_char_of [simp]: "n < 256 \<Longrightarrow> byte (char_of n) = n"
  by (simp add: of_char_of)

text \<open>A byte computed by number equals a literal when their numbers agree.\<close>

lemma char_of_eq_byte [text_simps]: "(char_of n = c) = (n mod 256 = byte c)"
  by (simp add: char_of_eq_iff take_bit_eq_mod)

lemma byte_eq_char_of [text_simps]: "(c = char_of n) = (byte c = n mod 256)"
  by (metis char_of_eq_byte)

section \<open>Signed 64-bit words\<close>

lemma sint64_ge: "- (2 ^ 63) \<le> sint (w :: int64)"
  using sint_ge [of w] by simp

lemma sint64_lt: "sint (w :: int64) < 2 ^ 63"
  using sint_lt [of w] by simp

lemma sint64_of_int:
  "- (2 ^ 63) \<le> i \<Longrightarrow> i < 2 ^ 63 \<Longrightarrow> sint (word_of_int i :: int64) = i"
  by (simp add: sint_sbintrunc' signed_take_bit_int_eq_self)

lemma sint64_eq_iff: "(v = w) = (sint v = sint (w :: int64))"
  by (simp add: word_eq_iff_signed)

lemma sint64_mult: "sint (v * w :: int64) = signed_take_bit 63 (sint v * sint w)"
  by (simp add: sint_word_ariths)

text \<open>
  Go's \<open>/\<close> and \<open>%\<close> on \<open>int64\<close> truncate towards zero; \<open>(sdiv)\<close> and \<open>(smod)\<close> are the
  truncating operations on integers.
\<close>

definition int64_div :: "int64 \<Rightarrow> int64 \<Rightarrow> int64" where
  "int64_div v w = word_of_int (sint v sdiv sint w)"

definition int64_mod :: "int64 \<Rightarrow> int64 \<Rightarrow> int64" where
  "int64_mod v w = word_of_int (sint v smod sint w)"

end
