(* ===== verification/Go_Text.thy ===== *)
theory Go_Text
  imports Prelude
begin

text \<open>
  The parts of Go's \<open>strings\<close> and \<open>strconv\<close> packages the program calls, on byte strings,
  and the facts about them the components rest on: what trimming removes, how splitting and
  joining relate, and that a formatted integer parses back.
\<close>

section \<open>Byte classes\<close>

definition is_digit :: "char \<Rightarrow> bool" where
  "is_digit c \<longleftrightarrow> 48 \<le> byte c \<and> byte c \<le> 57"

definition is_lower :: "char \<Rightarrow> bool" where
  "is_lower c \<longleftrightarrow> 97 \<le> byte c \<and> byte c \<le> 122"

definition is_upper :: "char \<Rightarrow> bool" where
  "is_upper c \<longleftrightarrow> 65 \<le> byte c \<and> byte c \<le> 90"

definition is_letter :: "char \<Rightarrow> bool" where
  "is_letter c \<longleftrightarrow> is_lower c \<or> is_upper c"

definition lower_byte :: "char \<Rightarrow> char" where
  "lower_byte c = (if is_upper c then char_of (byte c + 32) else c)"

text \<open>\<open>strings.ToLower\<close> on ASCII text, which is all the program applies it to.\<close>

definition to_lower :: "string \<Rightarrow> string" where
  "to_lower s = map lower_byte s"

section \<open>Prefixes, suffixes, cutting and splitting\<close>

definition has_prefix :: "string \<Rightarrow> string \<Rightarrow> bool" where
  "has_prefix s p \<longleftrightarrow> take (length p) s = p"

definition has_suffix :: "string \<Rightarrow> string \<Rightarrow> bool" where
  "has_suffix s p \<longleftrightarrow> has_prefix (rev s) (rev p)"

definition cut_prefix :: "string \<Rightarrow> string \<Rightarrow> string \<times> bool" where
  "cut_prefix s p = (if has_prefix s p then (drop (length p) s, True) else (s, False))"

text \<open>\<open>strings.Cut\<close> at a single-byte separator: before, after, found.\<close>

definition cut :: "string \<Rightarrow> char \<Rightarrow> string \<times> string \<times> bool" where
  "cut s sep = (let before = takeWhile (\<lambda>c. c \<noteq> sep) s
                in if length before < length s then (before, drop (length before + 1) s, True)
                   else (s, [], False))"

text \<open>\<open>strings.Split\<close> and \<open>strings.SplitSeq\<close> at a single-byte separator: never empty.\<close>

fun split :: "string \<Rightarrow> char \<Rightarrow> string list" where
  "split [] sep = [[]]"
| "split (c # cs) sep =
     (if c = sep then [] # split cs sep
      else case split cs sep of [] \<Rightarrow> [[c]] | w # ws \<Rightarrow> (c # w) # ws)"

fun join :: "string list \<Rightarrow> string \<Rightarrow> string" where
  "join [] sep = []"
| "join [w] sep = w"
| "join (w # v # ws) sep = w @ sep @ join (v # ws) sep"

lemma has_prefix_append [simp]: "has_prefix (p @ s) p"
  by (simp add: has_prefix_def)

lemma has_prefixE: "has_prefix s p \<Longrightarrow> (\<And>t. s = p @ t \<Longrightarrow> thesis) \<Longrightarrow> thesis"
  unfolding has_prefix_def by (metis append_take_drop_id)

lemma has_prefix_iff: "has_prefix s p \<longleftrightarrow> (\<exists>t. s = p @ t)"
  by (auto elim: has_prefixE)

lemma has_suffix_iff: "has_suffix s p \<longleftrightarrow> (\<exists>t. s = t @ p)"
  unfolding has_suffix_def has_prefix_iff by (metis rev_append rev_rev_ident)

lemma split_not_Nil [simp]: "split s sep \<noteq> []"
  by (cases "(s, sep)" rule: split.cases) (auto split: list.splits)

lemma split_no_sep: "sep \<notin> set s \<Longrightarrow> split s sep = [s]"
  by (induction s) auto

lemma split_sep: "sep \<notin> set w \<Longrightarrow> split (w @ sep # s) sep = w # split s sep"
  by (induction w) auto

lemma split_elements: "w \<in> set (split s sep) \<Longrightarrow> sep \<notin> set w"
proof (induction s arbitrary: w)
  case (Cons c cs)
  then show ?case
    by (cases "split cs sep") (auto split: if_splits)
qed simp

lemma join_Cons_nonempty: "ws \<noteq> [] \<Longrightarrow> join (w # ws) sep = w @ sep @ join ws sep"
  by (cases ws) auto

lemma join_Cons_Cons: "join ((c # w) # ws) sep = c # join (w # ws) sep"
  by (cases ws) auto

lemma join_split: "join (split s sep) [sep] = s"
proof (induction s)
  case (Cons c cs)
  obtain w ws where "split cs sep = w # ws"
    by (cases "split cs sep") auto
  with Cons show ?case
    by (auto simp: join_Cons_nonempty join_Cons_Cons)
qed simp

lemma split_append: "split (s @ sep # t) sep = split s sep @ split t sep"
proof (induction s)
  case (Cons c s)
  then show ?case by (cases "split s sep") auto
qed simp

lemma split_joined: "ws \<noteq> [] \<Longrightarrow> list_all (\<lambda>w. sep \<notin> set w) ws \<Longrightarrow> split (join ws [sep]) sep = ws"
proof (induction ws)
  case (Cons w ws)
  then show ?case by (cases "ws = []") (auto simp: split_no_sep join_Cons_nonempty split_sep)
qed simp

section \<open>Trimming\<close>

text \<open>
  \<open>strings.TrimSpace\<close> removes Unicode white space, which the byte model sees as its UTF-8
  encodings: the six ASCII spaces, U+0085, U+00A0, U+1680, U+2000 to U+200A, U+2028, U+2029,
  U+202F, U+205F and U+3000. No encoding is a proper prefix or suffix of another, and none is
  empty.
\<close>

definition space_encodings :: "string list" where
  "space_encodings =
     map (\<lambda>n. [char_of (n :: nat)]) [9, 10, 11, 12, 13, 32]
     @ map (map char_of) [[0xC2, 0x85], [0xC2, 0xA0 :: nat]]
     @ map (map char_of) [[0xE1, 0x9A, 0x80 :: nat]]
     @ map (\<lambda>n. map char_of [0xE2, 0x80, n])
         [0x80, 0x81, 0x82, 0x83, 0x84, 0x85, 0x86, 0x87, 0x88, 0x89, 0x8A, 0xA8, 0xA9, 0xAF :: nat]
     @ map (map char_of) [[0xE2, 0x81, 0x9F], [0xE3, 0x80, 0x80 :: nat]]"

lemma space_encodings_nonempty: "p \<in> set space_encodings \<Longrightarrow> p \<noteq> []"
  by (auto simp: space_encodings_def)

function strip_left :: "string list \<Rightarrow> string \<Rightarrow> string" where
  "strip_left ps s =
     (case find (\<lambda>p. p \<noteq> [] \<and> has_prefix s p) ps of
        None \<Rightarrow> s
      | Some p \<Rightarrow> strip_left ps (drop (length p) s))"
  by pat_completeness auto
termination
  by (relation "measure (\<lambda>(ps, s). length s)")
    (auto simp: find_Some_iff has_prefix_iff)

declare strip_left.simps [simp del]

definition trim_left_space :: "string \<Rightarrow> string" where
  "trim_left_space s = strip_left space_encodings s"

definition trim_right_space :: "string \<Rightarrow> string" where
  "trim_right_space s = rev (strip_left (map rev space_encodings) (rev s))"

definition trim_space :: "string \<Rightarrow> string" where
  "trim_space s = trim_right_space (trim_left_space s)"

text \<open>\<open>strings.TrimRight\<close> with an ASCII cut set.\<close>

definition trim_right :: "string \<Rightarrow> string \<Rightarrow> string" where
  "trim_right s cutset = rev (dropWhile (\<lambda>c. c \<in> set cutset) (rev s))"

lemma strip_left_id: "(\<And>p. p \<in> set ps \<Longrightarrow> p \<noteq> [] \<Longrightarrow> \<not> has_prefix s p) \<Longrightarrow> strip_left ps s = s"
  by (subst strip_left.simps) (auto split: option.splits simp: find_Some_iff in_set_conv_nth)

text \<open>Text that begins and ends with bytes no white space begins or ends with is left alone.\<close>

definition solid :: "char \<Rightarrow> bool" where
  "solid c \<longleftrightarrow> 32 < byte c \<and> byte c < 128"

lemma space_encodings_ends:
  "p \<in> set space_encodings \<Longrightarrow> \<not> solid (hd p) \<and> \<not> solid (last p)"
  by (auto simp: space_encodings_def solid_def)

lemma trim_left_space_solid: "s = [] \<or> solid (hd s) \<Longrightarrow> trim_left_space s = s"
  unfolding trim_left_space_def
  by (rule strip_left_id)
    (metis space_encodings_ends append_is_Nil_conv has_prefix_iff hd_append2)

lemma trim_right_space_solid: "s = [] \<or> solid (last s) \<Longrightarrow> trim_right_space s = s"
proof -
  assume *: "s = [] \<or> solid (last s)"
  have "strip_left (map rev space_encodings) (rev s) = rev s"
  proof (rule strip_left_id)
    fix p assume "p \<in> set (map rev space_encodings)" and "p \<noteq> []"
    then obtain q where "q \<in> set space_encodings" "p = rev q" "q \<noteq> []" by auto
    with * show "\<not> has_prefix (rev s) p"
      by (metis space_encodings_ends has_prefix_iff hd_append2 hd_rev append_is_Nil_conv
          rev_is_Nil_conv)
  qed
  then show ?thesis by (simp add: trim_right_space_def)
qed

lemma trim_space_solid [text_simps]:
  "s = [] \<or> (solid (hd s) \<and> solid (last s)) \<Longrightarrow> trim_space s = s"
  by (auto simp: trim_space_def trim_left_space_solid trim_right_space_solid)

lemma trim_space_Nil [simp]: "trim_space [] = []"
  by (rule trim_space_solid) simp

lemma trim_right_append_stop:
  "(\<And>c. c \<in> set t \<Longrightarrow> c \<in> set cutset) \<Longrightarrow> s = [] \<or> last s \<notin> set cutset \<Longrightarrow>
     trim_right (s @ t) cutset = s"
  unfolding trim_right_def rev_append
  by (subst dropWhile_append_stop) (auto simp: hd_rev)

section \<open>Integers in decimal\<close>

text \<open>\<open>strconv.FormatInt(v, 10)\<close> and \<open>strconv.Itoa\<close>.\<close>

definition digit_char :: "nat \<Rightarrow> char" where
  "digit_char d = char_of (48 + d)"

fun format_nat :: "nat \<Rightarrow> string" where
  "format_nat n =
     (if n < 10 then [digit_char n] else format_nat (n div 10) @ [digit_char (n mod 10)])"

declare format_nat.simps [simp del]

definition format_int :: "int \<Rightarrow> string" where
  "format_int i = (if i < 0 then CHR ''-'' # format_nat (nat (- i)) else format_nat (nat i))"

text \<open>
  \<open>strconv.ParseInt(s, 10, 64)\<close>, and \<open>strconv.Atoi\<close> on a 64-bit platform: an optional sign, then
  digits only. The magnitude loop fails at the digit that passes \<open>uint64\<close>, which is why a
  number can be out of range before the byte that would have made it malformed.
\<close>

datatype num_error = ErrSyntax | ErrRange

fun parse_uint_loop :: "nat \<Rightarrow> string \<Rightarrow> num_error + nat" where
  "parse_uint_loop n [] = Inr n"
| "parse_uint_loop n (c # cs) =
     (if \<not> is_digit c then Inl ErrSyntax
      else let n' = n * 10 + (byte c - 48)
           in if 2 ^ 64 \<le> n' then Inl ErrRange else parse_uint_loop n' cs)"

definition parse_uint :: "string \<Rightarrow> num_error + nat" where
  "parse_uint s = (if s = [] then Inl ErrSyntax else parse_uint_loop 0 s)"

definition parse_int :: "string \<Rightarrow> num_error + int64" where
  "parse_int s =
     (case s of
        [] \<Rightarrow> Inl ErrSyntax
      | c # cs \<Rightarrow>
          (let neg = (c = CHR ''-'');
               digits = (if c = CHR ''-'' \<or> c = CHR ''+'' then cs else s)
           in case parse_uint digits of
                Inl e \<Rightarrow> Inl e
              | Inr un \<Rightarrow>
                  if \<not> neg \<and> 2 ^ 63 \<le> un then Inl ErrRange
                  else if neg \<and> 2 ^ 63 < un then Inl ErrRange
                  else Inr (if neg then - word_of_int (int un) else word_of_int (int un))))"

lemma is_digit_digit_char [simp]: "d < 10 \<Longrightarrow> is_digit (digit_char d)"
  by (simp add: is_digit_def digit_char_def of_char_of)

lemma byte_digit_char [simp]: "d < 10 \<Longrightarrow> byte (digit_char d) = 48 + d"
  by (simp add: digit_char_def of_char_of)

lemma is_digit_solid: "is_digit c \<Longrightarrow> solid c"
  by (auto simp: is_digit_def solid_def)

lemma format_nat_digits: "c \<in> set (format_nat n) \<Longrightarrow> is_digit c"
proof (induction n rule: format_nat.induct)
  case (1 n)
  then show ?case
    by (cases "n < 10") (auto simp: format_nat.simps [of n])
qed

lemma format_nat_not_Nil [simp]: "format_nat n \<noteq> []"
  by (subst format_nat.simps) simp

lemma is_digit_last_format_nat [simp]: "is_digit (last (format_nat n))"
  by (rule format_nat_digits) (rule last_in_set, simp)

lemma is_digit_hd_format_nat [simp]: "is_digit (hd (format_nat n))"
  by (rule format_nat_digits) (rule list.set_sel(1), simp)

lemma parse_uint_loop_snoc:
  "parse_uint_loop a (cs @ ds) =
     (case parse_uint_loop a cs of Inl e \<Rightarrow> Inl e | Inr v \<Rightarrow> parse_uint_loop v ds)"
  by (induction cs arbitrary: a) (auto simp: Let_def)

lemma parse_uint_loop_format: "n < 2 ^ 64 \<Longrightarrow> parse_uint_loop 0 (format_nat n) = Inr n"
proof (induction n rule: format_nat.induct)
  case (1 n)
  show ?case
  proof (cases "n < 10")
    case True
    with 1 show ?thesis by (simp add: format_nat.simps [of n])
  next
    case False
    with 1 have "parse_uint_loop 0 (format_nat (n div 10)) = Inr (n div 10)" by simp
    with False 1 show ?thesis
      by (simp add: format_nat.simps [of n] parse_uint_loop_snoc Let_def)
  qed
qed

lemma parse_uint_format: "n < 2 ^ 64 \<Longrightarrow> parse_uint (format_nat n) = Inr n"
  by (simp add: parse_uint_def parse_uint_loop_format)

lemma digit_not_sign:
  "is_digit c \<Longrightarrow> c \<noteq> CHR ''-''" "is_digit c \<Longrightarrow> c \<noteq> CHR ''+''"
  by (auto simp: is_digit_def)

lemma format_int_not_Nil [simp]: "format_int i \<noteq> []"
  by (simp add: format_int_def)

lemma last_format_int: "is_digit (last (format_int i))"
  by (simp add: format_int_def)

lemma solid_hd_format_int: "solid (hd (format_int i))"
proof -
  have "solid CHR ''-''" by (simp add: solid_def)
  then show ?thesis
    by (auto simp: format_int_def intro: is_digit_solid)
qed

text \<open>Every \<open>int64\<close> that is formatted parses back to itself.\<close>

lemma parse_int_format: "parse_int (format_int (sint w)) = Inr (w :: int64)"
proof (cases "sint w < 0")
  case True
  have "nat (- sint w) \<le> 2 ^ 63" using sint64_ge [of w] by simp
  moreover from this have "nat (- sint w) < 2 ^ 64" by simp
  ultimately show ?thesis using True
    by (simp add: parse_int_def format_int_def Let_def parse_uint_format)
next
  case False
  have lt: "nat (sint w) < 2 ^ 63" using sint64_lt [of w] False by simp
  obtain c cs where c: "format_nat (nat (sint w)) = c # cs"
    by (cases "format_nat (nat (sint w))") auto
  then have "is_digit c" using format_nat_digits [of c "nat (sint w)"] by simp
  moreover have "parse_uint (c # cs) = Inr (nat (sint w))"
    using parse_uint_format [of "nat (sint w)"] lt by (simp flip: c)
  ultimately show ?thesis using False lt c
    by (simp add: parse_int_def format_int_def Let_def digit_not_sign)
qed

end
