(* ===== verification/Net_Addr.thy ===== *)
theory Net_Addr
  imports Go_Text
begin

text \<open>
  The standard library's address handling, as \<open>proxy.go\<close> uses it: \<open>net.SplitHostPort\<close> and, of
  \<open>net/netip\<close>, \<open>ParseAddr\<close> (dotted IPv4, IPv6 with an ellipsis, an embedded IPv4 tail or a zone),
  \<open>ParsePrefix\<close>, \<open>Masked\<close>, \<open>Contains\<close>, \<open>Unmap\<close> and \<open>String\<close>. The failures carry no text here: the
  program never looks at it.
\<close>

section \<open>Host and port\<close>

definition last_index :: "string \<Rightarrow> char \<Rightarrow> nat option" where
  "last_index s c =
     (if c \<in> set s then Some (length s - 1 - length (takeWhile (\<lambda>d. d \<noteq> c) (rev s))) else None)"

definition split_host_port :: "string \<Rightarrow> (string \<times> string) option" where
  "split_host_port hp =
     (case last_index hp CHR '':'' of
        None \<Rightarrow> None
      | Some i \<Rightarrow>
          if hd hp = CHR ''['' then
            let end_at = length (takeWhile (\<lambda>c. c \<noteq> CHR '']'') hp) in
            if end_at = length hp \<or> end_at + 1 \<noteq> i then None
            else if CHR ''['' \<in> set (drop 1 hp) \<or> CHR '']'' \<in> set (drop (end_at + 1) hp) then None
            else Some (drop 1 (take end_at hp), drop (i + 1) hp)
          else if CHR '':'' \<in> set (take i hp) \<or> CHR ''['' \<in> set hp \<or> CHR '']'' \<in> set hp then None
          else Some (take i hp, drop (i + 1) hp))"

section \<open>Addresses\<close>

text \<open>
  A valid \<open>netip.Addr\<close>; the zero \<open>Addr\<close>, which is what a failed parse leaves, is \<open>None\<close> where the
  code keeps one. The string of an IPv6 address is its zone, empty when it has none.
\<close>

datatype addr = IPv4 "32 word" | IPv6 "128 word" string

definition v4_of_bytes :: "nat list \<Rightarrow> 32 word" where
  "v4_of_bytes bs = foldl (\<lambda>acc b. acc * 256 + of_nat b) 0 bs"

definition v6_of_groups :: "nat list \<Rightarrow> 128 word" where
  "v6_of_groups gs = foldl (\<lambda>acc g. acc * 65536 + of_nat g) 0 gs"

fun v4_loop :: "nat list \<Rightarrow> nat \<Rightarrow> nat \<Rightarrow> string \<Rightarrow> nat list option" where
  "v4_loop fs val dig [] = (if length fs < 3 then None else Some (fs @ [val]))"
| "v4_loop fs val dig (c # cs) =
     (if is_digit c then
        if dig = 1 \<and> val = 0 then None
        else let v = val * 10 + (byte c - 48)
             in if 255 < v then None else v4_loop fs v (Suc dig) cs
      else if c = CHR ''.'' then
        if dig = 0 \<or> cs = [] \<or> length fs = 3 then None else v4_loop (fs @ [val]) 0 0 cs
      else None)"

definition parse_v4_fields :: "string \<Rightarrow> nat list option" where
  "parse_v4_fields s = v4_loop [] 0 0 s"

definition hex_digit_value :: "char \<Rightarrow> nat option" where
  "hex_digit_value c =
     (if is_digit c then Some (byte c - 48)
      else if 97 \<le> byte c \<and> byte c \<le> 102 then Some (byte c - 87)
      else if 65 \<le> byte c \<and> byte c \<le> 70 then Some (byte c - 55)
      else None)"

definition is_hex :: "char \<Rightarrow> bool" where
  "is_hex c \<longleftrightarrow> hex_digit_value c \<noteq> None"

definition hex_value :: "string \<Rightarrow> nat" where
  "hex_value s = foldl (\<lambda>acc c. acc * 16 + the (hex_digit_value c)) 0 s"

text \<open>
  The IPv6 loop: the groups read so far, the place of the ellipsis, the text left. A group
  has one to four digits; a dot after it means the text from that group on is an IPv4 tail.
\<close>

function v6_loop :: "nat list \<Rightarrow> nat option \<Rightarrow> string \<Rightarrow> (nat list \<times> nat option \<times> string) option"
where
  "v6_loop gs ell s =
     (if 8 \<le> length gs then Some (gs, ell, s)
      else
        let hex = takeWhile is_hex s; rest = dropWhile is_hex s; gs' = gs @ [hex_value hex] in
        if hex = [] \<or> 4 < length hex then None
        else case rest of
            [] \<Rightarrow> Some (gs', ell, [])
          | c # rest' \<Rightarrow>
              if c = CHR ''.'' then
                if (ell = None \<and> length gs \<noteq> 6) \<or> 6 < length gs then None
                else (case parse_v4_fields s of
                        Some [a, b, c, d] \<Rightarrow> Some (gs @ [a * 256 + b, c * 256 + d], ell, [])
                      | _ \<Rightarrow> None)
              else if c \<noteq> CHR '':'' \<or> rest' = [] then None
              else if hd rest' = CHR '':'' then
                if ell \<noteq> None then None
                else if tl rest' = [] then Some (gs', Some (length gs'), [])
                else v6_loop gs' (Some (length gs')) (tl rest')
              else v6_loop gs' ell rest')"
  by pat_completeness auto
termination
proof (relation "measure (\<lambda>(gs, _, s). 8 - length gs)", goal_cases)
qed auto

declare v6_loop.simps [simp del]

definition parse_v6 :: "string \<Rightarrow> addr option" where
  "parse_v6 text_in =
     (case cut text_in CHR ''%'' of
        (s, zone, found) \<Rightarrow>
          if found \<and> zone = [] then None
          else
            let lead = has_prefix s ''::''; s' = (if lead then drop 2 s else s) in
            if lead \<and> s' = [] then Some (IPv6 0 zone)
            else case v6_loop [] (if lead then Some 0 else None) s' of
                Some (gs, ell, []) \<Rightarrow>
                  (if length gs < 8 then
                     (case ell of
                        None \<Rightarrow> None
                      | Some at \<Rightarrow>
                          Some (IPv6 (v6_of_groups (take at gs @ replicate (8 - length gs) 0 @ drop at gs))
                            zone))
                   else if ell = None then Some (IPv6 (v6_of_groups gs) zone)
                   else None)
              | _ \<Rightarrow> None)"

definition parse_addr :: "string \<Rightarrow> addr option" where
  "parse_addr s =
     (case dropWhile (\<lambda>c. c \<noteq> CHR ''.'' \<and> c \<noteq> CHR '':'' \<and> c \<noteq> CHR ''%'') s of
        [] \<Rightarrow> None
      | c # _ \<Rightarrow>
          if c = CHR ''.'' then map_option (\<lambda>fs. IPv4 (v4_of_bytes fs)) (parse_v4_fields s)
          else if c = CHR '':'' then parse_v6 s
          else None)"

text \<open>An IPv4-mapped IPv6 address becomes the IPv4 address, and a zone it had is gone.\<close>

definition is_4in6 :: "addr \<Rightarrow> bool" where
  "is_4in6 a = (case a of IPv4 _ \<Rightarrow> False | IPv6 w _ \<Rightarrow> drop_bit 32 w = 0xffff)"

fun unmap :: "addr \<Rightarrow> addr" where
  "unmap (IPv4 w) = IPv4 w"
| "unmap (IPv6 w z) = (if is_4in6 (IPv6 w z) then IPv4 (ucast w) else IPv6 w z)"

section \<open>Prefixes\<close>

record ip_prefix =
  prefix_addr :: addr
  prefix_bits :: nat

definition mask6 :: "nat \<Rightarrow> 128 word" where
  "mask6 n = push_bit (128 - n) (mask n)"

definition mask4 :: "nat \<Rightarrow> 32 word" where
  "mask4 n = push_bit (32 - n) (mask n)"

definition has_zone :: "addr \<Rightarrow> bool" where
  "has_zone a = (case a of IPv4 _ \<Rightarrow> False | IPv6 _ z \<Rightarrow> z \<noteq> [])"

definition parse_prefix :: "string \<Rightarrow> ip_prefix option" where
  "parse_prefix s =
     (case last_index s CHR ''/'' of
        None \<Rightarrow> None
      | Some i \<Rightarrow>
          (case parse_addr (take i s) of
             None \<Rightarrow> None
           | Some a \<Rightarrow>
               if has_zone a then None
               else
                 let bits_text = drop (i + 1) s in
                 if 1 < length bits_text \<and> \<not> (49 \<le> byte (hd bits_text) \<and> byte (hd bits_text) \<le> 57)
                 then None
                 else case parse_int bits_text of
                     Inl _ \<Rightarrow> None
                   | Inr n \<Rightarrow>
                       if sint n < 0 \<or> (case a of IPv4 _ \<Rightarrow> 32 | IPv6 _ _ \<Rightarrow> 128) < sint n then None
                       else Some \<lparr>prefix_addr = a, prefix_bits = nat (sint n)\<rparr>))"

unbundle bit_operations_syntax

definition masked :: "ip_prefix \<Rightarrow> ip_prefix" where
  "masked p =
     p\<lparr>prefix_addr :=
         (case prefix_addr p of
            IPv4 w \<Rightarrow> IPv4 (w AND mask4 (prefix_bits p))
          | IPv6 w z \<Rightarrow> IPv6 (w AND mask6 (prefix_bits p)) [])\<rparr>"

definition prefix_contains :: "ip_prefix \<Rightarrow> addr \<Rightarrow> bool" where
  "prefix_contains p a =
     (case (a, prefix_addr p) of
        (IPv4 v, IPv4 w) \<Rightarrow> drop_bit (32 - prefix_bits p) (v XOR w) = 0
      | (IPv6 v z, IPv6 w _) \<Rightarrow> z = [] \<and> (v XOR w) AND mask6 (prefix_bits p) = 0
      | _ \<Rightarrow> False)"

text \<open>\<open>Prefix.IsValid\<close> for what \<open>ParsePrefix\<close> makes: the length fits the family.\<close>

definition prefix_ok :: "ip_prefix \<Rightarrow> bool" where
  "prefix_ok p \<longleftrightarrow> prefix_bits p \<le> (case prefix_addr p of IPv4 _ \<Rightarrow> 32 | IPv6 _ _ \<Rightarrow> 128)"

section \<open>Text\<close>

definition v4_bytes :: "32 word \<Rightarrow> nat list" where
  "v4_bytes w =
     (let n = unat w in [n div 2 ^ 24, n div 2 ^ 16 mod 256, n div 2 ^ 8 mod 256, n mod 256])"

definition v4_text :: "32 word \<Rightarrow> string" where
  "v4_text w = join (map format_nat (v4_bytes w)) ''.''"

definition v6_groups :: "128 word \<Rightarrow> nat list" where
  "v6_groups w = map (\<lambda>i. unat (take_bit 16 (drop_bit (112 - 16 * i) w))) [0..<8]"

definition hex_char :: "nat \<Rightarrow> char" where
  "hex_char d = (if d < 10 then char_of (48 + d) else char_of (87 + d))"

fun format_hex :: "nat \<Rightarrow> string" where
  "format_hex n = (if n < 16 then [hex_char n] else format_hex (n div 16) @ [hex_char (n mod 16)])"

declare format_hex.simps [simp del]

text \<open>The leftmost longest run of at least two zero groups, as a half-open interval.\<close>

definition zero_run :: "nat list \<Rightarrow> (nat \<times> nat) option" where
  "zero_run gs =
     foldl (\<lambda>best i.
         let l = length (takeWhile (\<lambda>g. g = 0) (drop i gs)) in
         if 2 \<le> l \<and> (case best of None \<Rightarrow> 0 | Some (s, e) \<Rightarrow> e - s) < l then Some (i, i + l) else best)
       None [0..<length gs]"

definition v6_text :: "128 word \<Rightarrow> string" where
  "v6_text w =
     (let gs = v6_groups w in
      case zero_run gs of
        None \<Rightarrow> join (map format_hex gs) '':''
      | Some (s, e) \<Rightarrow>
          join (map format_hex (take s gs)) '':'' @ ''::'' @ join (map format_hex (drop e gs)) '':'')"

definition addr_text :: "addr \<Rightarrow> string" where
  "addr_text a =
     (case a of
        IPv4 w \<Rightarrow> v4_text w
      | IPv6 w z \<Rightarrow>
          (if is_4in6 a then ''::ffff:'' @ v4_text (ucast w) else v6_text w) @
          (if z = [] then [] else CHR ''%'' # z))"

section \<open>Facts\<close>

text \<open>Containment is agreement of the leading bits, within one family and without a zone.\<close>

lemma bit_mask6: "n \<le> 128 \<Longrightarrow> bit (mask6 n) i \<longleftrightarrow> 128 - n \<le> i \<and> i < 128"
  by (auto simp: mask6_def bit_push_bit_iff bit_mask_iff)

lemma bit_mask4: "n \<le> 32 \<Longrightarrow> bit (mask4 n) i \<longleftrightarrow> 32 - n \<le> i \<and> i < 32"
  by (auto simp: mask4_def bit_push_bit_iff bit_mask_iff)

lemma drop_bit_eq_iff:
  "drop_bit n v = drop_bit n w \<longleftrightarrow> (\<forall>i \<ge> n. bit v i = bit (w :: 'a :: len word) i)"
proof
  assume eq: "drop_bit n v = drop_bit n w"
  have "bit v (n + k) = bit w (n + k)" for k
    using eq by (metis bit_drop_bit_eq comp_apply)
  then show "\<forall>i \<ge> n. bit v i = bit w i" by (metis le_add_diff_inverse)
next
  assume "\<forall>i \<ge> n. bit v i = bit w i"
  then show "drop_bit n v = drop_bit n w" by (intro bit_eqI) (simp add: bit_drop_bit_eq)
qed

lemma xor_zero_iff: "drop_bit n (v XOR w) = 0 \<longleftrightarrow> drop_bit n v = drop_bit n (w :: 'a :: len word)"
  using drop_bit_eq_iff [of n "v XOR w" 0] drop_bit_eq_iff [of n v w]
  by (auto simp: bit_xor_iff simp del: drop_bit_xor)

lemma masked_xor_zero_iff:
  assumes "n \<le> 128"
  shows "(v XOR w) AND mask6 n = 0 \<longleftrightarrow> drop_bit (128 - n) v = drop_bit (128 - n) w"
proof -
  have "(v XOR w) AND mask6 n = 0 \<longleftrightarrow> (\<forall>i < 128. 128 - n \<le> i \<longrightarrow> bit v i = bit w i)"
    using assms by (auto simp: bit_eq_iff bit_and_iff bit_mask6 bit_xor_iff)
  also have "\<dots> \<longleftrightarrow> (\<forall>i \<ge> 128 - n. bit v i = bit w i)"
  proof -
    have "i < 128" if "bit u i" for u :: "128 word" and i
      using bit_imp_le_length [OF that] by simp
    then show ?thesis by blast
  qed
  finally show ?thesis by (simp add: drop_bit_eq_iff)
qed

lemma prefix_contains_iff:
  "prefix_ok p \<Longrightarrow> prefix_contains p a \<longleftrightarrow>
     (case (a, prefix_addr p) of
        (IPv4 v, IPv4 w) \<Rightarrow> drop_bit (32 - prefix_bits p) v = drop_bit (32 - prefix_bits p) w
      | (IPv6 v z, IPv6 w _) \<Rightarrow>
          z = [] \<and> drop_bit (128 - prefix_bits p) v = drop_bit (128 - prefix_bits p) w
      | _ \<Rightarrow> False)"
  by (simp add: prefix_contains_def prefix_ok_def xor_zero_iff masked_xor_zero_iff
      del: drop_bit_xor split: addr.splits)

lemma masked_ok: "prefix_ok p \<Longrightarrow> prefix_ok (masked p)"
  by (auto simp: masked_def prefix_ok_def split: addr.splits)

lemma masked_contains: "prefix_ok p \<Longrightarrow> prefix_contains (masked p) a = prefix_contains p a"
proof -
  assume ok: "prefix_ok p"
  have m4: "drop_bit (32 - n) (w AND mask4 n) = drop_bit (32 - n) w" if "n \<le> 32" for n w
    using that unfolding drop_bit_eq_iff
    by (auto simp: bit_and_iff bit_mask4 dest: bit_imp_le_length)
  have m6: "drop_bit (128 - n) (w AND mask6 n) = drop_bit (128 - n) w" if "n \<le> 128" for n w
    using that unfolding drop_bit_eq_iff
    by (auto simp: bit_and_iff bit_mask6 dest: bit_imp_le_length)
  show ?thesis
    using ok
    unfolding prefix_contains_iff [OF ok] prefix_contains_iff [OF masked_ok [OF ok]]
    by (simp add: masked_def prefix_ok_def m4 m6 del: drop_bit_and split: addr.splits)
qed

lemma parse_prefix_ok: "parse_prefix s = Some p \<Longrightarrow> prefix_ok p"
  by (auto simp: parse_prefix_def prefix_ok_def Let_def
      split: option.splits sum.splits if_splits addr.splits)

text \<open>An IPv4 address printed and parsed again is the same address.\<close>

lemma v4_loop_format:
  "n < 256 \<Longrightarrow> v4_loop fs 0 0 (format_nat n @ rest) = v4_loop fs n (length (format_nat n)) rest"
proof (induction n arbitrary: rest rule: format_nat.induct)
  case (1 n)
  show ?case
  proof (cases "n < 10")
    case True
    then show ?thesis by (simp add: format_nat.simps [of n])
  next
    case False
    with 1 have "v4_loop fs 0 0 (format_nat (n div 10) @ digit_char (n mod 10) # rest) =
        v4_loop fs (n div 10) (length (format_nat (n div 10))) (digit_char (n mod 10) # rest)"
      by simp
    moreover have "n div 10 \<noteq> 0" using False by simp
    ultimately show ?thesis using False 1(2) by (simp add: format_nat.simps [of n] Let_def)
  qed
qed

lemma v4_bytes_bound: "b \<in> set (v4_bytes w) \<Longrightarrow> b < 256"
  using unsigned_less [of w, where 'a = nat] by (auto simp: v4_bytes_def Let_def)

lemma parse_v4_fields_text: "parse_v4_fields (v4_text w) = Some (v4_bytes w)"
proof -
  obtain a b c d where bs: "v4_bytes w = [a, b, c, d]" by (simp add: v4_bytes_def Let_def)
  have "a < 256" "b < 256" "c < 256" "d < 256"
    using v4_bytes_bound [of _ w] by (auto simp: bs)
  moreover have "\<not> is_digit CHR ''.''" by (simp add: is_digit_def)
  ultimately show ?thesis
    using v4_loop_format [of d "[a, b, c]" "[]"]
    by (simp add: parse_v4_fields_def v4_text_def bs v4_loop_format)
qed

lemma v4_of_bytes_bytes: "v4_of_bytes (v4_bytes w) = w"
proof -
  have digits: "n = ((n div 2 ^ 24 * 256 + n div 2 ^ 16 mod 256) * 256 + n div 2 ^ 8 mod 256) * 256 +
      n mod 256" for n :: nat
    using div_mult2_eq [of n "2 ^ 16" 256] div_mult2_eq [of n "2 ^ 8" 256] by simp
  have "unat w = ((unat w div 2 ^ 24 * 256 + unat w div 2 ^ 16 mod 256) * 256 +
      unat w div 2 ^ 8 mod 256) * 256 + unat w mod 256"
    by (rule digits)
  then have "w = of_nat (((unat w div 2 ^ 24 * 256 + unat w div 2 ^ 16 mod 256) * 256 +
      unat w div 2 ^ 8 mod 256) * 256 + unat w mod 256)"
    using unsigned_of_nat unsigned_word_eqI by (metis of_nat_unat word_of_nat_eq_iff ucast_id)
  then show ?thesis by (simp add: v4_of_bytes_def v4_bytes_def Let_def)
qed

lemma parse_v4_text: "parse_addr (v4_text w) = Some (IPv4 w)"
proof -
  obtain a bs where bs: "v4_bytes w = a # bs" "bs \<noteq> []" by (simp add: v4_bytes_def Let_def)
  then obtain rest where "v4_text w = format_nat a @ CHR ''.'' # rest"
    by (auto simp: v4_text_def join_Cons_nonempty)
  then have "dropWhile (\<lambda>c. c \<noteq> CHR ''.'' \<and> c \<noteq> CHR '':'' \<and> c \<noteq> CHR ''%'') (v4_text w) = CHR ''.'' # rest"
    using format_nat_digits [of _ a]
    by (fastforce intro!: dropWhile_append_stop simp: is_digit_def)
  then show ?thesis
    by (simp add: parse_addr_def parse_v4_fields_text v4_of_bytes_bytes)
qed

end
