(* ===== verification/Go_Utf8.thy ===== *)
theory Go_Utf8
  imports Go_Text
begin

text \<open>
  UTF-8 as Go decodes it (\<open>unicode/utf8\<close>), \<open>strings.EqualFold\<close> over the decoded runes, and
  the JSON text \<open>encoding/json\<close> writes for a value. A byte that does not start a valid
  encoding decodes as U+FFFD of width one.
\<close>

section \<open>Decoding\<close>

definition is_cont :: "nat \<Rightarrow> bool" where
  "is_cont b \<longleftrightarrow> 0x80 \<le> b \<and> b \<le> 0xBF"

definition rune_error :: nat where
  "rune_error = 0xFFFD"

fun decode_bytes :: "nat list \<Rightarrow> nat \<times> nat" where
  "decode_bytes [] = (rune_error, 0)"
| "decode_bytes (b0 # bs) =
     (if b0 < 0x80 then (b0, 1)
      else if 0xC2 \<le> b0 \<and> b0 \<le> 0xDF then
        (case bs of
           b1 # _ \<Rightarrow> if is_cont b1 then ((b0 - 0xC0) * 64 + (b1 - 0x80), 2) else (rune_error, 1)
         | _ \<Rightarrow> (rune_error, 1))
      else if 0xE0 \<le> b0 \<and> b0 \<le> 0xEF then
        (case bs of
           b1 # b2 # _ \<Rightarrow>
             if is_cont b1 \<and> is_cont b2 \<and> (b0 = 0xE0 \<longrightarrow> 0xA0 \<le> b1) \<and> (b0 = 0xED \<longrightarrow> b1 \<le> 0x9F)
             then ((b0 - 0xE0) * 4096 + (b1 - 0x80) * 64 + (b2 - 0x80), 3)
             else (rune_error, 1)
         | _ \<Rightarrow> (rune_error, 1))
      else if 0xF0 \<le> b0 \<and> b0 \<le> 0xF4 then
        (case bs of
           b1 # b2 # b3 # _ \<Rightarrow>
             if is_cont b1 \<and> is_cont b2 \<and> is_cont b3 \<and> (b0 = 0xF0 \<longrightarrow> 0x90 \<le> b1)
                \<and> (b0 = 0xF4 \<longrightarrow> b1 \<le> 0x8F)
             then ((b0 - 0xF0) * 262144 + (b1 - 0x80) * 4096 + (b2 - 0x80) * 64 + (b3 - 0x80), 4)
             else (rune_error, 1)
         | _ \<Rightarrow> (rune_error, 1))
      else (rune_error, 1))"

definition decode_rune :: "string \<Rightarrow> nat \<times> nat" where
  "decode_rune s = decode_bytes (map byte (take 4 s))"

lemma decode_rune_width: "s \<noteq> [] \<Longrightarrow> 0 < snd (decode_rune s)"
  by (cases s) (auto simp: decode_rune_def split: list.splits)

lemma decode_rune_progress:
  "decode_rune s = (r, n) \<Longrightarrow> s \<noteq> [] \<Longrightarrow> 0 < n \<and> 0 < length s"
  using decode_rune_width [of s] by simp

function runes :: "string \<Rightarrow> nat list" where
  "runes s = (if s = [] then [] else case decode_rune s of (r, n) \<Rightarrow> r # runes (drop n s))"
  by pat_completeness auto
termination
  by (relation "measure length") (auto dest: sym [THEN decode_rune_progress])

declare runes.simps [simp del]

lemma runes_Nil [simp]: "runes [] = []"
  by (simp add: runes.simps)

lemma runes_ascii: "byte c < 0x80 \<Longrightarrow> runes (c # s) = byte c # runes s"
  by (simp add: runes.simps [of "c # s"] decode_rune_def)

section \<open>Case folding\<close>

text \<open>
  Two runes are folded together when they are equal, when they are ASCII letters of one kind,
  when one is a Kelvin sign or a long s and the other its ASCII letter, or, for runes beyond
  ASCII, when Unicode's simple folding table relates them. That table is the parameter
  \<open>fold_table\<close>; comparing with ASCII text never consults it.
\<close>

type_synonym fold_table = "nat \<Rightarrow> nat \<Rightarrow> bool"

definition lower_rune :: "nat \<Rightarrow> nat" where
  "lower_rune r = (if 65 \<le> r \<and> r \<le> 90 then r + 32 else r)"

definition ascii_fold_target :: "nat \<Rightarrow> nat" where
  "ascii_fold_target r = (if r = 0x212A then 107 else if r = 0x17F then 115 else lower_rune r)"

definition rune_eq_fold :: "fold_table \<Rightarrow> nat \<Rightarrow> nat \<Rightarrow> bool" where
  "rune_eq_fold tab a b \<longleftrightarrow>
     a = b \<or>
     (if a < 0x80 \<or> b < 0x80 then ascii_fold_target a = ascii_fold_target b else tab a b)"

definition equal_fold :: "fold_table \<Rightarrow> string \<Rightarrow> string \<Rightarrow> bool" where
  "equal_fold tab s t \<longleftrightarrow> list_all2 (rune_eq_fold tab) (runes s) (runes t)"

lemma runes_Nil_iff [simp]: "runes s = [] \<longleftrightarrow> s = []"
  by (subst runes.simps) (simp split: prod.splits)

lemma equal_fold_refl: "equal_fold tab s s"
  by (simp add: equal_fold_def rune_eq_fold_def list_all2_refl)

lemma equal_fold_Nil [simp]: "equal_fold tab [] t \<longleftrightarrow> t = []" "equal_fold tab t [] \<longleftrightarrow> t = []"
  by (auto simp: equal_fold_def)

section \<open>JSON text\<close>

text \<open>
  The values the program renders: objects with their members in field order, arrays, strings,
  numbers and null.
\<close>

datatype json =
    JString string | JNumber int | JNull | JArray "json list" | JObject "(string \<times> json) list"

definition hex_digit :: "nat \<Rightarrow> char" where
  "hex_digit n = (if n < 10 then char_of (48 + n) else char_of (87 + n))"

definition html_safe :: "nat \<Rightarrow> bool" where
  "html_safe b \<longleftrightarrow> 0x20 \<le> b \<and> b < 0x80 \<and> b \<notin> {0x22, 0x26, 0x3C, 0x3E, 0x5C}"

definition backslash :: char where
  "backslash = char_of (0x5C :: nat)"

definition escape_ascii :: "nat \<Rightarrow> string" where
  "escape_ascii b =
     (if b = 0x5C \<or> b = 0x22 then [backslash, char_of b]
      else if b = 8 then [backslash, CHR ''b'']
      else if b = 12 then [backslash, CHR ''f'']
      else if b = 10 then [backslash, CHR ''n'']
      else if b = 13 then [backslash, CHR ''r'']
      else if b = 9 then [backslash, CHR ''t'']
      else [backslash, CHR ''u'', CHR ''0'', CHR ''0'', hex_digit (b div 16), hex_digit (b mod 16)])"

function json_escape :: "string \<Rightarrow> string" where
  "json_escape s =
     (if s = [] then []
      else
        let b = byte (hd s) in
        if b < 0x80 then (if html_safe b then [hd s] else escape_ascii b) @ json_escape (tl s)
        else case decode_rune s of
            (r, n) \<Rightarrow>
              (if r = rune_error \<and> n = 1 then backslash # ''ufffd''
               else if r = 0x2028 \<or> r = 0x2029 then backslash # ''u202'' @ [hex_digit (r mod 16)]
               else take n s) @ json_escape (drop n s))"
  by pat_completeness auto
termination
  by (relation "measure length") (auto dest: sym [THEN decode_rune_progress])

declare json_escape.simps [simp del]

definition json_quote :: "string \<Rightarrow> string" where
  "json_quote s = CHR 0x22 # json_escape s @ [CHR 0x22]"

fun json_text :: "json \<Rightarrow> string" and json_members :: "(string \<times> json) list \<Rightarrow> string list" where
  "json_text (JString s) = json_quote s"
| "json_text (JNumber i) = format_int i"
| "json_text JNull = ''null''"
| "json_text (JArray js) = ''['' @ join (map json_text js) '','' @ '']''"
| "json_text (JObject ms) = ''{'' @ join (json_members ms) '','' @ ''}''"
| "json_members [] = []"
| "json_members ((k, j) # ms) = (json_quote k @ '':'' @ json_text j) # json_members ms"

text \<open>\<open>json.Marshal\<close> and \<open>json.Encoder.Encode\<close>, which ends its value with a newline.\<close>

definition json_marshal :: "json \<Rightarrow> string" where
  "json_marshal j = json_text j"

definition json_encode :: "json \<Rightarrow> string" where
  "json_encode j = json_text j @ [char_of (10 :: nat)]"

end
