(* ===== verification/Go_Errors.thy ===== *)
theory Go_Errors
  imports Go_Text
begin

text \<open>
  Error values. A Go error is a tree: a leaf, a node wrapping one cause (\<open>fmt.Errorf\<close> with
  \<open>%w\<close>, or a type with \<open>Unwrap() error\<close>), or a node joining several (\<open>errors.Join\<close>). The
  constructors are the leaves and nodes the program creates or inspects, the program's own
  \<open>ClientError\<close> among them; any other leaf is \<open>ErrText\<close> with its message.
\<close>

section \<open>Reflected types\<close>

text \<open>
  What \<open>reflect.Type\<close> says of a destination, as far as \<open>jsonKind\<close> asks: its kind, and the
  element type of a pointer.
\<close>

datatype go_kind =
    KStruct | KMap | KSlice | KArray | KString | KBool
  | KInt | KInt8 | KInt16 | KInt32 | KInt64
  | KUint | KUint8 | KUint16 | KUint32 | KUint64
  | KFloat32 | KFloat64 | KOther

datatype go_type = Pointer_to go_type | Of_kind go_kind

section \<open>Errors\<close>

datatype sentinel =
    EOF | UnexpectedEOF | AbortHandler | ServerClosed | DeadlineExceeded | Canceled

datatype go_error =
    ErrText string
  | ErrSentinel sentinel
  | ErrMaxBytes int
  | ErrJsonSyntax string int
  | ErrUnmarshalType string "go_type option" string
  | ErrWrap string go_error
  | ErrJoin "go_error list"
  | ErrClient int string string string "go_error option"

fun sentinel_text :: "sentinel \<Rightarrow> string" where
  "sentinel_text EOF = ''EOF''"
| "sentinel_text UnexpectedEOF = ''unexpected EOF''"
| "sentinel_text AbortHandler = ''net/http: abort Handler''"
| "sentinel_text ServerClosed = ''http: Server closed''"
| "sentinel_text DeadlineExceeded = ''context deadline exceeded''"
| "sentinel_text Canceled = ''context canceled''"

text \<open>
  \<open>Error()\<close>. The \<open>ErrClient\<close> equations are the program's own \<open>ClientError.Error\<close>; the others are
  the standard library's.
\<close>

fun error_text :: "go_error \<Rightarrow> string" where
  "error_text (ErrText s) = s"
| "error_text (ErrSentinel s) = sentinel_text s"
| "error_text (ErrMaxBytes _) = ''http: request body too large''"
| "error_text (ErrJsonSyntax msg _) = msg"
| "error_text (ErrUnmarshalType msg _ _) = msg"
| "error_text (ErrWrap prefix e) = prefix @ '': '' @ error_text e"
| "error_text (ErrJoin es) = join (map error_text es) [char_of (10 :: nat)]"
| "error_text (ErrClient _ _ msg _ (Some e)) = msg @ '': '' @ error_text e"
| "error_text (ErrClient _ _ msg _ None) = msg"

text \<open>\<open>errors.Join\<close>: nils are dropped, and nothing joined is nil.\<close>

definition join_errors :: "go_error option list \<Rightarrow> go_error option" where
  "join_errors es =
     (case List.map_filter (\<lambda>e. e) es of [] \<Rightarrow> None | e # es' \<Rightarrow> Some (ErrJoin (e # es')))"

text \<open>
  \<open>errors.As\<close> and \<open>errors.AsType\<close>: the first node, depth first and each node before its
  causes, that the match accepts. \<open>errors.Is\<close> is the same walk for one comparable value.
\<close>

fun errors_as :: "(go_error \<Rightarrow> 'a option) \<Rightarrow> go_error \<Rightarrow> 'a option"
  and errors_as_list :: "(go_error \<Rightarrow> 'a option) \<Rightarrow> go_error list \<Rightarrow> 'a option" where
  "errors_as m e =
     (case m e of
        Some a \<Rightarrow> Some a
      | None \<Rightarrow>
          (case e of
             ErrWrap _ c \<Rightarrow> errors_as m c
           | ErrJoin es \<Rightarrow> errors_as_list m es
           | ErrClient _ _ _ _ (Some c) \<Rightarrow> errors_as m c
           | _ \<Rightarrow> None))"
| "errors_as_list m [] = None"
| "errors_as_list m (e # es) =
     (case errors_as m e of Some a \<Rightarrow> Some a | None \<Rightarrow> errors_as_list m es)"

declare errors_as.simps [simp del]

definition errors_is :: "go_error \<Rightarrow> sentinel \<Rightarrow> bool" where
  "errors_is e s = (errors_as (\<lambda>e'. if e' = ErrSentinel s then Some () else None) e \<noteq> None)"

lemma errors_as_leaf [simp]:
  "errors_as m (ErrText t) = m (ErrText t)"
  "errors_as m (ErrSentinel s) = m (ErrSentinel s)"
  "errors_as m (ErrMaxBytes n) = m (ErrMaxBytes n)"
  "errors_as m (ErrJsonSyntax t n) = m (ErrJsonSyntax t n)"
  "errors_as m (ErrUnmarshalType t ty f) = m (ErrUnmarshalType t ty f)"
  by (simp_all add: errors_as.simps split: option.splits)

lemma errors_as_wrap [simp]: "m (ErrWrap p e) = None \<Longrightarrow> errors_as m (ErrWrap p e) = errors_as m e"
  by (simp add: errors_as.simps [of m "ErrWrap p e"])

lemma errors_is_sentinel [simp]: "errors_is (ErrSentinel s) t \<longleftrightarrow> s = t"
  by (simp add: errors_is_def)

lemma errors_is_wrap [simp]: "errors_is (ErrWrap p e) t \<longleftrightarrow> errors_is e t"
  by (simp add: errors_is_def)

lemma join_errors_None_iff: "join_errors es = None \<longleftrightarrow> (\<forall>e \<in> set es. e = None)"
  by (induction es) (auto simp: join_errors_def List.map_filter_simps split: list.splits option.splits)

section \<open>Panics\<close>

text \<open>A recovered panic value: an error, or any other value by what \<open>%v\<close> prints for it.\<close>

datatype panic_value = PanicError go_error | PanicOther string

fun panic_text :: "panic_value \<Rightarrow> string" where
  "panic_text (PanicError e) = error_text e"
| "panic_text (PanicOther s) = s"

text \<open>How a call ends: by returning, or by panicking through its caller.\<close>

datatype outcome = Returned | Panicked panic_value

end
