(* ===== verification/Http.thy ===== *)
theory Http
  imports Go_Utf8 Go_Errors
begin

text \<open>
  The part of \<open>net/http\<close> the server is written against: header maps, requests and their
  bodies, the \<open>ResponseWriter\<close> with the wrappers middleware puts around it, and handlers.

  A handler is a function of the request, the writer it was handed and the state of the
  exchange. It returns how it ended, the request as its pointer's target now is (a mux
  stores the matched pattern there, a middleware replaces the body), and the exchange.
  Handlers the repository does not contain are \<open>hprog\<close> values: trees of the calls such a
  handler can make, each continuing with what the call returned, so that a theorem about
  every \<open>hprog\<close> is a theorem about every handler.
\<close>

section \<open>Header maps\<close>

type_synonym header = "string \<Rightarrow> string list"

definition no_header :: header where
  "no_header = (\<lambda>_. [])"

definition token_byte :: "char \<Rightarrow> bool" where
  "token_byte c \<longleftrightarrow> is_digit c \<or> is_letter c \<or>
     byte c \<in> {33, 35, 36, 37, 38, 39, 42, 43, 45, 46, 94, 95, 96, 124, 126}"

fun canonical_loop :: "bool \<Rightarrow> string \<Rightarrow> string" where
  "canonical_loop up [] = []"
| "canonical_loop up (c # cs) =
     (let c' = (if up \<and> is_lower c then char_of (byte c - 32)
                else if \<not> up \<and> is_upper c then char_of (byte c + 32) else c)
      in c' # canonical_loop (c' = CHR ''-'') cs)"

definition canonical_key :: "string \<Rightarrow> string" where
  "canonical_key k = (if list_all token_byte k then canonical_loop True k else k)"

definition header_set :: "header \<Rightarrow> string \<Rightarrow> string \<Rightarrow> header" where
  "header_set h k v = h(canonical_key k := [v])"

definition header_del :: "header \<Rightarrow> string \<Rightarrow> header" where
  "header_del h k = h(canonical_key k := [])"

definition header_values :: "header \<Rightarrow> string \<Rightarrow> string list" where
  "header_values h k = h (canonical_key k)"

definition header_get :: "header \<Rightarrow> string \<Rightarrow> string" where
  "header_get h k = (case h (canonical_key k) of [] \<Rightarrow> [] | v # _ \<Rightarrow> v)"

section \<open>Log entries and span operations\<close>

datatype level = DebugLevel | InfoLevel | WarnLevel | ErrorLevel

datatype field_value =
    FString string | FInt int | FDuration int | FError go_error | FAny panic_value | FStack
  | FStrings "string list" | FReflect json

type_synonym fields = "(string \<times> field_value) list"

record log_entry =
  entry_level :: level
  entry_message :: string
  entry_fields :: fields

datatype span_op = SpanSetName string | SpanRecordError go_error | SpanSetStatusError string

section \<open>Writers, bodies, contexts, requests\<close>

text \<open>
  The writer a handler holds: the server's own, a \<open>statusRecorder\<close> around another writer,
  whose fields live in the exchange under its number, or some other wrapper that offers
  \<open>Unwrap\<close> and passes its calls on.
\<close>

datatype writer = NetWriter | Recorder nat writer | Wrapper writer

text \<open>
  A body arrives in chunks and ends with an error, \<open>EOF\<close> on the ordinary path. A
  \<open>http.MaxBytesReader\<close> holds its limit, what is left of it, its latched error and the writer
  it was given.
\<close>

datatype reader =
    ConnBody "string list" go_error
  | MaxBytesReader reader int int "go_error option" writer

record request_context =
  ctx_request_id :: "string option"
  ctx_deadline :: "int option"
  ctx_span :: "(string \<times> string) option"

record request =
  req_method :: string
  url_path :: string
  url_escaped_path :: string
  remote_addr :: string
  req_header :: header
  content_length :: int
  req_body :: reader
  req_pattern :: string
  req_ctx :: request_context

section \<open>The exchange\<close>

text \<open>
  One request's response as it develops, and what the handlers do beside it: the live header
  map, the status line with the headers snapshotted at that moment, interim responses, body
  bytes, duplicate \<open>WriteHeader\<close> calls, whether the connection closes after the reply, the
  \<open>statusRecorder\<close> structs allocated, log entries, span operations. The environment is here
  too: how the connection answers each write (success once the script is used up), the
  clock in nanoseconds, the random source with a read position, the Unicode folding table,
  and how many limiter slots are taken.
\<close>

record exchange =
  live_header :: header
  sent :: "(int \<times> header) option"
  informational :: "int list"
  sent_body :: string
  superfluous :: nat
  close_after :: bool
  recorders :: "(int \<times> bool) list"
  log :: "log_entry list"
  span_ops :: "span_op list"
  write_script :: "(nat \<times> go_error) option list"
  clock :: int
  entropy :: "nat \<Rightarrow> char"
  entropy_pos :: nat
  fold_tab :: fold_table
  slots_used :: nat

definition new_exchange :: exchange where
  "new_exchange = \<lparr>live_header = no_header, sent = None, informational = [], sent_body = [],
     superfluous = 0, close_after = False, recorders = [], log = [], span_ops = [],
     write_script = [], clock = 0, entropy = (\<lambda>_. CHR 0x00), entropy_pos = 0,
     fold_tab = (\<lambda>_ _. False), slots_used = 0\<rparr>"

definition log_at :: "level \<Rightarrow> string \<Rightarrow> fields \<Rightarrow> exchange \<Rightarrow> exchange" where
  "log_at l msg fs x =
     x\<lparr>log := log x @ [\<lparr>entry_level = l, entry_message = msg, entry_fields = fs\<rparr>]\<rparr>"

definition span_do :: "span_op \<Rightarrow> exchange \<Rightarrow> exchange" where
  "span_do s x = x\<lparr>span_ops := span_ops x @ [s]\<rparr>"

section \<open>ResponseWriter\<close>

definition set_header :: "string \<Rightarrow> string \<Rightarrow> exchange \<Rightarrow> exchange" where
  "set_header k v x = x\<lparr>live_header := header_set (live_header x) k v\<rparr>"

definition del_header :: "string \<Rightarrow> exchange \<Rightarrow> exchange" where
  "del_header k x = x\<lparr>live_header := header_del (live_header x) k\<rparr>"

text \<open>
  The server's \<open>WriteHeader\<close>: a second final status is only counted, an invalid code panics,
  an interim code other than 101 is sent without committing the response.
\<close>

definition net_write_header :: "int \<Rightarrow> exchange \<Rightarrow> outcome \<times> exchange" where
  "net_write_header code x =
     (if sent x \<noteq> None then (Returned, x\<lparr>superfluous := Suc (superfluous x)\<rparr>)
      else if code < 100 \<or> 999 < code
      then (Panicked (PanicOther (''invalid WriteHeader code '' @ format_int code)), x)
      else if 100 \<le> code \<and> code \<le> 199 \<and> code \<noteq> 101
      then (Returned, x\<lparr>informational := informational x @ [code]\<rparr>)
      else (Returned, x\<lparr>sent := Some (code, live_header x)\<rparr>))"

definition commit_implicitly :: "exchange \<Rightarrow> exchange" where
  "commit_implicitly x =
     (if sent x = None then x\<lparr>sent := Some (200, live_header x)\<rparr> else x)"

definition net_write :: "string \<Rightarrow> exchange \<Rightarrow> (nat \<times> go_error option) \<times> exchange" where
  "net_write b x =
     (let x1 = commit_implicitly x in
      case write_script x1 of
        Some (n, e) # rest \<Rightarrow>
          ((min n (length b), Some e),
           x1\<lparr>write_script := rest, sent_body := sent_body x1 @ take (min n (length b)) b\<rparr>)
      | None # rest \<Rightarrow> ((length b, None), x1\<lparr>write_script := rest, sent_body := sent_body x1 @ b\<rparr>)
      | [] \<Rightarrow> ((length b, None), x1\<lparr>sent_body := sent_body x1 @ b\<rparr>))"

text \<open>
  \<open>responsewriter.go\<close>: a \<open>statusRecorder\<close> is allocated with status 200 and nothing written;
  its \<open>WriteHeader\<close> records the first code before delegating, its \<open>Write\<close> records that the
  response has begun.
\<close>

definition alloc_recorder :: "exchange \<Rightarrow> nat \<times> exchange" where
  "alloc_recorder x = (length (recorders x), x\<lparr>recorders := recorders x @ [(200, False)]\<rparr>)"

definition set_recorder :: "nat \<Rightarrow> int \<times> bool \<Rightarrow> exchange \<Rightarrow> exchange" where
  "set_recorder i v x = x\<lparr>recorders := (recorders x)[i := v]\<rparr>"

definition recorder_status :: "nat \<Rightarrow> exchange \<Rightarrow> int" where
  "recorder_status i x = fst (recorders x ! i)"

definition recorder_written :: "nat \<Rightarrow> exchange \<Rightarrow> bool" where
  "recorder_written i x = snd (recorders x ! i)"

fun rw_write_header :: "writer \<Rightarrow> int \<Rightarrow> exchange \<Rightarrow> outcome \<times> exchange" where
  "rw_write_header NetWriter code x = net_write_header code x"
| "rw_write_header (Wrapper w) code x = rw_write_header w code x"
| "rw_write_header (Recorder i w) code x =
     rw_write_header w code
       (if \<not> recorder_written i x then set_recorder i (code, True) x else x)"

fun rw_write :: "writer \<Rightarrow> string \<Rightarrow> exchange \<Rightarrow> (nat \<times> go_error option) \<times> exchange" where
  "rw_write NetWriter b x = net_write b x"
| "rw_write (Wrapper w) b x = rw_write w b x"
| "rw_write (Recorder i w) b x =
     (case rw_write w b (set_recorder i (recorder_status i x, True) x) of
        ((n, err), x') \<Rightarrow> ((n, map_option (ErrWrap ''writing response body'') err), x'))"

text \<open>\<open>Unwrap\<close>, which the server's own writer does not have.\<close>

fun rw_unwrap :: "writer \<Rightarrow> writer option" where
  "rw_unwrap NetWriter = None"
| "rw_unwrap (Recorder _ w) = Some w"
| "rw_unwrap (Wrapper w) = Some w"

section \<open>Reading a body\<close>

text \<open>
  The signal \<open>MaxBytesReader\<close> gives the server when a body is too long. Only the server's own
  writer has the method, so a wrapped writer swallows it.
\<close>

definition request_too_large :: "writer \<Rightarrow> exchange \<Rightarrow> exchange" where
  "request_too_large w x =
     (if w = NetWriter
      then (let x1 = x\<lparr>close_after := True\<rparr>
            in if sent x1 = None then set_header ''Connection'' ''close'' x1 else x1)
      else x)"

fun read_body :: "nat \<Rightarrow> reader \<Rightarrow> exchange \<Rightarrow> (string \<times> go_error option) \<times> reader \<times> exchange"
where
  "read_body k (ConnBody [] e) x = (([], Some e), ConnBody [] e, x)"
| "read_body k (ConnBody (c # cs) e) x =
     (if length c \<le> k then ((c, None), ConnBody cs e, x)
      else ((take k c, None), ConnBody (drop k c # cs) e, x))"
| "read_body k (MaxBytesReader r limit left latched w) x =
     (case latched of
        Some e \<Rightarrow> (([], Some e), MaxBytesReader r limit left latched w, x)
      | None \<Rightarrow>
          if k = 0 then (([], None), MaxBytesReader r limit left latched w, x)
          else
            let k' = (if left < int k - 1 then nat (left + 1) else k) in
            case read_body k' r x of
              ((b, e), r', x') \<Rightarrow>
                if int (length b) \<le> left
                then ((b, e), MaxBytesReader r' limit (left - int (length b)) e w, x')
                else ((take (nat left) b, Some (ErrMaxBytes limit)),
                      MaxBytesReader r' limit 0 (Some (ErrMaxBytes limit)) w,
                      request_too_large w x'))"

section \<open>Handlers\<close>

type_synonym handler = "request \<Rightarrow> writer \<Rightarrow> exchange \<Rightarrow> outcome \<times> request \<times> exchange"

datatype hprog =
    HDone
  | HPanic panic_value
  | HSet string string hprog
  | HDel string hprog
  | HWriteHeader int hprog
  | HWrite string "nat \<times> go_error option \<Rightarrow> hprog"
  | HRead nat "string \<times> go_error option \<Rightarrow> hprog"
  | HSleep nat hprog
  | HAskDone "bool \<Rightarrow> hprog"

definition ctx_done :: "request_context \<Rightarrow> int \<Rightarrow> bool" where
  "ctx_done c now = (case ctx_deadline c of None \<Rightarrow> False | Some t \<Rightarrow> t \<le> now)"

primrec run_prog :: "hprog \<Rightarrow> handler" where
  "run_prog HDone r w x = (Returned, r, x)"
| "run_prog (HPanic v) r w x = (Panicked v, r, x)"
| "run_prog (HSet k v p) r w x = run_prog p r w (set_header k v x)"
| "run_prog (HDel k p) r w x = run_prog p r w (del_header k x)"
| "run_prog (HWriteHeader code p) r w x =
     (case rw_write_header w code x of
        (Returned, x') \<Rightarrow> run_prog p r w x'
      | (Panicked v, x') \<Rightarrow> (Panicked v, r, x'))"
| "run_prog (HWrite b k) r w x = (case rw_write w b x of (res, x') \<Rightarrow> run_prog (k res) r w x')"
| "run_prog (HRead n k) r w x =
     (case read_body n (req_body r) x of
        (res, body, x') \<Rightarrow> run_prog (k res) (r\<lparr>req_body := body\<rparr>) w x')"
| "run_prog (HSleep d p) r w x = run_prog p r w (x\<lparr>clock := clock x + int d\<rparr>)"
| "run_prog (HAskDone k) r w x = run_prog (k (ctx_done (req_ctx r) (clock x))) r w x"

text \<open>A handler the repository does not contain: its program may depend on the request.\<close>

type_synonym foreign_handler = "request \<Rightarrow> hprog"

definition foreign :: "foreign_handler \<Rightarrow> handler" where
  "foreign f r w x = run_prog (f r) r w x"

text \<open>
  What the server does with a handler: an unwritten response is a 200 with the headers as
  they stand, and a panic aborts the connection, with an entry in the error log unless it
  is the deliberate abort.
\<close>

datatype served = Completed | Aborted panic_value

definition net_serve :: "handler \<Rightarrow> request \<Rightarrow> exchange \<Rightarrow> served \<times> exchange" where
  "net_serve h r x =
     (case h r NetWriter x of
        (Returned, _, x') \<Rightarrow> (Completed, commit_implicitly x')
      | (Panicked v, _, x') \<Rightarrow>
          (Aborted v,
           if v = PanicError (ErrSentinel AbortHandler) then x'
           else log_at ErrorLevel ''http: panic serving'' [(''panic'', FAny v), (''stack'', FStack)] x'))"

end
