(* ===== verification/Proxy.thy ===== *)
theory Proxy
  imports Net_Addr Http
begin

text \<open>
  \<open>internal/server/proxy.go\<close>: which peers are believed, and which address a request is
  attributed to. The locale \<open>trust_decision\<close> is what the walk over the forwarded hops needs of
  the trust decision; it is interpreted on \<open>trusts\<close>.
\<close>

section \<open>Configuration and the trusted set\<close>

record proxy_config =
  trusted_cidrs :: "string list"

record trusted_proxies =
  networks :: "ip_prefix list"

definition default_proxy_config :: proxy_config where
  "default_proxy_config = \<lparr>trusted_cidrs = []\<rparr>"

definition zero_proxies :: trusted_proxies where
  "zero_proxies = \<lparr>networks = []\<rparr>"

text \<open>The error of \<open>NewTrustedProxies\<close> names the entry that did not parse.\<close>

datatype proxy_error = ParsingTrustedCidr string

fun parse_networks :: "string list \<Rightarrow> ip_prefix list \<Rightarrow> proxy_error + ip_prefix list" where
  "parse_networks [] nets = Inr nets"
| "parse_networks (entry # rest) nets =
     (let trimmed = trim_space entry in
      if trimmed = [] then parse_networks rest nets
      else case parse_prefix trimmed of
          None \<Rightarrow> Inl (ParsingTrustedCidr trimmed)
        | Some p \<Rightarrow> parse_networks rest (nets @ [masked p]))"

definition new_trusted_proxies :: "proxy_config \<Rightarrow> proxy_error + trusted_proxies" where
  "new_trusted_proxies cfg =
     (case parse_networks (trusted_cidrs cfg) [] of
        Inl e \<Rightarrow> Inl e
      | Inr nets \<Rightarrow> Inr \<lparr>networks = nets\<rparr>)"

definition proxy_config_validate :: "proxy_config \<Rightarrow> proxy_error option" where
  "proxy_config_validate cfg = (case new_trusted_proxies cfg of Inl e \<Rightarrow> Some e | Inr _ \<Rightarrow> None)"

fun any_contains :: "ip_prefix list \<Rightarrow> addr \<Rightarrow> bool" where
  "any_contains [] a = False"
| "any_contains (n # ns) a = (if prefix_contains n a then True else any_contains ns a)"

definition trusts :: "trusted_proxies \<Rightarrow> addr \<Rightarrow> bool" where
  "trusts t a = any_contains (networks t) a"

section \<open>Reading a request\<close>

definition peer_addr :: "request \<Rightarrow> addr option" where
  "peer_addr r =
     (let host = (case split_host_port (remote_addr r) of
                    None \<Rightarrow> remote_addr r
                  | Some (h, _) \<Rightarrow> h)
      in map_option unmap (parse_addr host))"

definition forwarded_for_header :: string where
  "forwarded_for_header = ''X-Forwarded-For''"

definition forwarded_hop :: "string \<Rightarrow> addr option" where
  "forwarded_hop entry = map_option unmap (parse_addr (trim_space entry))"

definition forwarded_for :: "request \<Rightarrow> addr option list" where
  "forwarded_for r =
     concat (map (\<lambda>value. map forwarded_hop (split value CHR '',''))
               (header_values (req_header r) forwarded_for_header))"

definition trusts_peer :: "trusted_proxies \<Rightarrow> request \<Rightarrow> bool" where
  "trusts_peer t r = (case peer_addr r of None \<Rightarrow> False | Some a \<Rightarrow> trusts t a)"

text \<open>The loop of \<open>ClientIP\<close> over the hops, nearest first.\<close>

fun walk_hops :: "(addr \<Rightarrow> bool) \<Rightarrow> addr option list \<Rightarrow> addr option" where
  "walk_hops tr [] = None"
| "walk_hops tr (None # _) = None"
| "walk_hops tr (Some a # hops) = (if \<not> tr a then Some a else walk_hops tr hops)"

definition client_ip :: "trusted_proxies \<Rightarrow> request \<Rightarrow> string" where
  "client_ip t r =
     (case peer_addr r of
        None \<Rightarrow> []
      | Some peer \<Rightarrow>
          if \<not> trusts t peer then addr_text peer
          else case walk_hops (trusts t) (rev (forwarded_for r)) of
              Some a \<Rightarrow> addr_text a
            | None \<Rightarrow> addr_text peer)"

section \<open>Facts\<close>

lemma any_contains_iff: "any_contains ns a \<longleftrightarrow> (\<exists>n \<in> set ns. prefix_contains n a)"
  by (induction ns) auto

lemma trusts_iff: "trusts t a \<longleftrightarrow> (\<exists>n \<in> set (networks t). prefix_contains n a)"
  by (simp add: trusts_def any_contains_iff)

lemma trusts_zero [simp]: "\<not> trusts zero_proxies a"
  by (simp add: trusts_iff zero_proxies_def)

text \<open>The entries that name a network, and what parsing them all gives.\<close>

definition cidr_entries :: "string list \<Rightarrow> string list" where
  "cidr_entries es = filter (\<lambda>s. s \<noteq> []) (map trim_space es)"

lemma cidr_entries_simps [simp]:
  "cidr_entries [] = []"
  "cidr_entries (e # es) =
     (if trim_space e = [] then cidr_entries es else trim_space e # cidr_entries es)"
  by (simp_all add: cidr_entries_def)

lemma parse_networks_Inr:
  "parse_networks es nets = Inr out \<longleftrightarrow>
     (\<forall>e \<in> set (cidr_entries es). parse_prefix e \<noteq> None) \<and>
     out = nets @ map (masked \<circ> the \<circ> parse_prefix) (cidr_entries es)"
  by (induction es arbitrary: nets) (auto simp: Let_def split: option.splits)

lemma parse_networks_Inl:
  "parse_networks es nets = Inl (ParsingTrustedCidr s) \<longleftrightarrow>
     find (\<lambda>e. parse_prefix e = None) (cidr_entries es) = Some s"
  by (induction es arbitrary: nets) (auto simp: Let_def split: option.splits)

locale trust_decision =
  fixes tr :: "addr \<Rightarrow> bool"
  assumes zoned_untrusted: "has_zone a \<Longrightarrow> \<not> tr a"
begin

lemma walk_reaches:
  "\<lbrakk>list_all (\<lambda>h. \<exists>a. h = Some a \<and> tr a) near; \<not> tr a\<rbrakk> \<Longrightarrow>
   walk_hops tr (near @ Some a # far) = Some a"
  by (induction near) auto

lemma walk_stops:
  "list_all (\<lambda>h. \<exists>a. h = Some a \<and> tr a) near \<Longrightarrow> walk_hops tr (near @ None # far) = None"
  by (induction near) auto

lemma walk_exhausts:
  "list_all (\<lambda>h. \<exists>a. h = Some a \<and> tr a) near \<Longrightarrow> walk_hops tr near = None"
  by (induction near) auto

lemma walk_SomeD:
  "walk_hops tr hops = Some a \<Longrightarrow>
   \<exists>near far. hops = near @ Some a # far \<and> \<not> tr a \<and> list_all (\<lambda>h. \<exists>b. h = Some b \<and> tr b) near"
proof (induction tr hops rule: walk_hops.induct)
  case (3 tr b hops)
  show ?case
  proof (cases "tr b")
    case True
    with 3 obtain near far where "hops = near @ Some a # far" "\<not> tr a"
      "list_all (\<lambda>h. \<exists>b. h = Some b \<and> tr b) near" by auto
    with True show ?thesis by (intro exI [of _ "Some b # near"] exI [of _ far]) auto
  next
    case False
    with 3 show ?thesis by (intro exI [of _ "[]"] exI [of _ hops]) auto
  qed
qed auto

lemma walk_zoned: "has_zone a \<Longrightarrow> walk_hops tr (Some a # hops) = Some a"
  by (simp add: zoned_untrusted)

end

interpretation proxies: trust_decision "trusts t" for t
  by unfold_locales
    (auto simp: trusts_iff prefix_contains_def has_zone_def split: addr.splits)

text \<open>What the nearest hop of the last \<open>X-Forwarded-For\<close> value is.\<close>

lemma split_last_entry:
  "sep \<notin> set w \<Longrightarrow> \<exists>v ws. split (s @ sep # w) sep = v # ws @ [w]"
  by (induction s) (auto simp: split_no_sep)

lemma forwarded_for_last:
  assumes "header_values (req_header r) forwarded_for_header = vs @ [spoof @ CHR '','' # hop]"
    and "CHR '','' \<notin> set hop"
  shows "\<exists>hops. forwarded_for r = hops @ [forwarded_hop hop]"
  using split_last_entry [OF assms(2), of spoof] assms(1) by (auto simp: forwarded_for_def)

text \<open>An address that went through \<open>Unmap\<close> is not IPv4-mapped.\<close>

lemma unmap_not_4in6: "\<not> is_4in6 (unmap a)"
  by (cases a) (auto simp: is_4in6_def)

lemma mapped_prefix_misses:
  assumes "prefix_ok p" "is_4in6 (prefix_addr p)" "96 \<le> prefix_bits p"
  shows "\<not> prefix_contains p (unmap a)"
proof
  assume c: "prefix_contains p (unmap a)"
  obtain w z where w: "prefix_addr p = IPv6 w z" using assms(2) by (cases "prefix_addr p") (auto simp: is_4in6_def)
  then obtain v where v: "unmap a = IPv6 v []"
    using c by (cases "unmap a") (auto simp: prefix_contains_def)
  have n: "128 - prefix_bits p \<le> 32" using assms(3) by simp
  have "drop_bit (128 - prefix_bits p) v = drop_bit (128 - prefix_bits p) w"
    using c v w prefix_contains_iff [OF assms(1)] by simp
  then have "drop_bit 32 v = drop_bit 32 w" using n by (simp add: drop_bit_eq_iff)
  then show False using unmap_not_4in6 [of a] assms(2) v w by (simp add: is_4in6_def)
qed

end
