(* ===== verification/Handler_Contract.thy ===== *)
theory Handler_Contract
  imports Http
begin

text \<open>
  The contract a handler keeps towards whoever called it. \<open>evolves F W x y\<close> says that the
  exchange went from \<open>x\<close> to \<open>y\<close> by calls a holder of the writer \<open>W\<close> can make, within a frame
  \<open>F\<close>: the header keys left alone, the log messages not emitted, the status codes passed to
  \<open>WriteHeader\<close>. The locale \<open>handler_contract\<close> states it for a handler; what follows for the
  caller (a sent response is final, pinned headers reach the wire, the log only grows, a
  recorder agrees with the wire) is proved once, in the locale. Every handler and every
  middleware of the development is shown to satisfy it.
\<close>

section \<open>What the ResponseWriter calls change\<close>

definition final_codes :: "int set" where
  "final_codes = {c. c = 101 \<or> (200 \<le> c \<and> c \<le> 999)}"

lemma net_write_header_simps [wire_simps]:
  "sent (snd (net_write_header c x)) =
     (if sent x = None \<and> c \<in> final_codes then Some (c, live_header x) else sent x)"
  "live_header (snd (net_write_header c x)) = live_header x"
  "recorders (snd (net_write_header c x)) = recorders x"
  "log (snd (net_write_header c x)) = log x"
  "sent_body (snd (net_write_header c x)) = sent_body x"
  "slots_used (snd (net_write_header c x)) = slots_used x"
  "clock (snd (net_write_header c x)) = clock x"
  "fold_tab (snd (net_write_header c x)) = fold_tab x"
  by (auto simp: net_write_header_def final_codes_def)

lemma commit_implicitly_simps [wire_simps]:
  "sent (commit_implicitly x) = (if sent x = None then Some (200, live_header x) else sent x)"
  "live_header (commit_implicitly x) = live_header x"
  "recorders (commit_implicitly x) = recorders x"
  "log (commit_implicitly x) = log x"
  "sent_body (commit_implicitly x) = sent_body x"
  "slots_used (commit_implicitly x) = slots_used x"
  "clock (commit_implicitly x) = clock x"
  "fold_tab (commit_implicitly x) = fold_tab x"
  by (auto simp: commit_implicitly_def)

lemma net_write_simps [wire_simps]:
  "sent (snd (net_write b x)) = (if sent x = None then Some (200, live_header x) else sent x)"
  "live_header (snd (net_write b x)) = live_header x"
  "recorders (snd (net_write b x)) = recorders x"
  "log (snd (net_write b x)) = log x"
  "slots_used (snd (net_write b x)) = slots_used x"
  "clock (snd (net_write b x)) = clock x"
  "fold_tab (snd (net_write b x)) = fold_tab x"
  by (auto simp: net_write_def Let_def wire_simps split: list.splits option.splits)

lemma set_recorder_simps [wire_simps]:
  "sent (set_recorder i v x) = sent x"
  "live_header (set_recorder i v x) = live_header x"
  "recorders (set_recorder i v x) = (recorders x)[i := v]"
  "log (set_recorder i v x) = log x"
  "sent_body (set_recorder i v x) = sent_body x"
  "slots_used (set_recorder i v x) = slots_used x"
  "clock (set_recorder i v x) = clock x"
  "fold_tab (set_recorder i v x) = fold_tab x"
  by (simp_all add: set_recorder_def)

lemma alloc_recorder_simps [wire_simps]:
  "fst (alloc_recorder x) = length (recorders x)"
  "sent (snd (alloc_recorder x)) = sent x"
  "live_header (snd (alloc_recorder x)) = live_header x"
  "recorders (snd (alloc_recorder x)) = recorders x @ [(200, False)]"
  "log (snd (alloc_recorder x)) = log x"
  "sent_body (snd (alloc_recorder x)) = sent_body x"
  "slots_used (snd (alloc_recorder x)) = slots_used x"
  "clock (snd (alloc_recorder x)) = clock x"
  "fold_tab (snd (alloc_recorder x)) = fold_tab x"
  by (simp_all add: alloc_recorder_def)

lemma log_at_simps [wire_simps]:
  "sent (log_at l m fs x) = sent x"
  "live_header (log_at l m fs x) = live_header x"
  "recorders (log_at l m fs x) = recorders x"
  "log (log_at l m fs x) = log x @ [\<lparr>entry_level = l, entry_message = m, entry_fields = fs\<rparr>]"
  "sent_body (log_at l m fs x) = sent_body x"
  "slots_used (log_at l m fs x) = slots_used x"
  "clock (log_at l m fs x) = clock x"
  "fold_tab (log_at l m fs x) = fold_tab x"
  by (simp_all add: log_at_def)

lemma span_do_simps [wire_simps]:
  "sent (span_do s x) = sent x"
  "live_header (span_do s x) = live_header x"
  "recorders (span_do s x) = recorders x"
  "log (span_do s x) = log x"
  "sent_body (span_do s x) = sent_body x"
  "slots_used (span_do s x) = slots_used x"
  "clock (span_do s x) = clock x"
  "fold_tab (span_do s x) = fold_tab x"
  by (simp_all add: span_do_def)

lemma set_header_simps [wire_simps]:
  "sent (set_header k v x) = sent x"
  "live_header (set_header k v x) = (live_header x)(canonical_key k := [v])"
  "recorders (set_header k v x) = recorders x"
  "log (set_header k v x) = log x"
  "sent_body (set_header k v x) = sent_body x"
  "slots_used (set_header k v x) = slots_used x"
  "clock (set_header k v x) = clock x"
  "fold_tab (set_header k v x) = fold_tab x"
  "superfluous (set_header k v x) = superfluous x"
  by (simp_all add: set_header_def header_set_def)

lemma del_header_simps [wire_simps]:
  "sent (del_header k x) = sent x"
  "live_header (del_header k x) = (live_header x)(canonical_key k := [])"
  "recorders (del_header k x) = recorders x"
  "log (del_header k x) = log x"
  "sent_body (del_header k x) = sent_body x"
  "slots_used (del_header k x) = slots_used x"
  "clock (del_header k x) = clock x"
  "fold_tab (del_header k x) = fold_tab x"
  by (simp_all add: del_header_def header_del_def)

fun writer_recorders :: "writer \<Rightarrow> nat set" where
  "writer_recorders NetWriter = {}"
| "writer_recorders (Wrapper w) = writer_recorders w"
| "writer_recorders (Recorder i w) = insert i (writer_recorders w)"

lemma rw_write_header_simps [wire_simps]:
  "sent (snd (rw_write_header w c x)) =
     (if sent x = None \<and> c \<in> final_codes then Some (c, live_header x) else sent x)"
  "live_header (snd (rw_write_header w c x)) = live_header x"
  "length (recorders (snd (rw_write_header w c x))) = length (recorders x)"
  "log (snd (rw_write_header w c x)) = log x"
  "sent_body (snd (rw_write_header w c x)) = sent_body x"
  "slots_used (snd (rw_write_header w c x)) = slots_used x"
  "clock (snd (rw_write_header w c x)) = clock x"
  "fold_tab (snd (rw_write_header w c x)) = fold_tab x"
  by (induction w c x rule: rw_write_header.induct) (auto simp: wire_simps)

lemma rw_write_header_recorders:
  "i \<notin> writer_recorders w \<Longrightarrow> recorders (snd (rw_write_header w c x)) ! i = recorders x ! i"
  by (induction w c x rule: rw_write_header.induct) (auto simp: wire_simps)

lemma rw_write_header_returns:
  "c \<in> final_codes \<Longrightarrow> fst (rw_write_header w c x) = Returned"
  by (induction w c x rule: rw_write_header.induct) (auto simp: net_write_header_def final_codes_def)

lemma rw_write_simps [wire_simps]:
  "sent (snd (rw_write w b x)) = (if sent x = None then Some (200, live_header x) else sent x)"
  "live_header (snd (rw_write w b x)) = live_header x"
  "length (recorders (snd (rw_write w b x))) = length (recorders x)"
  "log (snd (rw_write w b x)) = log x"
  "slots_used (snd (rw_write w b x)) = slots_used x"
  "clock (snd (rw_write w b x)) = clock x"
  "fold_tab (snd (rw_write w b x)) = fold_tab x"
  by (induction w b x rule: rw_write.induct) (auto simp: wire_simps split: prod.splits)

lemma rw_write_recorders:
  "i \<notin> writer_recorders w \<Longrightarrow> recorders (snd (rw_write w b x)) ! i = recorders x ! i"
  by (induction w b x rule: rw_write.induct) (auto simp: wire_simps split: prod.splits)

lemma request_too_large_simps [wire_simps]:
  "sent (request_too_large w x) = sent x"
  "k \<noteq> ''Connection'' \<Longrightarrow> live_header (request_too_large w x) k = live_header x k"
  "recorders (request_too_large w x) = recorders x"
  "log (request_too_large w x) = log x"
  "sent_body (request_too_large w x) = sent_body x"
  "slots_used (request_too_large w x) = slots_used x"
  "clock (request_too_large w x) = clock x"
  "fold_tab (request_too_large w x) = fold_tab x"
  by (auto simp: request_too_large_def Let_def wire_simps canonical_key_def text_simps
        token_byte_def is_letter_def is_upper_def is_lower_def)

lemma net_write_sent_body: "\<exists>b'. sent_body (snd (net_write b x)) = sent_body x @ b'"
  by (auto simp: net_write_def Let_def wire_simps split: list.splits option.splits)

lemma rw_write_sent_body: "\<exists>b'. sent_body (snd (rw_write w b x)) = sent_body x @ b'"
proof (induction w b x rule: rw_write.induct)
  case (1 b x)
  show ?case by (simp add: net_write_sent_body)
next
  case (3 i w b x)
  then show ?case by (auto simp: wire_simps split: prod.splits)
qed simp

section \<open>Frames and what an exchange may become within one\<close>

record frame =
  pinned :: "(string \<times> string list) set"
  silent :: "string set"
  final_only :: bool

text \<open>
  A pinned pair is a header that keeps that value once it has it. A key is free when no value
  of it is pinned; a value may be set when it is the only one pinned for its key.
\<close>

abbreviation free :: "frame \<Rightarrow> string \<Rightarrow> bool" where
  "free F k \<equiv> \<forall>v. (k, v) \<notin> pinned F"

abbreviation may_set :: "frame \<Rightarrow> string \<Rightarrow> string \<Rightarrow> bool" where
  "may_set F k v \<equiv> \<forall>v'. (k, v') \<in> pinned F \<longrightarrow> v' = [v]"

text \<open>A recorder agrees with the wire: written exactly when a status is out, and with its code.\<close>

definition coherent :: "nat \<Rightarrow> exchange \<Rightarrow> bool" where
  "coherent i x \<longleftrightarrow>
     recorders x ! i = (case sent x of None \<Rightarrow> (200, False) | Some (c, _) \<Rightarrow> (c, True))"

definition evolves :: "frame \<Rightarrow> writer \<Rightarrow> exchange \<Rightarrow> exchange \<Rightarrow> bool" where
  "evolves F w x y \<longleftrightarrow>
     (\<forall>k v. (k, v) \<in> pinned F \<longrightarrow> live_header x k = v \<longrightarrow> live_header y k = v) \<and>
     (sent x \<noteq> None \<longrightarrow> sent y = sent x) \<and>
     (\<forall>c h. sent x = None \<longrightarrow> sent y = Some (c, h) \<longrightarrow>
        c \<in> final_codes \<and> (\<forall>k v. (k, v) \<in> pinned F \<longrightarrow> live_header x k = v \<longrightarrow> h k = v)) \<and>
     (\<exists>es. log y = log x @ es \<and> (\<forall>e \<in> set es. entry_message e \<notin> silent F)) \<and>
     (\<exists>b. sent_body y = sent_body x @ b) \<and>
     length (recorders x) \<le> length (recorders y) \<and>
     (\<forall>i < length (recorders x). i \<notin> writer_recorders w \<longrightarrow> recorders y ! i = recorders x ! i) \<and>
     (final_only F \<longrightarrow> (\<forall>i \<in> writer_recorders w. coherent i x \<longrightarrow> coherent i y)) \<and>
     slots_used y = slots_used x \<and> fold_tab y = fold_tab x \<and> clock x \<le> clock y"

lemma evolves_refl [intro!, simp]: "evolves F w x x"
  by (simp add: evolves_def)

lemma evolves_trans:
  assumes "evolves F w x y" "evolves F w y z"
  shows "evolves F w x z"
proof -
  note xy = assms(1) [unfolded evolves_def] and yz = assms(2) [unfolded evolves_def]
  obtain es es' where logs: "log y = log x @ es" "\<forall>e \<in> set es. entry_message e \<notin> silent F"
    "log z = log y @ es'" "\<forall>e \<in> set es'. entry_message e \<notin> silent F"
    using xy yz by (elim conjE exE) metis
  obtain b b' where bodies: "sent_body y = sent_body x @ b" "sent_body z = sent_body y @ b'"
    using xy yz by (elim conjE exE) metis
  have status: "c \<in> final_codes \<and> (\<forall>k v. (k, v) \<in> pinned F \<longrightarrow> live_header x k = v \<longrightarrow> h k = v)"
    if "sent x = None" "sent z = Some (c, h)" for c h
  proof (cases "sent y")
    case None
    then show ?thesis using xy yz that(2) by blast
  next
    case (Some a)
    then have "sent y = Some (c, h)" using yz that(2) by (metis option.distinct(1))
    then show ?thesis using xy that(1) by blast
  qed
  have recs: "recorders z ! i = recorders x ! i" if "i < length (recorders x)" "i \<notin> writer_recorders w" for i
    using xy yz that by (metis le_trans linorder_not_le)
  show ?thesis
    unfolding evolves_def
  proof (intro conjI)
    show "\<exists>es. log z = log x @ es \<and> (\<forall>e \<in> set es. entry_message e \<notin> silent F)"
      using logs by (intro exI [of _ "es @ es'"]) auto
    show "\<exists>b. sent_body z = sent_body x @ b" using bodies by simp
    show "\<forall>k v. (k, v) \<in> pinned F \<longrightarrow> live_header x k = v \<longrightarrow> live_header z k = v" using xy yz by blast
    show "sent x \<noteq> None \<longrightarrow> sent z = sent x" using xy yz by metis
    show "final_only F \<longrightarrow> (\<forall>i \<in> writer_recorders w. coherent i x \<longrightarrow> coherent i z)" using xy yz by blast
  qed (use xy yz status recs in simp_all)
qed

text \<open>
  Calls that touch neither the wire, the log nor a recorder of the caller: what they leave
  unchanged is enough for \<open>evolves\<close>.
\<close>

lemma evolves_quiet:
  "\<lbrakk>\<forall>k v. (k, v) \<in> pinned F \<longrightarrow> live_header x k = v \<longrightarrow> live_header y k = v; sent y = sent x; log y = log x;
    sent_body y = sent_body x; recorders y = recorders x; slots_used y = slots_used x;
    fold_tab y = fold_tab x; clock x \<le> clock y\<rbrakk> \<Longrightarrow> evolves F w x y"
  by (simp add: evolves_def coherent_def)

lemma evolves_set_header:
  "may_set F (canonical_key k) v \<Longrightarrow> evolves F w x (set_header k v x)"
  by (rule evolves_quiet) (auto simp: wire_simps)

lemma evolves_del_header:
  "free F (canonical_key k) \<Longrightarrow> evolves F w x (del_header k x)"
  by (rule evolves_quiet) (auto simp: wire_simps)

lemma evolves_log:
  "msg \<notin> silent F \<Longrightarrow> evolves F w x (log_at l msg fs x)"
  by (simp add: evolves_def wire_simps coherent_def)

lemma evolves_span: "evolves F w x (span_do s x)"
  by (rule evolves_quiet) (auto simp: wire_simps)

text \<open>The same, after whatever came before: the form that composes by \<open>intro\<close>.\<close>

lemma evolves_after:
  assumes "evolves F w x y"
  shows "may_set F (canonical_key k) v \<Longrightarrow> evolves F w x (set_header k v y)"
    and "free F (canonical_key k) \<Longrightarrow> evolves F w x (del_header k y)"
    and "msg \<notin> silent F \<Longrightarrow> evolves F w x (log_at l msg fs y)"
    and "evolves F w x (span_do s y)"
  using assms
  by (blast intro: evolves_trans evolves_set_header evolves_del_header evolves_log evolves_span)+

lemma writer_recorders_bound:
  "writer_recorders w \<subseteq> {..<n} \<Longrightarrow> i \<in> writer_recorders w \<Longrightarrow> i < n"
  by auto

lemma rw_write_header_own:
  "i \<in> writer_recorders w \<Longrightarrow> i < length (recorders x) \<Longrightarrow>
   recorders (snd (rw_write_header w c x)) ! i =
     (if recorder_written i x then recorders x ! i else (c, True))"
proof (induction w c x rule: rw_write_header.induct)
  case (3 j w c x)
  let ?x1 = "if \<not> recorder_written j x then set_recorder j (c, True) x else x"
  have len: "i < length (recorders ?x1)" using 3(3) by (simp add: wire_simps)
  have at: "recorders ?x1 ! i =
      (if i = j \<and> \<not> recorder_written i x then (c, True) else recorders x ! i)"
    using 3(3) by (auto simp: wire_simps)
  show ?case
  proof (cases "i \<in> writer_recorders w")
    case True
    show ?thesis using 3(1) [OF True len] at by (auto simp: recorder_written_def)
  next
    case False
    then have "i = j" using 3(2) by simp
    then show ?thesis using rw_write_header_recorders [OF False] at by auto
  qed
qed auto

lemma rw_write_own:
  "i \<in> writer_recorders w \<Longrightarrow> i < length (recorders x) \<Longrightarrow>
   recorders (snd (rw_write w b x)) ! i = (recorder_status i x, True)"
proof (induction w b x rule: rw_write.induct)
  case (3 j w b x)
  let ?x1 = "set_recorder j (recorder_status j x, True) x"
  have len: "i < length (recorders ?x1)" using 3(3) by (simp add: wire_simps)
  have at: "recorders ?x1 ! i =
      (if i = j then (recorder_status i x, True) else recorders x ! i)"
    using 3(3) by (auto simp: wire_simps)
  show ?case
  proof (cases "i \<in> writer_recorders w")
    case True
    show ?thesis using 3(1) [OF True len] at by (auto simp: recorder_status_def split: prod.splits)
  next
    case False
    then have "i = j" using 3(2) by simp
    then show ?thesis using rw_write_recorders [OF False, of b ?x1] at by (auto split: prod.splits)
  qed
qed auto

lemma evolves_write_header:
  assumes "writer_recorders w \<subseteq> {..<length (recorders x)}" "final_only F \<Longrightarrow> c \<in> final_codes"
  shows "evolves F w x (snd (rw_write_header w c x))"
proof -
  have "coherent i (snd (rw_write_header w c x))"
    if "final_only F" "i \<in> writer_recorders w" "coherent i x" for i
    using that assms rw_write_header_own [OF that(2), of x c]
    by (auto simp: coherent_def recorder_written_def wire_simps split: option.splits)
  then show ?thesis
    by (auto simp: evolves_def wire_simps rw_write_header_recorders)
qed

lemma evolves_write:
  assumes "writer_recorders w \<subseteq> {..<length (recorders x)}"
  shows "evolves F w x (snd (rw_write w b x))"
proof -
  have "coherent i (snd (rw_write w b x))" if "i \<in> writer_recorders w" "coherent i x" for i
    using that assms rw_write_own [OF that(1), of x b]
    by (auto simp: coherent_def recorder_status_def wire_simps split: option.splits)
  then show ?thesis
    using rw_write_sent_body [of w b x]
    by (auto simp: evolves_def wire_simps rw_write_recorders final_codes_def)
qed

lemma evolves_too_large:
  "free F ''Connection'' \<Longrightarrow> evolves F w' x (request_too_large w x)"
  by (rule evolves_quiet) (auto simp: wire_simps intro!: request_too_large_simps(2))

lemma evolves_read:
  "free F ''Connection'' \<Longrightarrow> evolves F w x (snd (snd (read_body n body x)))"
proof (induction n body x rule: read_body.induct)
  case (3 k r limit left latched w' x)
  then show ?case
    by (auto simp: Let_def intro: evolves_trans evolves_too_large split: option.splits prod.splits)
qed auto

text \<open>A middleware that hands its callee a recorder it has just allocated, or a wrapper.\<close>

lemma evolves_alloc:
  assumes "evolves F (Recorder (length (recorders x)) w) (snd (alloc_recorder x)) y"
    and "writer_recorders w \<subseteq> {..<length (recorders x)}"
  shows "evolves F w x y"
proof -
  have "coherent i (snd (alloc_recorder x)) = coherent i x" if "i \<in> writer_recorders w" for i
    using that assms(2) by (auto simp: coherent_def wire_simps nth_append)
  then show ?thesis
    using assms by (auto simp: evolves_def wire_simps nth_append)
qed

lemma evolves_wrapper [simp]: "evolves F (Wrapper w) = evolves F w"
  by (intro ext) (simp add: evolves_def)

lemma evolves_length:
  "evolves F w x y \<Longrightarrow> writer_recorders w' \<subseteq> {..<length (recorders x)} \<Longrightarrow>
   writer_recorders w' \<subseteq> {..<length (recorders y)}"
  by (auto simp: evolves_def)

lemma evolves_then:
  "evolves F w x y \<Longrightarrow> writer_recorders w \<subseteq> {..<length (recorders x)} \<Longrightarrow>
   (writer_recorders w \<subseteq> {..<length (recorders y)} \<Longrightarrow> evolves F w y z) \<Longrightarrow> evolves F w x z"
  using evolves_trans evolves_length by simp

section \<open>The contract\<close>

definition same_request :: "request \<Rightarrow> request \<Rightarrow> bool" where
  "same_request r r' \<longleftrightarrow>
     req_method r' = req_method r \<and> url_path r' = url_path r \<and>
     url_escaped_path r' = url_escaped_path r \<and> remote_addr r' = remote_addr r \<and>
     req_header r' = req_header r \<and> content_length r' = content_length r \<and> req_ctx r' = req_ctx r"

lemma same_request_refl [intro!, simp]: "same_request r r"
  by (simp add: same_request_def)

lemma same_request_trans: "same_request r s \<Longrightarrow> same_request s t \<Longrightarrow> same_request r t"
  by (simp add: same_request_def)

lemma same_request_update [simp]:
  "same_request r (r'\<lparr>req_body := b\<rparr>) = same_request r r'"
  "same_request (r\<lparr>req_body := b\<rparr>) r' = same_request r r'"
  "same_request r (r'\<lparr>req_pattern := p\<rparr>) = same_request r r'"
  by (simp_all add: same_request_def)

definition keeps :: "frame \<Rightarrow> handler \<Rightarrow> bool" where
  "keeps F h \<longleftrightarrow>
     (\<forall>r w x. writer_recorders w \<subseteq> {..<length (recorders x)} \<longrightarrow>
        (case h r w x of (_, r', x') \<Rightarrow> evolves F w x x' \<and> same_request r r'))"

lemma keepsI:
  "(\<And>r w x. writer_recorders w \<subseteq> {..<length (recorders x)} \<Longrightarrow>
      evolves F w x (snd (snd (h r w x))) \<and> same_request r (fst (snd (h r w x)))) \<Longrightarrow> keeps F h"
  unfolding keeps_def by (simp add: case_prod_beta)

lemma keepsD:
  assumes "keeps F h" "h r w x = (out, r', x')" "writer_recorders w \<subseteq> {..<length (recorders x)}"
  shows "evolves F w x x'" "same_request r r'"
  using assms by (auto simp: keeps_def split: prod.splits)

text \<open>Every header key, log message and status code a program can come to use.\<close>

inductive stays_within :: "frame \<Rightarrow> hprog \<Rightarrow> bool" for F where
  within_done: "stays_within F HDone"
| within_panic: "stays_within F (HPanic v)"
| within_set: "may_set F (canonical_key k) v \<Longrightarrow> stays_within F p \<Longrightarrow> stays_within F (HSet k v p)"
| within_del: "free F (canonical_key k) \<Longrightarrow> stays_within F p \<Longrightarrow> stays_within F (HDel k p)"
| within_write_header:
    "(final_only F \<longrightarrow> c \<in> final_codes) \<Longrightarrow> stays_within F p \<Longrightarrow> stays_within F (HWriteHeader c p)"
| within_write: "(\<And>res. stays_within F (q res)) \<Longrightarrow> stays_within F (HWrite b q)"
| within_read: "free F ''Connection'' \<Longrightarrow> (\<And>res. stays_within F (q' res)) \<Longrightarrow> stays_within F (HRead n q')"
| within_sleep: "stays_within F p \<Longrightarrow> stays_within F (HSleep d p)"
| within_ask: "(\<And>b. stays_within F (q'' b)) \<Longrightarrow> stays_within F (HAskDone q'')"

lemma run_prog_evolves:
  "stays_within F p \<Longrightarrow> writer_recorders w \<subseteq> {..<length (recorders x)} \<Longrightarrow>
   evolves F w x (snd (snd (run_prog p r w x))) \<and> same_request r (fst (snd (run_prog p r w x)))"
proof (induction arbitrary: r x rule: stays_within.induct)
  case (within_set k p v)
  then show ?case
    using evolves_trans [OF evolves_set_header [OF within_set(1), of w x]]
    by (simp add: wire_simps)
next
  case (within_del k p)
  then show ?case
    using evolves_trans [OF evolves_del_header [OF within_del(1), of w x]]
    by (simp add: wire_simps)
next
  case (within_write_header c p)
  obtain out y where y: "rw_write_header w c x = (out, y)" by fastforce
  have "evolves F w x y"
    using evolves_write_header [OF within_write_header(4), of F c] within_write_header(1) y by simp
  with within_write_header y show ?case
    by (auto split: outcome.splits intro: evolves_then dest: evolves_length)
next
  case (within_write q b)
  obtain res y where y: "rw_write w b x = (res, y)" by fastforce
  have "evolves F w x y" using evolves_write [OF within_write(3), of F b] y by simp
  with within_write(2) [of y res r] within_write(3) y show ?case
    by (auto intro: evolves_then dest: evolves_length)
next
  case (within_read q n)
  obtain res body y where y: "read_body n (req_body r) x = (res, body, y)" by (metis prod_cases3)
  have "evolves F w x y"
    using evolves_read [OF within_read(1), where w = w and n = n and body = "req_body r" and x = x] y
    by simp
  with within_read(3) [of y res "r\<lparr>req_body := body\<rparr>"] within_read(4) y show ?case
    by (auto intro: evolves_then dest: evolves_length)
next
  case (within_sleep p d)
  have "evolves F w x (x\<lparr>clock := clock x + int d\<rparr>)" by (rule evolves_quiet) auto
  with within_sleep show ?case by (auto intro: evolves_trans)
qed auto

lemma foreign_keeps [keeps_intros]: "(\<And>r. stays_within F (f r)) \<Longrightarrow> keeps F (foreign f)"
  by (rule keepsI) (metis foreign_def run_prog_evolves)

text \<open>A handler that is silent about more is silent about less.\<close>

lemma evolves_silent_mono: "evolves F w x y \<Longrightarrow> S \<subseteq> silent F \<Longrightarrow> evolves (F\<lparr>silent := S\<rparr>) w x y"
  by (fastforce simp: evolves_def)

lemma keeps_silent_mono: "keeps F h \<Longrightarrow> S \<subseteq> silent F \<Longrightarrow> keeps (F\<lparr>silent := S\<rparr>) h"
  by (fastforce simp: keeps_def split: prod.splits intro: evolves_silent_mono)

lemma within_silent: "stays_within F p \<Longrightarrow> stays_within (F\<lparr>silent := S\<rparr>) p"
  by (induction rule: stays_within.induct) (auto intro: stays_within.intros)

text \<open>The frame that asks nothing.\<close>

definition any_frame :: frame where
  "any_frame = \<lparr>pinned = {}, silent = {}, final_only = False\<rparr>"

lemma any_frame_simps [simp]:
  "pinned any_frame = {}" "silent any_frame = {}" "final_only any_frame = False"
  by (simp_all add: any_frame_def)

lemma within_any [intro!, simp]: "stays_within any_frame p"
  by (induction p) (auto intro: stays_within.intros)

section \<open>What the caller of a handler may rely on\<close>

locale handler_contract =
  fixes h :: handler and F :: frame
  assumes contract: "keeps F h"
begin

lemma evolution:
  assumes "h r w x = (out, r', x')" "writer_recorders w \<subseteq> {..<length (recorders x)}"
  shows "evolves F w x x'" "same_request r r'"
  using keepsD [OF contract assms] by auto

lemma sent_is_final:
  "\<lbrakk>h r w x = (out, r', x'); writer_recorders w \<subseteq> {..<length (recorders x)}; sent x \<noteq> None\<rbrakk> \<Longrightarrow>
   sent x' = sent x"
  using evolution(1) by (auto simp: evolves_def)

lemma pinned_on_the_wire:
  "\<lbrakk>h r w x = (out, r', x'); writer_recorders w \<subseteq> {..<length (recorders x)}; sent x = None;
    sent x' = Some (c, hs); (k, v) \<in> pinned F; live_header x k = v\<rbrakk> \<Longrightarrow> hs k = v"
  using evolution(1) by (auto simp: evolves_def)

lemma log_grows:
  assumes "h r w x = (out, r', x')" "writer_recorders w \<subseteq> {..<length (recorders x)}"
  obtains es where "log x' = log x @ es" "\<forall>e \<in> set es. entry_message e \<notin> silent F"
  using evolution(1) [OF assms] by (auto simp: evolves_def)

lemma recorder_agrees:
  "\<lbrakk>h r w x = (out, r', x'); writer_recorders w \<subseteq> {..<length (recorders x)}; final_only F;
    i \<in> writer_recorders w; coherent i x\<rbrakk> \<Longrightarrow> coherent i x'"
  using evolution(1) by (auto simp: evolves_def)

lemma served_headers:
  assumes "sent x = None" "(k, v) \<in> pinned F" "live_header x k = v" "sent (snd (net_serve h r x)) = Some (c, hs)"
  shows "hs k = v"
proof -
  obtain out r' x' where h: "h r NetWriter x = (out, r', x')" by (metis prod_cases3)
  have e: "evolves F NetWriter x x'" using evolution(1) [OF h] by simp
  show ?thesis
    using assms h e
    by (cases "sent x'") (auto simp: net_serve_def evolves_def wire_simps split: outcome.splits if_splits)
qed

lemma serving_answers:
  assumes "fst (net_serve h r x) = Completed"
  shows "sent (snd (net_serve h r x)) \<noteq> None"
  using assms by (auto simp: net_serve_def wire_simps split: prod.splits outcome.splits if_splits)

end

interpretation any_handler: handler_contract "foreign f" any_frame for f
  by unfold_locales (auto intro: keeps_intros)

end
