(* ===== verification/Request_Id.thy ===== *)
theory Request_Id
  imports Proxy Handler_Contract
begin

text \<open>
  \<open>internal/server/requestid.go\<close>: the correlation identifier of a request, adopted from a
  trusted peer when it is well formed and generated otherwise, echoed in the response and
  put in the request context.
\<close>

definition request_id_header :: string where
  "request_id_header = ''X-Request-Id''"

definition request_id_bytes :: nat where
  "request_id_bytes = 16"

definition max_request_id_length :: nat where
  "max_request_id_length = 64"

definition request_id_from_context :: "request_context \<Rightarrow> string" where
  "request_id_from_context c = (case ctx_request_id c of None \<Rightarrow> [] | Some rid \<Rightarrow> rid)"

definition is_request_id_byte :: "char \<Rightarrow> bool" where
  "is_request_id_byte c \<longleftrightarrow>
     97 \<le> byte c \<and> byte c \<le> 122 \<or>
     65 \<le> byte c \<and> byte c \<le> 90 \<or>
     48 \<le> byte c \<and> byte c \<le> 57 \<or>
     c = CHR ''.'' \<or> c = CHR ''_'' \<or> c = CHR ''-''"

fun all_request_id_bytes :: "string \<Rightarrow> bool" where
  "all_request_id_bytes [] = True"
| "all_request_id_bytes (c # cs) = (if \<not> is_request_id_byte c then False else all_request_id_bytes cs)"

definition valid_request_id :: "string \<Rightarrow> bool" where
  "valid_request_id s =
     (if s = [] \<or> max_request_id_length < length s then False else all_request_id_bytes s)"

text \<open>\<open>crypto/rand.Read\<close> takes the next bytes of the random source.\<close>

definition rand_read :: "nat \<Rightarrow> exchange \<Rightarrow> string \<times> exchange" where
  "rand_read n x =
     (map (\<lambda>i. entropy x (entropy_pos x + i)) [0..<n], x\<lparr>entropy_pos := entropy_pos x + n\<rparr>)"

definition hex_encode :: "string \<Rightarrow> string" where
  "hex_encode bs = concat (map (\<lambda>b. [hex_digit (byte b div 16), hex_digit (byte b mod 16)]) bs)"

definition new_request_id :: "exchange \<Rightarrow> string \<times> exchange" where
  "new_request_id x = (case rand_read request_id_bytes x of (buf, x') \<Rightarrow> (hex_encode buf, x'))"

definition request_id :: "trusted_proxies \<Rightarrow> request \<Rightarrow> exchange \<Rightarrow> string \<times> exchange" where
  "request_id proxies r x =
     (let supplied = header_get (req_header r) request_id_header in
      if supplied \<noteq> [] \<and> valid_request_id supplied \<and> trusts_peer proxies r
      then (supplied, x)
      else new_request_id x)"

text \<open>
  \<open>r.WithContext\<close> makes a copy of the request: what \<open>next\<close> stores in it, a matched pattern or a
  replaced body, does not reach the request the caller holds.
\<close>

definition with_request_id :: "trusted_proxies \<Rightarrow> handler \<Rightarrow> handler" where
  "with_request_id proxies next r w x =
     (case request_id proxies r x of
        (rid, x1) \<Rightarrow>
          (case next (r\<lparr>req_ctx := (req_ctx r)\<lparr>ctx_request_id := Some rid\<rparr>\<rparr>) w
                  (set_header request_id_header rid x1) of
             (out, _, x') \<Rightarrow> (out, r, x')))"

section \<open>Facts\<close>

lemma canonical_request_id_header [simp]: "canonical_key request_id_header = ''X-Request-Id''"
  by (simp add: request_id_header_def canonical_key_def token_byte_def is_digit_def is_letter_def
      is_upper_def is_lower_def Let_def text_simps)

lemma all_request_id_bytes_iff: "all_request_id_bytes s \<longleftrightarrow> list_all is_request_id_byte s"
  by (induction s) auto

lemma hex_digit_ok: "d < 16 \<Longrightarrow> is_request_id_byte (hex_digit d)"
  by (auto simp: hex_digit_def is_request_id_byte_def of_char_of)

lemma all_hex_encode: "all_request_id_bytes (hex_encode bs)"
proof (induction bs)
  case (Cons b bs)
  have "byte b div 16 < 16" using byte_bound [of b] by linarith
  with Cons show ?case by (simp add: all_request_id_bytes_iff hex_encode_def hex_digit_ok)
qed (simp add: hex_encode_def)

lemma length_hex_encode: "length (hex_encode bs) = 2 * length bs"
  by (induction bs) (simp_all add: hex_encode_def)

lemma new_request_id_valid:
  "length (fst (new_request_id x)) = 32" "valid_request_id (fst (new_request_id x))"
proof -
  have len: "length (fst (new_request_id x)) = 32"
    by (simp add: new_request_id_def rand_read_def length_hex_encode request_id_bytes_def)
  moreover have "all_request_id_bytes (fst (new_request_id x))"
    by (simp add: new_request_id_def rand_read_def all_hex_encode)
  ultimately show "length (fst (new_request_id x)) = 32" "valid_request_id (fst (new_request_id x))"
    by (auto simp: valid_request_id_def max_request_id_length_def)
qed

lemma request_id_valid: "valid_request_id (fst (request_id proxies r x))"
  by (simp add: request_id_def Let_def new_request_id_valid)

lemma request_id_state:
  "snd (request_id proxies r x) = x \<or>
   snd (request_id proxies r x) = x\<lparr>entropy_pos := entropy_pos x + request_id_bytes\<rparr>"
  by (simp add: request_id_def Let_def new_request_id_def rand_read_def)

lemma request_id_simps [wire_simps]:
  "sent (snd (request_id proxies r x)) = sent x"
  "live_header (snd (request_id proxies r x)) = live_header x"
  "recorders (snd (request_id proxies r x)) = recorders x"
  "log (snd (request_id proxies r x)) = log x"
  "clock (snd (request_id proxies r x)) = clock x"
  using request_id_state [of proxies r x] by auto

lemma request_id_evolves: "evolves F w x (snd (request_id proxies r x))"
  using request_id_state [of proxies r x] by (intro evolves_quiet) auto

lemma with_request_id_keeps [keeps_intros]:
  assumes "keeps F next" "free F ''X-Request-Id''"
  shows "keeps F (with_request_id proxies next)"
proof (rule keepsI)
  fix r w and x :: exchange
  assume rec: "writer_recorders w \<subseteq> {..<length (recorders x)}"
  obtain rid x1 where rid: "request_id proxies r x = (rid, x1)" by fastforce
  let ?r = "r\<lparr>req_ctx := (req_ctx r)\<lparr>ctx_request_id := Some rid\<rparr>\<rparr>"
  let ?x2 = "set_header request_id_header rid x1"
  obtain out r' y where y: "next ?r w ?x2 = (out, r', y)" by (metis prod_cases3)
  have "evolves F w x x1" using request_id_evolves [of F w x proxies r] rid by simp
  moreover have "evolves F w x1 ?x2" using assms(2) by (intro evolves_set_header) simp
  ultimately have "evolves F w x ?x2" by (rule evolves_trans)
  moreover from this rec have "evolves F w ?x2 y"
    using keepsD(1) [OF assms(1) y] evolves_length by blast
  ultimately have "evolves F w x y" by (rule evolves_trans)
  then show "evolves F w x (snd (snd (with_request_id proxies next r w x))) \<and>
      same_request r (fst (snd (with_request_id proxies next r w x)))"
    by (simp add: with_request_id_def rid y)
qed

end
