(* ===== verification/Response_Json.thy ===== *)
theory Response_Json
  imports Request_Id
begin

text \<open>
  \<open>internal/server/errors.go\<close> and the writing half of \<open>internal/server/json.go\<close>: error documents,
  \<open>WriteJSON\<close>, \<open>WriteError\<close> and the search for client errors in an error tree.

  A logger is the list of fields \<open>With\<close> has attached to it. A value to encode is what encoding
  it gives: JSON, or the encoder's error.
\<close>

type_synonym logger = fields

definition log_to :: "logger \<Rightarrow> level \<Rightarrow> string \<Rightarrow> fields \<Rightarrow> exchange \<Rightarrow> exchange" where
  "log_to lg l msg fs x = log_at l msg (lg @ fs) x"

section \<open>Error documents\<close>

definition error_code_internal :: string where
  "error_code_internal = ''internal''"

definition error_code_payload_too_large :: string where
  "error_code_payload_too_large = ''payload_too_large''"

definition error_code_overloaded :: string where
  "error_code_overloaded = ''overloaded''"

definition error_code_invalid_body :: string where
  "error_code_invalid_body = ''invalid_body''"

definition error_code_unsupported_media_type :: string where
  "error_code_unsupported_media_type = ''unsupported_media_type''"

definition json_media_type :: string where
  "json_media_type = ''application/json''"

definition error_titles :: "(string \<times> string) list" where
  "error_titles =
     [(error_code_internal, ''Internal server error''),
      (error_code_payload_too_large, ''Request body too large''),
      (error_code_overloaded, ''Server overloaded''),
      (error_code_invalid_body, ''Invalid request body''),
      (error_code_unsupported_media_type, ''Unsupported media type'')]"

record error_object =
  obj_status :: string
  obj_code :: string
  obj_title :: string
  obj_detail :: string
  obj_source :: "string option"

definition error_title :: "string \<Rightarrow> string" where
  "error_title code = (case map_of error_titles code of None \<Rightarrow> code | Some title \<Rightarrow> title)"

definition new_error_object ::
    "fold_table \<Rightarrow> int \<Rightarrow> string \<Rightarrow> string \<Rightarrow> string \<Rightarrow> error_object" where
  "new_error_object tab status code detail pointer =
     (let title = error_title code in
      \<lparr>obj_status = format_int status, obj_code = code, obj_title = title,
       obj_detail = (if \<not> equal_fold tab detail title then detail else []),
       obj_source = (if pointer \<noteq> [] then Some pointer else None)\<rparr>)"

text \<open>The JSON of an object and of a document: the struct tags, \<open>omitempty\<close> included.\<close>

definition error_object_json :: "error_object \<Rightarrow> json" where
  "error_object_json o' =
     JObject
       ((if obj_status o' = [] then [] else [(''status'', JString (obj_status o'))]) @
        [(''code'', JString (obj_code o')), (''title'', JString (obj_title o'))] @
        (if obj_detail o' = [] then [] else [(''detail'', JString (obj_detail o'))]) @
        (case obj_source o' of
           None \<Rightarrow> []
         | Some p \<Rightarrow> [(''source'', JObject [(''pointer'', JString p)])]))"

definition error_document_json :: "error_object list \<Rightarrow> json" where
  "error_document_json objects = JObject [(''errors'', JArray (map error_object_json objects))]"

definition write_error_document ::
    "logger \<Rightarrow> writer \<Rightarrow> int \<Rightarrow> error_object list \<Rightarrow> exchange \<Rightarrow> outcome \<times> exchange" where
  "write_error_document lg w status objects x =
     (case rw_write_header w status (set_header ''Content-Type'' json_media_type x) of
        (Panicked v, x1) \<Rightarrow> (Panicked v, x1)
      | (Returned, x1) \<Rightarrow>
          (case rw_write w (json_encode (error_document_json objects)) x1 of
             ((_, None), x2) \<Rightarrow> (Returned, x2)
           | ((_, Some err), x2) \<Rightarrow>
               (Returned,
                log_to lg ErrorLevel ''writing error response''
                  [(''error'', FError err), (''status'', FInt status),
                   (''errors'', FInt (int (length objects)))] x2)))"

definition write_json_error ::
    "logger \<Rightarrow> writer \<Rightarrow> int \<Rightarrow> string \<Rightarrow> string \<Rightarrow> exchange \<Rightarrow> outcome \<times> exchange" where
  "write_json_error lg w status code detail x =
     write_error_document lg w status [new_error_object (fold_tab x) status code detail []] x"

section \<open>Client errors\<close>

record client_error =
  ce_status :: int
  ce_code :: string
  ce_message :: string
  ce_pointer :: string
  ce_err :: "go_error option"

definition client_error_value :: "client_error \<Rightarrow> go_error" where
  "client_error_value c = ErrClient (ce_status c) (ce_code c) (ce_message c) (ce_pointer c) (ce_err c)"

definition client_error_text :: "client_error \<Rightarrow> string" where
  "client_error_text c =
     (case ce_err c of
        Some e \<Rightarrow> ce_message c @ '': '' @ error_text e
      | None \<Rightarrow> ce_message c)"

definition client_error_unwrap :: "client_error \<Rightarrow> go_error option" where
  "client_error_unwrap c = ce_err c"

definition client_error_object :: "fold_table \<Rightarrow> client_error \<Rightarrow> error_object" where
  "client_error_object tab c = new_error_object tab (ce_status c) (ce_code c) (ce_message c) (ce_pointer c)"

text \<open>
  \<open>documentStatus\<close>. The first loop leaves the shared status, or 0; a status that is itself 0
  therefore takes the second loop.
\<close>

fun shared_status :: "int \<Rightarrow> client_error list \<Rightarrow> int" where
  "shared_status s [] = s"
| "shared_status s (c # cs) = (if ce_status c \<noteq> s then 0 else shared_status s cs)"

fun common_status :: "client_error list \<Rightarrow> int" where
  "common_status [] = 400"
| "common_status (c # cs) = (if ce_status c < 400 \<or> 500 \<le> ce_status c then 500 else common_status cs)"

definition document_status :: "client_error list \<Rightarrow> int" where
  "document_status objects =
     (case objects of
        [] \<Rightarrow> 500
      | c # _ \<Rightarrow>
          (let status = shared_status (ce_status c) objects
           in if status \<noteq> 0 then status else common_status objects))"

fun append_client_errors :: "client_error list \<Rightarrow> go_error \<Rightarrow> client_error list"
  and append_client_errors_all :: "client_error list \<Rightarrow> go_error list \<Rightarrow> client_error list" where
  "append_client_errors found (ErrClient status code msg pointer cause) =
     found @ [\<lparr>ce_status = status, ce_code = code, ce_message = msg, ce_pointer = pointer,
               ce_err = cause\<rparr>]"
| "append_client_errors found (ErrWrap _ e) = append_client_errors found e"
| "append_client_errors found (ErrJoin es) = append_client_errors_all found es"
| "append_client_errors found (ErrText _) = found"
| "append_client_errors found (ErrSentinel _) = found"
| "append_client_errors found (ErrMaxBytes _) = found"
| "append_client_errors found (ErrJsonSyntax _ _) = found"
| "append_client_errors found (ErrUnmarshalType _ _ _) = found"
| "append_client_errors_all found [] = found"
| "append_client_errors_all found (e # es) = append_client_errors_all (append_client_errors found e) es"

section \<open>Responses\<close>

definition write_json :: "logger \<Rightarrow> writer \<Rightarrow> int \<Rightarrow> go_error + json \<Rightarrow> exchange \<Rightarrow> outcome \<times> exchange"
where
  "write_json lg w status v x =
     (case v of
        Inl err \<Rightarrow>
          write_json_error lg w 500 error_code_internal []
            (log_to lg ErrorLevel ''encoding json response''
               [(''error'', FError err), (''status'', FInt status)] x)
      | Inr j \<Rightarrow>
          (case rw_write_header w status (set_header ''Content-Type'' json_media_type x) of
             (Panicked p, x1) \<Rightarrow> (Panicked p, x1)
           | (Returned, x1) \<Rightarrow>
               (case rw_write w (json_marshal j) x1 of
                  ((_, None), x2) \<Rightarrow> (Returned, x2)
                | ((_, Some err), x2) \<Rightarrow>
                    (Returned,
                     log_to lg ErrorLevel ''writing json response''
                       [(''error'', FError err), (''status'', FInt status)] x2))))"

definition request_logger :: "logger \<Rightarrow> request \<Rightarrow> logger" where
  "request_logger lg r =
     lg @ [(''method'', FString (req_method r)), (''path'', FString (url_path r)),
           (''request_id'', FString (request_id_from_context (req_ctx r)))]"

definition write_error ::
    "logger \<Rightarrow> writer \<Rightarrow> request \<Rightarrow> go_error option \<Rightarrow> exchange \<Rightarrow> outcome \<times> exchange" where
  "write_error lg w r err x =
     (let lg' = request_logger lg r;
          err_field = (case err of None \<Rightarrow> [] | Some e \<Rightarrow> [(''error'', FError e)]);
          client_errs = (case err of None \<Rightarrow> [] | Some e \<Rightarrow> append_client_errors [] e) in
      if client_errs = [] then
        write_json_error lg' w 500 error_code_internal []
          (log_to lg' ErrorLevel ''handling request'' err_field x)
      else
        let status = document_status client_errs in
        write_error_document lg' w status (map (client_error_object (fold_tab x)) client_errs)
          (log_to lg' DebugLevel ''request rejected''
             ([(''status'', FInt status), (''codes'', FStrings (map ce_code client_errs))] @ err_field) x))"

section \<open>Facts\<close>

lemma client_error_text_value: "error_text (client_error_value c) = client_error_text c"
  by (simp add: client_error_value_def client_error_text_def split: option.splits)

lemma canonical_content_type [simp]: "canonical_key ''Content-Type'' = ''Content-Type''"
  by (simp add: canonical_key_def token_byte_def is_digit_def is_letter_def is_upper_def
      is_lower_def Let_def text_simps)

lemma log_to_simps [wire_simps]:
  "sent (log_to lg l m fs x) = sent x"
  "live_header (log_to lg l m fs x) = live_header x"
  "recorders (log_to lg l m fs x) = recorders x"
  "log (log_to lg l m fs x) = log x @ [\<lparr>entry_level = l, entry_message = m, entry_fields = lg @ fs\<rparr>]"
  "sent_body (log_to lg l m fs x) = sent_body x"
  "slots_used (log_to lg l m fs x) = slots_used x"
  "clock (log_to lg l m fs x) = clock x"
  "fold_tab (log_to lg l m fs x) = fold_tab x"
  by (simp_all add: log_to_def wire_simps)

lemma evolves_log_to: "m \<notin> silent F \<Longrightarrow> evolves F w x (log_to lg l m fs x)"
  by (simp add: log_to_def evolves_log)

lemma evolves_after_log_to:
  "evolves F w x y \<Longrightarrow> m \<notin> silent F \<Longrightarrow> evolves F w x (log_to lg l m fs y)"
  by (blast intro: evolves_trans evolves_log_to)

text \<open>The client errors of a tree: appending is collecting, in the tree's order.\<close>

fun client_errors_of :: "go_error \<Rightarrow> client_error list" where
  "client_errors_of (ErrClient status code msg pointer cause) =
     [\<lparr>ce_status = status, ce_code = code, ce_message = msg, ce_pointer = pointer, ce_err = cause\<rparr>]"
| "client_errors_of (ErrWrap _ e) = client_errors_of e"
| "client_errors_of (ErrJoin es) = concat (map client_errors_of es)"
| "client_errors_of _ = []"

lemma append_client_errors_collects:
  "append_client_errors found e = found @ client_errors_of e"
  "append_client_errors_all found es = found @ concat (map client_errors_of es)"
  by (induction found e and found es rule: append_client_errors_append_client_errors_all.induct) auto

lemma shared_status_iff:
  "shared_status s cs = (if \<forall>c \<in> set cs. ce_status c = s then s else 0)"
  by (induction cs) auto

lemma common_status_iff:
  "common_status cs = (if \<forall>c \<in> set cs. 400 \<le> ce_status c \<and> ce_status c < 500 then 400 else 500)"
  by (induction cs) auto

text \<open>Writing an error document within a frame, and on a response nobody has begun.\<close>

lemma evolves_write_error_document:
  assumes "writer_recorders w \<subseteq> {..<length (recorders x)}"
    and "free F ''Content-Type''" "''writing error response'' \<notin> silent F"
    and "final_only F \<Longrightarrow> status \<in> final_codes"
  shows "evolves F w x (snd (write_error_document lg w status objects x))"
proof -
  let ?x0 = "set_header ''Content-Type'' json_media_type x"
  have e0: "evolves F w x ?x0" using assms(2) by (intro evolves_set_header) simp
  obtain out x1 where x1: "rw_write_header w status ?x0 = (out, x1)" by fastforce
  have b0: "writer_recorders w \<subseteq> {..<length (recorders ?x0)}" using assms(1) by (simp add: wire_simps)
  have e1: "evolves F w ?x0 x1"
    using evolves_write_header [OF b0, of F status] assms(4) x1 by simp
  obtain n err x2 where x2: "rw_write w (json_encode (error_document_json objects)) x1 = ((n, err), x2)"
    by (metis prod.collapse)
  have e2: "evolves F w x1 x2"
    using evolves_write [OF evolves_length [OF e1 b0], of F] x2 by (metis snd_conv)
  have "evolves F w x x1" using e0 e1 by (rule evolves_trans)
  moreover have "evolves F w x x2" using calculation e2 by (rule evolves_trans)
  ultimately show ?thesis
    using assms(3) x1 x2
    by (auto simp: write_error_document_def split: outcome.splits option.splits
        intro: evolves_trans evolves_log_to)
qed

lemma evolves_write_json_error:
  "\<lbrakk>writer_recorders w \<subseteq> {..<length (recorders x)}; free F ''Content-Type'';
    ''writing error response'' \<notin> silent F; final_only F \<Longrightarrow> status \<in> final_codes\<rbrakk> \<Longrightarrow>
   evolves F w x (snd (write_json_error lg w status code detail x))"
  by (simp add: write_json_error_def evolves_write_error_document)

lemma evolves_write_json:
  assumes "writer_recorders w \<subseteq> {..<length (recorders x)}"
    and "free F ''Content-Type''" "final_only F \<Longrightarrow> status \<in> final_codes"
    and "''writing error response'' \<notin> silent F" "''writing json response'' \<notin> silent F"
    and "''encoding json response'' \<notin> silent F"
  shows "evolves F w x (snd (write_json lg w status v x))"
proof (cases v)
  case (Inl err)
  let ?y = "log_to lg ErrorLevel ''encoding json response'' [(''error'', FError err), (''status'', FInt status)] x"
  have "evolves F w x ?y" using assms(6) by (rule evolves_log_to)
  moreover have "evolves F w ?y (snd (write_json_error lg w 500 error_code_internal [] ?y))"
    by (rule evolves_write_json_error) (use assms in \<open>auto simp: wire_simps final_codes_def\<close>)
  ultimately show ?thesis using Inl by (auto simp: write_json_def intro: evolves_trans)
next
  case (Inr j)
  let ?x0 = "set_header ''Content-Type'' json_media_type x"
  have e0: "evolves F w x ?x0" using assms(2) by (intro evolves_set_header) simp
  obtain out x1 where x1: "rw_write_header w status ?x0 = (out, x1)" by fastforce
  have b0: "writer_recorders w \<subseteq> {..<length (recorders ?x0)}" using assms(1) by (simp add: wire_simps)
  have e1: "evolves F w ?x0 x1"
    using evolves_write_header [OF b0, of F status] assms(3) x1 by simp
  obtain n err x2 where x2: "rw_write w (json_marshal j) x1 = ((n, err), x2)"
    by (metis prod.collapse)
  have e2: "evolves F w x1 x2"
    using evolves_write [OF evolves_length [OF e1 b0], of F] x2 by (metis snd_conv)
  have "evolves F w x x1" using e0 e1 by (rule evolves_trans)
  moreover have "evolves F w x x2" using calculation e2 by (rule evolves_trans)
  ultimately show ?thesis
    using assms(5) x1 x2 Inr
    by (auto simp: write_json_def split: outcome.splits option.splits
        intro: evolves_trans evolves_log_to)
qed

text \<open>What reaches the wire when the response had not begun and the connection takes the bytes.\<close>

lemma net_write_body: "write_script x = [] \<Longrightarrow> sent_body (snd (net_write b x)) = sent_body x @ b"
  by (simp add: net_write_def Let_def commit_implicitly_def)

lemma rw_write_body:
  "write_script x = [] \<Longrightarrow> sent_body (snd (rw_write w b x)) = sent_body x @ b \<and>
   snd (fst (rw_write w b x)) = None"
proof (induction w b x rule: rw_write.induct)
  case (1 b x)
  then show ?case by (simp add: net_write_body) (simp add: net_write_def Let_def commit_implicitly_def)
next
  case (3 i w b x)
  have "write_script (set_recorder i (recorder_status i x, True) x) = []"
    using 3(2) by (simp add: set_recorder_def)
  with 3(1) show ?case by (auto simp: wire_simps split: prod.splits)
qed simp

lemma rw_write_header_script: "write_script (snd (rw_write_header w c x)) = write_script x"
proof (induction w c x rule: rw_write_header.induct)
  case (3 i w c x)
  then show ?case by (auto simp: set_recorder_def)
qed (simp_all add: net_write_header_def)

lemma write_error_document_wire:
  assumes "sent x = None" "status \<in> final_codes"
  shows "fst (write_error_document lg w status objects x) = Returned"
    and "sent (snd (write_error_document lg w status objects x)) =
      Some (status, (live_header x)(''Content-Type'' := [json_media_type]))"
    and "write_script x = [] \<Longrightarrow> sent_body (snd (write_error_document lg w status objects x)) =
      sent_body x @ json_encode (error_document_json objects)"
proof -
  let ?x0 = "set_header ''Content-Type'' json_media_type x"
  obtain out x1 where x1: "rw_write_header w status ?x0 = (out, x1)" by fastforce
  have "out = Returned" using rw_write_header_returns [OF assms(2), of w ?x0] x1 by simp
  moreover have s1: "sent x1 = Some (status, (live_header x)(''Content-Type'' := [json_media_type]))"
    using assms x1 rw_write_header_simps(1) [of w status ?x0] by (simp add: wire_simps)
  moreover have b1: "sent_body x1 = sent_body x"
    using x1 rw_write_header_simps(5) [of w status ?x0] by (simp add: wire_simps)
  moreover have "write_script x1 = write_script x"
    using x1 rw_write_header_script [of w status ?x0] by (simp add: set_header_def)
  moreover obtain n err x2 where x2: "rw_write w (json_encode (error_document_json objects)) x1 = ((n, err), x2)"
    by (metis prod.collapse)
  moreover have "sent x2 = sent x1"
    using s1 x2 rw_write_simps(1) [of w "json_encode (error_document_json objects)" x1] by simp
  ultimately show
    "fst (write_error_document lg w status objects x) = Returned"
    "sent (snd (write_error_document lg w status objects x)) =
      Some (status, (live_header x)(''Content-Type'' := [json_media_type]))"
    "write_script x = [] \<Longrightarrow> sent_body (snd (write_error_document lg w status objects x)) =
      sent_body x @ json_encode (error_document_json objects)"
    using x1 rw_write_body [of x1 w "json_encode (error_document_json objects)"]
    by (auto simp: write_error_document_def wire_simps split: option.splits)
qed

lemma write_json_wire:
  assumes "sent x = None" "status \<in> final_codes"
  shows "fst (write_json lg w status (Inr j) x) = Returned"
    and "sent (snd (write_json lg w status (Inr j) x)) =
      Some (status, (live_header x)(''Content-Type'' := [json_media_type]))"
    and "write_script x = [] \<Longrightarrow> sent_body (snd (write_json lg w status (Inr j) x)) =
      sent_body x @ json_marshal j"
    and "write_script x = [] \<Longrightarrow> log (snd (write_json lg w status (Inr j) x)) = log x"
proof -
  let ?x0 = "set_header ''Content-Type'' json_media_type x"
  obtain out x1 where x1: "rw_write_header w status ?x0 = (out, x1)" by fastforce
  have "out = Returned" using rw_write_header_returns [OF assms(2), of w ?x0] x1 by simp
  moreover have s1: "sent x1 = Some (status, (live_header x)(''Content-Type'' := [json_media_type]))"
    "sent_body x1 = sent_body x" "log x1 = log x" "write_script x1 = write_script x"
    using assms x1 rw_write_header_simps [of w status ?x0] rw_write_header_script [of w status ?x0]
    by (simp_all add: wire_simps set_header_def header_set_def)
  moreover obtain n err x2 where x2: "rw_write w (json_marshal j) x1 = ((n, err), x2)"
    by (metis prod.collapse)
  moreover have "sent x2 = sent x1" "log x2 = log x1"
    using s1 x2 rw_write_simps [of w "json_marshal j" x1] by simp_all
  ultimately show
    "fst (write_json lg w status (Inr j) x) = Returned"
    "sent (snd (write_json lg w status (Inr j) x)) =
      Some (status, (live_header x)(''Content-Type'' := [json_media_type]))"
    "write_script x = [] \<Longrightarrow> sent_body (snd (write_json lg w status (Inr j) x)) =
      sent_body x @ json_marshal j"
    "write_script x = [] \<Longrightarrow> log (snd (write_json lg w status (Inr j) x)) = log x"
    using x1 rw_write_body [of x1 w "json_marshal j"]
    by (auto simp: write_json_def wire_simps split: option.splits)
qed

lemma write_error_document_log:
  "\<exists>es. log (snd (write_error_document lg w status objects x)) = log x @ es"
proof -
  let ?x0 = "set_header ''Content-Type'' json_media_type x"
  obtain out x1 where x1: "rw_write_header w status ?x0 = (out, x1)" by fastforce
  obtain n err x2 where x2: "rw_write w (json_encode (error_document_json objects)) x1 = ((n, err), x2)"
    by (metis prod.collapse)
  have "log x1 = log x" using rw_write_header_simps(4) [of w status ?x0] x1 by (simp add: wire_simps)
  moreover have "log x2 = log x1"
    using rw_write_simps(4) [of w "json_encode (error_document_json objects)" x1] x2 by simp
  ultimately show ?thesis
    using x1 x2 by (simp add: write_error_document_def wire_simps split: outcome.splits option.splits)
qed

lemma write_error_document_slots:
  "slots_used (snd (write_error_document lg w status objects x)) = slots_used x"
proof -
  let ?x0 = "set_header ''Content-Type'' json_media_type x"
  obtain out x1 where x1: "rw_write_header w status ?x0 = (out, x1)" by fastforce
  obtain n err x2 where x2: "rw_write w (json_encode (error_document_json objects)) x1 = ((n, err), x2)"
    by (metis prod.collapse)
  have "slots_used x1 = slots_used x"
    using rw_write_header_simps(6) [of w status ?x0] x1 by (simp add: wire_simps)
  moreover have "slots_used x2 = slots_used x1"
    using rw_write_simps(5) [of w "json_encode (error_document_json objects)" x1] x2 by simp
  ultimately show ?thesis
    using x1 x2 by (simp add: write_error_document_def wire_simps split: outcome.splits option.splits)
qed

text \<open>The log apart, a response depends on the exchange without its log.\<close>

definition unlogged :: "exchange \<Rightarrow> exchange" where
  "unlogged x = x\<lparr>log := []\<rparr>"

lemma unlogged_log [simp]:
  "unlogged (log_at l m fs x) = unlogged x" "unlogged (log_to lg l m fs x) = unlogged x"
  "unlogged (unlogged x) = unlogged x"
  by (simp_all add: unlogged_def log_at_def log_to_def)

lemma unlogged_rw_write_header:
  "rw_write_header w c (unlogged x) =
     (case rw_write_header w c x of (out, y) \<Rightarrow> (out, unlogged y))"
proof (induction w c x rule: rw_write_header.induct)
  case (1 c x)
  show ?case by (simp add: net_write_header_def unlogged_def)
next
  case (3 i w c x)
  have "(if \<not> recorder_written i (unlogged x) then set_recorder i (c, True) (unlogged x) else unlogged x) =
      unlogged (if \<not> recorder_written i x then set_recorder i (c, True) x else x)"
    by (simp add: unlogged_def recorder_written_def set_recorder_def)
  with 3 show ?case by simp
qed simp

lemma unlogged_rw_write:
  "rw_write w b (unlogged x) = (case rw_write w b x of (res, y) \<Rightarrow> (res, unlogged y))"
proof (induction w b x rule: rw_write.induct)
  case (1 b x)
  show ?case
    by (auto simp: net_write_def commit_implicitly_def unlogged_def Let_def split: list.splits option.splits)
next
  case (3 i w b x)
  have "set_recorder i (recorder_status i (unlogged x), True) (unlogged x) =
      unlogged (set_recorder i (recorder_status i x, True) x)"
    by (simp add: unlogged_def recorder_status_def set_recorder_def)
  with 3 show ?case by (auto split: prod.splits)
qed simp

lemma unlogged_set_header: "set_header k v (unlogged x) = unlogged (set_header k v x)"
  by (simp add: set_header_def unlogged_def)

lemma unlogged_write_error_document:
  "(case write_error_document lg w status objects x of (out, y) \<Rightarrow> (out, unlogged y)) =
   (case write_error_document lg' w status objects (unlogged x) of (out, y) \<Rightarrow> (out, unlogged y))"
  by (auto simp: write_error_document_def unlogged_set_header unlogged_rw_write_header
      unlogged_rw_write split: prod.splits outcome.splits option.splits)

end
