(* ===== verification/Middleware.thy ===== *)
theory Middleware
  imports Response_Json
begin

text \<open>
  The middleware of \<open>internal/server\<close>: \<open>headers.go\<close>, \<open>limits.go\<close>, \<open>recovery.go\<close> and the request
  logging of \<open>handler.go\<close>, each a function from the handler it wraps to a handler. For each
  there is the frame it keeps when the wrapped handler keeps it, which is how the chain's
  theorems compose.

  The in-flight limiter appears here as one request sees it, with the slots the others hold
  fixed while it runs; its interleaving is the theory \<open>In_Flight\<close>.
\<close>

section \<open>headers.go\<close>

definition frame_ancestors_none :: string where
  "frame_ancestors_none = ''frame-ancestors '' @ [CHR 0x27] @ ''none'' @ [CHR 0x27]"

definition with_security_headers :: "handler \<Rightarrow> handler" where
  "with_security_headers next r w x =
     next r w
       (set_header ''Content-Security-Policy'' frame_ancestors_none
          (set_header ''X-Frame-Options'' ''DENY''
             (set_header ''X-Content-Type-Options'' ''nosniff'' x)))"

section \<open>recovery.go\<close>

definition is_abort :: "panic_value \<Rightarrow> bool" where
  "is_abort v = (case v of PanicError e \<Rightarrow> errors_is e AbortHandler | PanicOther _ \<Rightarrow> False)"

definition begun :: "writer \<Rightarrow> exchange \<Rightarrow> bool" where
  "begun w x = (case w of Recorder i _ \<Rightarrow> recorder_written i x | _ \<Rightarrow> False)"

definition with_panic_recovery :: "logger \<Rightarrow> handler \<Rightarrow> handler" where
  "with_panic_recovery lg next r w x =
     (case next r w x of
        (Returned, r', x1) \<Rightarrow> (Returned, r', x1)
      | (Panicked v, r', x1) \<Rightarrow>
          if is_abort v then (Panicked v, r', x1)
          else
            let x2 = log_to lg ErrorLevel ''recovered panic serving request''
                  [(''panic'', FAny v), (''method'', FString (req_method r')),
                   (''path'', FString (url_path r')),
                   (''request_id'', FString (request_id_from_context (req_ctx r))),
                   (''stack'', FStack)] x1;
                x3 = span_do (SpanRecordError (ErrText (''panic serving request: '' @ panic_text v))) x2;
                x4 = span_do (SpanSetStatusError ''panic serving request'') x3
            in if begun w x4 then (Returned, r', x4)
               else case write_json_error lg w 500 error_code_internal [] x4 of
                   (out, x5) \<Rightarrow> (out, r', x5))"

section \<open>limits.go\<close>

definition retry_after_overloaded :: string where
  "retry_after_overloaded = ''1''"

function unwrap_writer :: "writer \<Rightarrow> writer" where
  "unwrap_writer w = (case rw_unwrap w of None \<Rightarrow> w | Some w' \<Rightarrow> unwrap_writer w')"
  by pat_completeness auto
termination
proof (relation "measure size")
  show "rw_unwrap w = Some w' \<Longrightarrow> (w', w) \<in> measure size" for w w'
    by (cases w) auto
qed simp

declare unwrap_writer.simps [simp del]

definition with_request_body_limit :: "int \<Rightarrow> logger \<Rightarrow> handler \<Rightarrow> handler" where
  "with_request_body_limit limit lg next =
     (if limit \<le> 0 then next
      else (\<lambda>r w x.
        if limit < content_length r then
          (case write_json_error lg w 413 error_code_payload_too_large [] x of (out, x') \<Rightarrow> (out, r, x'))
        else next (r\<lparr>req_body := MaxBytesReader (req_body r) limit limit None (unwrap_writer w)\<rparr>) w x))"

definition with_in_flight_limit :: "int \<Rightarrow> logger \<Rightarrow> handler \<Rightarrow> handler" where
  "with_in_flight_limit limit lg next =
     (if limit \<le> 0 then next
      else (\<lambda>r w x.
        if int (slots_used x) < limit then
          (case next r w (x\<lparr>slots_used := Suc (slots_used x)\<rparr>) of
             (out, r', x') \<Rightarrow> (out, r', x'\<lparr>slots_used := slots_used x' - 1\<rparr>))
        else
          (case write_json_error lg w 503 error_code_overloaded []
                  (set_header ''Retry-After'' retry_after_overloaded x) of
             (out, x') \<Rightarrow> (out, r, x'))))"

text \<open>
  \<open>context.WithTimeout\<close> keeps an earlier deadline. As in \<open>with_request_id\<close>, \<open>next\<close> gets a copy of
  the request.
\<close>

definition with_timeout :: "int \<Rightarrow> int \<Rightarrow> request_context \<Rightarrow> request_context" where
  "with_timeout now timeout c =
     c\<lparr>ctx_deadline := Some (case ctx_deadline c of
          None \<Rightarrow> now + timeout
        | Some t \<Rightarrow> min t (now + timeout))\<rparr>"

definition with_handler_timeout :: "int \<Rightarrow> handler \<Rightarrow> handler" where
  "with_handler_timeout timeout next =
     (if timeout \<le> 0 then next
      else (\<lambda>r w x.
        case next (r\<lparr>req_ctx := with_timeout (clock x) timeout (req_ctx r)\<rparr>) w x of
          (out, _, x') \<Rightarrow> (out, r, x')))"

section \<open>Request logging\<close>

definition level_for_status :: "int \<Rightarrow> level" where
  "level_for_status status =
     (if 500 \<le> status then ErrorLevel else if 400 \<le> status then WarnLevel else InfoLevel)"

definition span_route_name :: "string \<Rightarrow> string \<Rightarrow> string" where
  "span_route_name method pattern =
     (if has_prefix pattern (method @ '' '') then pattern else method @ '' '' @ pattern)"

definition served_fields ::
    "trusted_proxies \<Rightarrow> request \<Rightarrow> int \<Rightarrow> int \<Rightarrow> fields" where
  "served_fields proxies r status duration =
     [(''method'', FString (req_method r)), (''path'', FString (url_path r)),
      (''route'', FString (req_pattern r)), (''status'', FInt status),
      (''duration'', FDuration duration),
      (''request_id'', FString (request_id_from_context (req_ctx r))),
      (''client_ip'', FString (client_ip proxies r))] @
     (case ctx_span (req_ctx r) of
        None \<Rightarrow> []
      | Some (trace_id, span_id) \<Rightarrow>
          [(''trace_id'', FString trace_id), (''span_id'', FString span_id)])"

definition with_request_logging :: "trusted_proxies \<Rightarrow> logger \<Rightarrow> handler \<Rightarrow> handler" where
  "with_request_logging proxies lg next r w x =
     (let start = clock x in
      case alloc_recorder x of
        (i, x1) \<Rightarrow>
          (case next r (Recorder i w) x1 of
             (Panicked v, r', x2) \<Rightarrow> (Panicked v, r', x2)
           | (Returned, r', x2) \<Rightarrow>
               let duration = clock x2 - start;
                   x3 = (if req_pattern r' \<noteq> []
                         then span_do (SpanSetName (span_route_name (req_method r') (req_pattern r'))) x2
                         else x2);
                   status = recorder_status i x3
               in (Returned, r',
                   log_to lg (level_for_status status) ''request served''
                     (served_fields proxies r' status duration) x3)))"

section \<open>Header keys\<close>

lemma canonical_keys [simp]:
  "canonical_key ''X-Content-Type-Options'' = ''X-Content-Type-Options''"
  "canonical_key ''X-Frame-Options'' = ''X-Frame-Options''"
  "canonical_key ''Content-Security-Policy'' = ''Content-Security-Policy''"
  "canonical_key ''Retry-After'' = ''Retry-After''"
  by (simp_all add: canonical_key_def token_byte_def is_digit_def is_letter_def is_upper_def
      is_lower_def Let_def text_simps)

section \<open>What each middleware keeps\<close>

text \<open>Every header key and every message the middleware itself uses.\<close>

definition chain_keys :: "string set" where
  "chain_keys = {''X-Content-Type-Options'', ''X-Frame-Options'', ''Content-Security-Policy'',
     ''X-Request-Id'', ''Retry-After'', ''Content-Type'', ''Connection''}"

lemma with_security_headers_keeps [keeps_intros]:
  assumes "keeps F next"
    and "may_set F ''X-Content-Type-Options'' ''nosniff''"
    and "may_set F ''X-Frame-Options'' ''DENY''"
    and "may_set F ''Content-Security-Policy'' frame_ancestors_none"
  shows "keeps F (with_security_headers next)"
proof (rule keepsI)
  fix r w and x :: exchange
  assume rec: "writer_recorders w \<subseteq> {..<length (recorders x)}"
  let ?x = "set_header ''Content-Security-Policy'' frame_ancestors_none
          (set_header ''X-Frame-Options'' ''DENY''
             (set_header ''X-Content-Type-Options'' ''nosniff'' x))"
  have e: "evolves F w x ?x"
    by (intro evolves_after evolves_refl) (use assms in simp_all)
  obtain out r' y where y: "next r w ?x = (out, r', y)" by (metis prod_cases3)
  have "evolves F w ?x y \<and> same_request r r'"
    using keepsD [OF assms(1) y] evolves_length [OF e rec] by blast
  with e y show "evolves F w x (snd (snd (with_security_headers next r w x))) \<and>
      same_request r (fst (snd (with_security_headers next r w x)))"
    by (auto simp: with_security_headers_def intro: evolves_trans)
qed

lemma with_panic_recovery_keeps [keeps_intros]:
  assumes "keeps F next" "free F ''Content-Type''"
    and "''recovered panic serving request'' \<notin> silent F" "''writing error response'' \<notin> silent F"
  shows "keeps F (with_panic_recovery lg next)"
proof (rule keepsI)
  fix r w and x :: exchange
  assume rec: "writer_recorders w \<subseteq> {..<length (recorders x)}"
  obtain out r' x1 where nx: "next r w x = (out, r', x1)" by (metis prod_cases3)
  have e: "evolves F w x x1" "same_request r r'" using keepsD [OF assms(1) nx rec] by auto
  show "evolves F w x (snd (snd (with_panic_recovery lg next r w x))) \<and>
      same_request r (fst (snd (with_panic_recovery lg next r w x)))"
  proof (cases out)
    case Returned
    with nx e show ?thesis by (simp add: with_panic_recovery_def)
  next
    case (Panicked v)
    let ?x4 = "span_do (SpanSetStatusError ''panic serving request'')
        (span_do (SpanRecordError (ErrText (''panic serving request: '' @ panic_text v)))
          (log_to lg ErrorLevel ''recovered panic serving request''
            [(''panic'', FAny v), (''method'', FString (req_method r')),
             (''path'', FString (url_path r')),
             (''request_id'', FString (request_id_from_context (req_ctx r))),
             (''stack'', FStack)] x1))"
    have e4: "evolves F w x ?x4"
      by (intro evolves_after evolves_after_log_to e) (use assms in simp_all)
    moreover have "evolves F w ?x4 (snd (write_json_error lg w 500 error_code_internal [] ?x4))"
      by (rule evolves_write_json_error [OF evolves_length [OF e4 rec]])
        (use assms in \<open>simp_all add: final_codes_def\<close>)
    ultimately show ?thesis
      using nx Panicked e
      by (auto simp: with_panic_recovery_def Let_def split: prod.splits intro: evolves_trans)
  qed
qed

lemma with_request_body_limit_keeps [keeps_intros]:
  assumes "keeps F next" "free F ''Content-Type''" "''writing error response'' \<notin> silent F"
  shows "keeps F (with_request_body_limit limit lg next)"
proof (rule keepsI)
  fix r w and x :: exchange
  assume rec: "writer_recorders w \<subseteq> {..<length (recorders x)}"
  have rejected: "evolves F w x (snd (write_json_error lg w 413 error_code_payload_too_large [] x))"
    by (rule evolves_write_json_error [OF rec]) (use assms in \<open>simp_all add: final_codes_def\<close>)
  have passed: "evolves F w x (snd (snd (next r' w x))) \<and> same_request r' (fst (snd (next r' w x)))" for r'
    using keepsD [OF assms(1) _ rec] by (metis prod.collapse)
  show "evolves F w x (snd (snd (with_request_body_limit limit lg next r w x))) \<and>
      same_request r (fst (snd (with_request_body_limit limit lg next r w x)))"
    using rejected passed [of r]
      passed [of "r\<lparr>req_body := MaxBytesReader (req_body r) limit limit None (unwrap_writer w)\<rparr>"]
    by (auto simp: with_request_body_limit_def split: prod.splits)
qed

lemma evolves_slots:
  assumes "evolves F w (x\<lparr>slots_used := Suc (slots_used x)\<rparr>) y"
  shows "evolves F w x (y\<lparr>slots_used := slots_used y - Suc 0\<rparr>)"
  using assms by (simp add: evolves_def coherent_def)

lemma with_in_flight_limit_keeps [keeps_intros]:
  assumes "keeps F next" "free F ''Content-Type''" "free F ''Retry-After''"
    and "''writing error response'' \<notin> silent F"
  shows "keeps F (with_in_flight_limit limit lg next)"
proof (rule keepsI)
  fix r w and x :: exchange
  assume rec: "writer_recorders w \<subseteq> {..<length (recorders x)}"
  let ?x1 = "set_header ''Retry-After'' retry_after_overloaded x"
  let ?x2 = "x\<lparr>slots_used := Suc (slots_used x)\<rparr>"
  have e1: "evolves F w x ?x1" using assms(3) by (intro evolves_set_header) simp
  have "evolves F w ?x1 (snd (write_json_error lg w 503 error_code_overloaded [] ?x1))"
    by (rule evolves_write_json_error [OF evolves_length [OF e1 rec]])
      (use assms in \<open>simp_all add: final_codes_def\<close>)
  with e1 have shed: "evolves F w x (snd (write_json_error lg w 503 error_code_overloaded [] ?x1))"
    by (rule evolves_trans)
  have passed: "evolves F w y (snd (snd (next r w y))) \<and> same_request r (fst (snd (next r w y)))"
    if "writer_recorders w \<subseteq> {..<length (recorders y)}" for y
    using keepsD [OF assms(1) _ that] by (metis prod.collapse)
  show "evolves F w x (snd (snd (with_in_flight_limit limit lg next r w x))) \<and>
      same_request r (fst (snd (with_in_flight_limit limit lg next r w x)))"
    using shed passed [of x] passed [of ?x2] rec
    by (auto simp: with_in_flight_limit_def split: prod.splits intro: evolves_slots [of F w x])
qed

lemma with_handler_timeout_keeps [keeps_intros]:
  assumes "keeps F next"
  shows "keeps F (with_handler_timeout timeout next)"
proof (rule keepsI)
  fix r w and x :: exchange
  assume rec: "writer_recorders w \<subseteq> {..<length (recorders x)}"
  have "evolves F w x (snd (snd (next r' w x))) \<and> same_request r' (fst (snd (next r' w x)))" for r'
    using keepsD [OF assms(1) _ rec] by (metis prod.collapse)
  then show "evolves F w x (snd (snd (with_handler_timeout timeout next r w x))) \<and>
      same_request r (fst (snd (with_handler_timeout timeout next r w x)))"
    by (auto simp: with_handler_timeout_def split: prod.splits) (metis snd_conv)
qed

lemma with_request_logging_keeps [keeps_intros]:
  assumes "keeps F next" "''request served'' \<notin> silent F"
  shows "keeps F (with_request_logging proxies lg next)"
proof (rule keepsI)
  fix r w and x :: exchange
  assume rec: "writer_recorders w \<subseteq> {..<length (recorders x)}"
  let ?i = "length (recorders x)"
  obtain x1 where x1: "alloc_recorder x = (?i, x1)" by (simp add: alloc_recorder_def)
  obtain out r' x2 where nx: "next r (Recorder ?i w) x1 = (out, r', x2)" by (metis prod_cases3)
  have "writer_recorders (Recorder ?i w) \<subseteq> {..<length (recorders x1)}"
    using rec x1 by (auto simp: alloc_recorder_def)
  then have "evolves F (Recorder ?i w) x1 x2" and r': "same_request r r'"
    using keepsD [OF assms(1) nx] by auto
  then have e2: "evolves F w x x2" using evolves_alloc [of F x w x2] rec x1 by simp
  show "evolves F w x (snd (snd (with_request_logging proxies lg next r w x))) \<and>
      same_request r (fst (snd (with_request_logging proxies lg next r w x)))"
    using e2 r' nx x1 assms(2)
    by (cases out)
      (auto simp: with_request_logging_def Let_def
        intro!: evolves_after_log_to evolves_after)
qed

text \<open>Request logging when the wrapped handler returns.\<close>

lemma with_request_logging_returned:
  assumes "h r (Recorder (length (recorders x)) w) (snd (alloc_recorder x)) = (Returned, r', x2)"
  shows "with_request_logging proxies lg h r w x =
    (Returned, r',
     log_to lg (level_for_status (recorder_status (length (recorders x)) x2)) ''request served''
       (served_fields proxies r' (recorder_status (length (recorders x)) x2) (clock x2 - clock x))
       (if req_pattern r' \<noteq> []
        then span_do (SpanSetName (span_route_name (req_method r') (req_pattern r'))) x2 else x2))"
  using assms
  by (simp add: with_request_logging_def alloc_recorder_def Let_def recorder_status_def span_do_simps)

end
