(* ===== verification/Go_Quote.thy ===== *)
theory Go_Quote
  imports Go_Utf8
begin

text \<open>
  \<open>strconv.Quote\<close>, which is what \<open>%q\<close> prints, and \<open>strconv.Unquote\<close>. Which runes beyond ASCII are
  printable is Unicode's table, the parameter \<open>print_table\<close>; ASCII never consults it.
\<close>

type_synonym print_table = "nat \<Rightarrow> bool"

definition is_print :: "print_table \<Rightarrow> nat \<Rightarrow> bool" where
  "is_print tab r = (if r < 0x80 then 0x20 \<le> r \<and> r < 0x7F else tab r)"

fun hex_digits :: "nat \<Rightarrow> nat \<Rightarrow> string" where
  "hex_digits 0 n = []"
| "hex_digits (Suc k) n = hex_digits k (n div 16) @ [hex_digit (n mod 16)]"

definition escape_rune :: "print_table \<Rightarrow> nat \<Rightarrow> string \<Rightarrow> string" where
  "escape_rune tab r enc =
     (if r = 0x22 \<or> r = 0x5C then backslash # enc
      else if is_print tab r then enc
      else if r = 7 then [backslash, CHR ''a'']
      else if r = 8 then [backslash, CHR ''b'']
      else if r = 12 then [backslash, CHR ''f'']
      else if r = 10 then [backslash, CHR ''n'']
      else if r = 13 then [backslash, CHR ''r'']
      else if r = 9 then [backslash, CHR ''t'']
      else if r = 11 then [backslash, CHR ''v'']
      else if r < 0x20 \<or> r = 0x7F then backslash # CHR ''x'' # hex_digits 2 r
      else if r < 0x10000 then backslash # CHR ''u'' # hex_digits 4 r
      else backslash # CHR ''U'' # hex_digits 8 r)"

function quote_body :: "print_table \<Rightarrow> string \<Rightarrow> string" where
  "quote_body tab s =
     (if s = [] then []
      else case decode_rune s of
          (r, n) \<Rightarrow>
            (if r = rune_error \<and> n = 1 then backslash # CHR ''x'' # hex_digits 2 (byte (hd s))
             else escape_rune tab r (take n s)) @ quote_body tab (drop n s))"
  by pat_completeness auto
termination
  by (relation "measure (\<lambda>(_, s). length s)") (auto dest: sym [THEN decode_rune_progress])

declare quote_body.simps [simp del]

definition go_quote :: "print_table \<Rightarrow> string \<Rightarrow> string" where
  "go_quote tab s = CHR 0x22 # quote_body tab s @ [CHR 0x22]"

section \<open>Unquoting\<close>

definition encode_rune :: "nat \<Rightarrow> string" where
  "encode_rune r =
     (if r < 0x80 then [char_of r]
      else if r < 0x800 then map char_of [0xC0 + r div 64, 0x80 + r mod 64]
      else if 0x10FFFF < r \<or> (0xD800 \<le> r \<and> r \<le> 0xDFFF) then map char_of [0xEF, 0xBF, 0xBD :: nat]
      else if r < 0x10000 then map char_of [0xE0 + r div 4096, 0x80 + r div 64 mod 64, 0x80 + r mod 64]
      else map char_of [0xF0 + r div 262144, 0x80 + r div 4096 mod 64, 0x80 + r div 64 mod 64,
                        0x80 + r mod 64])"

definition unhex_digit :: "char \<Rightarrow> nat option" where
  "unhex_digit c =
     (if is_digit c then Some (byte c - 48)
      else if 97 \<le> byte c \<and> byte c \<le> 102 then Some (byte c - 87)
      else if 65 \<le> byte c \<and> byte c \<le> 70 then Some (byte c - 55)
      else None)"

fun read_hex :: "nat \<Rightarrow> string \<Rightarrow> nat \<Rightarrow> (nat \<times> string) option" where
  "read_hex 0 s acc = Some (acc, s)"
| "read_hex (Suc k) s acc =
     (case s of
        [] \<Rightarrow> None
      | c # s' \<Rightarrow>
          (case unhex_digit c of None \<Rightarrow> None | Some d \<Rightarrow> read_hex k s' (acc * 16 + d)))"

definition octal :: "char \<Rightarrow> nat option" where
  "octal c = (if 48 \<le> byte c \<and> byte c \<le> 55 then Some (byte c - 48) else None)"

text \<open>
  \<open>UnquoteChar\<close>: the bytes one character or escape stands for, and the text after it. A
  \<open>\x\<close> or octal escape is a byte, the others a rune.
\<close>

definition unquote_escape :: "char \<Rightarrow> char \<Rightarrow> string \<Rightarrow> (string \<times> string) option" where
  "unquote_escape q c rest =
     (if c = CHR ''a'' then Some ([char_of (7 :: nat)], rest)
      else if c = CHR ''b'' then Some ([char_of (8 :: nat)], rest)
      else if c = CHR ''f'' then Some ([char_of (12 :: nat)], rest)
      else if c = CHR ''n'' then Some ([char_of (10 :: nat)], rest)
      else if c = CHR ''r'' then Some ([char_of (13 :: nat)], rest)
      else if c = CHR ''t'' then Some ([char_of (9 :: nat)], rest)
      else if c = CHR ''v'' then Some ([char_of (11 :: nat)], rest)
      else if c = CHR ''x'' then map_option (\<lambda>(v, s). ([char_of v], s)) (read_hex 2 rest 0)
      else if c = CHR ''u'' \<or> c = CHR ''U'' then
        (case read_hex (if c = CHR ''u'' then 4 else 8) rest 0 of
           None \<Rightarrow> None
         | Some (v, s) \<Rightarrow>
             if 0x10FFFF < v \<or> (0xD800 \<le> v \<and> v \<le> 0xDFFF) then None else Some (encode_rune v, s))
      else if octal c \<noteq> None then
        (case rest of
           d # e # s \<Rightarrow>
             (case (octal c, octal d, octal e) of
                (Some i, Some j, Some k) \<Rightarrow>
                  (let v = i * 64 + j * 8 + k in if 255 < v then None else Some ([char_of v], s))
              | _ \<Rightarrow> None)
         | _ \<Rightarrow> None)
      else if c = backslash then Some ([backslash], rest)
      else if c = CHR 0x27 \<or> c = CHR 0x22 then (if c = q then Some ([c], rest) else None)
      else None)"

definition unquote_char :: "char \<Rightarrow> string \<Rightarrow> (string \<times> string) option" where
  "unquote_char q s =
     (case s of
        [] \<Rightarrow> None
      | c # rest \<Rightarrow>
          if c = q then None
          else if byte c \<ge> 0x80 then
            (case decode_rune s of
               (r, n) \<Rightarrow> Some (if r = rune_error \<and> n = 1 then encode_rune rune_error else take n s, drop n s))
          else if c \<noteq> backslash then Some ([c], rest)
          else (case rest of [] \<Rightarrow> None | e # rest' \<Rightarrow> unquote_escape q e rest'))"

text \<open>Each character takes text away, so the length of the text is fuel enough.\<close>

fun unquote_loop :: "nat \<Rightarrow> char \<Rightarrow> string \<Rightarrow> string option" where
  "unquote_loop 0 q s = None"
| "unquote_loop (Suc k) q s =
     (if s = [] then None
      else if hd s = q then (if tl s = [] then Some [] else None)
      else if hd s = CHR 0x0A then None
      else case unquote_char q s of
          None \<Rightarrow> None
        | Some (b, rest) \<Rightarrow>
            if q = CHR 0x27 then (if rest = [q] then Some b else None)
            else map_option ((@) b) (unquote_loop k q rest))"

definition unquote :: "string \<Rightarrow> string option" where
  "unquote s =
     (if length s < 2 then None
      else
        let q = hd s; body = tl s in
        if q = CHR 0x60 then
          (if last body = q \<and> q \<notin> set (butlast body)
           then Some (filter (\<lambda>c. c \<noteq> CHR 0x0D) (butlast body)) else None)
        else if q = CHR 0x22 \<or> q = CHR 0x27 then unquote_loop (length s) q body
        else None)"

section \<open>Printable ASCII\<close>

definition plain :: "char \<Rightarrow> bool" where
  "plain c \<longleftrightarrow> 0x20 \<le> byte c \<and> byte c < 0x7F \<and> c \<noteq> CHR 0x22 \<and> c \<noteq> backslash"

lemma quote_body_plain: "list_all plain s \<Longrightarrow> quote_body tab s = s"
proof (induction s)
  case Nil
  show ?case by (simp add: quote_body.simps)
next
  case (Cons c s)
  have "byte c \<noteq> byte CHR 0x22" "byte c \<noteq> byte backslash"
    using Cons(2) by (simp_all add: plain_def del: of_char_Char)
  then have "byte c \<noteq> 0x22" "byte c \<noteq> 0x5C" by (simp_all add: backslash_def)
  with Cons have d: "decode_rune (c # s) = (byte c, 1)" "byte c \<noteq> 0x22" "byte c \<noteq> 0x5C" "is_print tab (byte c)"
    "byte c \<noteq> rune_error"
    by (auto simp: plain_def decode_rune_def is_print_def rune_error_def backslash_def text_simps)
  show ?case
    using Cons d by (simp add: quote_body.simps [of tab "c # s"] escape_rune_def)
qed

lemma unquote_loop_plain:
  "\<lbrakk>list_all plain s; length s < k\<rbrakk> \<Longrightarrow> unquote_loop k CHR 0x22 (s @ [CHR 0x22]) = Some s"
proof (induction s arbitrary: k)
  case Nil
  then show ?case by (cases k) auto
next
  case (Cons c s)
  then obtain k' where k: "k = Suc k'" by (cases k) auto
  have "c \<noteq> CHR 0x22" "c \<noteq> CHR 0x0A" "byte c < 0x80" "c \<noteq> backslash"
    using Cons(2) by (auto simp: plain_def)
  then show ?case using Cons k by (simp add: unquote_char_def)
qed

lemma unquote_quote_plain: "list_all plain s \<Longrightarrow> unquote (go_quote tab s) = Some s"
  using unquote_loop_plain [of s "Suc (Suc (length s))"]
  by (simp add: unquote_def go_quote_def quote_body_plain Let_def del: unquote_loop.simps)

end
