(* ===== verification/Readiness.thy ===== *)
theory Readiness
  imports Response_Json Go_Quote
begin

text \<open>
  \<open>internal/server/readiness.go\<close>. A check is what it does under a context: it returns an error or
  nil, or panics. \<open>failing\<close> runs the checks in goroutines that fill one slot each; the step
  relation \<open>probe_step\<close> is their interleaving, and \<open>failing\<close> itself is shown to be the outcome of
  every one of them.
\<close>

section \<open>State and registration\<close>

datatype check_outcome = Check_returns "go_error option" | Check_panics panic_value

record named_check =
  check_name :: string
  check_run :: "request_context \<Rightarrow> check_outcome"

record readiness =
  draining :: bool
  check_timeout :: int
  checks :: "named_check list"

definition default_readiness_check_timeout :: int where
  "default_readiness_check_timeout = 1000000000"

definition new_readiness :: readiness where
  "new_readiness = \<lparr>draining = False, check_timeout = default_readiness_check_timeout, checks = []\<rparr>"

definition zero_readiness :: readiness where
  "zero_readiness = \<lparr>draining = False, check_timeout = 0, checks = []\<rparr>"

definition add_check ::
    "print_table \<Rightarrow> string \<Rightarrow> (request_context \<Rightarrow> check_outcome) \<Rightarrow> readiness \<Rightarrow> outcome \<times> readiness"
where
  "add_check tab name check rd =
     (if list_ex (\<lambda>c. check_name c = name) (checks rd)
      then (Panicked (PanicOther (''server: readiness check '' @ go_quote tab name @ '' registered twice'')),
            rd)
      else (Returned, rd\<lparr>checks := checks rd @ [\<lparr>check_name = name, check_run = check\<rparr>]\<rparr>))"

definition set_draining :: "readiness \<Rightarrow> readiness" where
  "set_draining rd = rd\<lparr>draining := True\<rparr>"

section \<open>Running the checks\<close>

definition run_check :: "request_context \<Rightarrow> (request_context \<Rightarrow> check_outcome) \<Rightarrow> go_error option" where
  "run_check ctx check =
     (case check ctx of
        Check_returns err \<Rightarrow> err
      | Check_panics v \<Rightarrow> Some (ErrText (''check panicked: '' @ panic_text v)))"

definition effective_timeout :: "readiness \<Rightarrow> int" where
  "effective_timeout rd =
     (if check_timeout rd \<le> 0 then default_readiness_check_timeout else check_timeout rd)"

definition probe_context :: "readiness \<Rightarrow> request_context \<Rightarrow> int \<Rightarrow> request_context" where
  "probe_context rd ctx now =
     ctx\<lparr>ctx_deadline := Some (case ctx_deadline ctx of
          None \<Rightarrow> now + effective_timeout rd
        | Some t \<Rightarrow> min t (now + effective_timeout rd))\<rparr>"

text \<open>The goroutines: the slots, and which of them are still running.\<close>

record probe =
  slots :: "go_error option list"
  running :: "nat set"

definition probe_start :: "named_check list \<Rightarrow> probe" where
  "probe_start cs = \<lparr>slots = replicate (length cs) None, running = {..<length cs}\<rparr>"

inductive probe_step :: "named_check list \<Rightarrow> request_context \<Rightarrow> probe \<Rightarrow> probe \<Rightarrow> bool" for cs ctx where
  finish: "i \<in> running p \<Longrightarrow>
     probe_step cs ctx p
       \<lparr>slots = (slots p)[i := run_check ctx (check_run (cs ! i))], running = running p - {i}\<rparr>"

text \<open>The loop over the results, after every goroutine is done.\<close>

fun collect :: "logger \<Rightarrow> (named_check \<times> go_error option) list \<Rightarrow> string list \<Rightarrow> exchange \<Rightarrow>
    string list \<times> exchange" where
  "collect lg [] failed x = (failed, x)"
| "collect lg ((c, None) # rest) failed x = collect lg rest failed x"
| "collect lg ((c, Some err) # rest) failed x =
     collect lg rest (failed @ [check_name c])
       (log_to lg WarnLevel ''readiness check failed''
          [(''check'', FString (check_name c)), (''error'', FError err)] x)"

definition failing ::
    "logger \<Rightarrow> readiness \<Rightarrow> request_context \<Rightarrow> exchange \<Rightarrow> string list \<times> exchange" where
  "failing lg rd ctx x =
     (if checks rd = [] then ([], x)
      else
        let ctx' = probe_context rd ctx (clock x);
            results = map (\<lambda>c. run_check ctx' (check_run c)) (checks rd)
        in case collect lg (zip (checks rd) results) [] x of (failed, x') \<Rightarrow> (sort failed, x'))"

section \<open>The handler\<close>

definition readiness_json :: "string \<Rightarrow> string list \<Rightarrow> json" where
  "readiness_json status failed =
     JObject ((''status'', JString status) #
       (if failed = [] then [] else [(''failing'', JArray (map JString failed))]))"

definition new_readiness_handler :: "readiness \<Rightarrow> logger \<Rightarrow> handler" where
  "new_readiness_handler rd lg r w x =
     (if draining rd then
        (case write_json lg w 503 (Inr (readiness_json ''draining'' [])) x of (out, x') \<Rightarrow> (out, r, x'))
      else case failing lg rd (req_ctx r) x of
          (failed, x1) \<Rightarrow>
            if failed \<noteq> [] then
              (case write_json lg w 503 (Inr (readiness_json ''not_ready'' failed)) x1 of
                 (out, x') \<Rightarrow> (out, r, x'))
            else
              (case write_json lg w 200 (Inr (readiness_json ''ready'' [])) x1 of (out, x') \<Rightarrow> (out, r, x')))"

section \<open>Facts\<close>

definition distinct_checks :: "readiness \<Rightarrow> bool" where
  "distinct_checks rd \<longleftrightarrow> distinct (map check_name (checks rd))"

lemma add_check_distinct:
  "distinct_checks rd \<Longrightarrow> distinct_checks (snd (add_check tab name check rd))"
  by (auto simp: distinct_checks_def add_check_def list_ex_iff)

text \<open>Every reachable state of the goroutines agrees with the checks that have finished.\<close>

lemma probe_reachable:
  assumes "(probe_step cs ctx)\<^sup>*\<^sup>* (probe_start cs) p"
  shows "length (slots p) = length cs \<and> running p \<subseteq> {..<length cs} \<and>
    (\<forall>i < length cs. i \<notin> running p \<longrightarrow> slots p ! i = run_check ctx (check_run (cs ! i)))"
  using assms
proof (induction rule: rtranclp_induct)
  case base
  show ?case by (simp add: probe_start_def)
next
  case (step p q)
  from step(2,3) show ?case
    by (cases rule: probe_step.cases) (auto simp: nth_list_update)
qed

lemma probe_finished:
  assumes "(probe_step cs ctx)\<^sup>*\<^sup>* (probe_start cs) p" "running p = {}"
  shows "slots p = map (\<lambda>c. run_check ctx (check_run c)) cs"
  using probe_reachable [OF assms(1)] assms(2) by (intro nth_equalityI) auto

lemma probe_progress:
  assumes "running p \<noteq> {}"
  shows "\<exists>q. probe_step cs ctx p q \<and> running q \<subset> running p"
proof -
  obtain i where "i \<in> running p" using assms by auto
  then show ?thesis using probe_step.finish [of i p cs ctx] by (intro exI conjI) auto
qed

lemma collect_names:
  "fst (collect lg crs failed x) =
     failed @ map (\<lambda>ce. check_name (fst ce)) (filter (\<lambda>ce. snd ce \<noteq> None) crs)"
  by (induction lg crs failed x rule: collect.induct) auto

lemma collect_evolves:
  "''readiness check failed'' \<notin> silent F \<Longrightarrow> evolves F w x (snd (collect lg crs failed x))"
  by (induction lg crs failed x rule: collect.induct) (auto intro: evolves_trans evolves_log_to)

lemma collect_wire [wire_simps]:
  "sent (snd (collect lg crs failed x)) = sent x"
  "live_header (snd (collect lg crs failed x)) = live_header x"
  "recorders (snd (collect lg crs failed x)) = recorders x"
  "sent_body (snd (collect lg crs failed x)) = sent_body x"
  by (induction lg crs failed x rule: collect.induct) (auto simp: wire_simps)

definition failing_names :: "readiness \<Rightarrow> request_context \<Rightarrow> string list" where
  "failing_names rd ctx =
     map check_name (filter (\<lambda>c. run_check ctx (check_run c) \<noteq> None) (checks rd))"

lemma zip_map_filter:
  "map (\<lambda>ce. f (fst ce)) (filter (\<lambda>ce. snd ce \<noteq> None) (zip cs (map g cs))) =
   map f (filter (\<lambda>c. g c \<noteq> None) cs)"
  by (induction cs) auto

lemma failing_result:
  "fst (failing lg rd ctx x) = sort (failing_names rd (probe_context rd ctx (clock x)))"
  by (simp add: failing_def failing_names_def Let_def case_prod_beta collect_names
      zip_map_filter del: not_None_eq)

lemma failing_evolves:
  "''readiness check failed'' \<notin> silent F \<Longrightarrow> evolves F w x (snd (failing lg rd ctx x))"
  by (simp add: failing_def Let_def case_prod_beta collect_evolves)

lemma failing_wire [wire_simps]:
  "sent (snd (failing lg rd ctx x)) = sent x"
  "live_header (snd (failing lg rd ctx x)) = live_header x"
  "recorders (snd (failing lg rd ctx x)) = recorders x"
  "sent_body (snd (failing lg rd ctx x)) = sent_body x"
  by (simp_all add: failing_def Let_def wire_simps case_prod_beta)

definition json_messages :: "string set" where
  "json_messages = {''writing error response'', ''writing json response'', ''encoding json response''}"

lemma new_readiness_handler_keeps [keeps_intros]:
  assumes "free F ''Content-Type''" "''readiness check failed'' \<notin> silent F"
    and "json_messages \<inter> silent F = {}"
  shows "keeps F (new_readiness_handler rd lg)"
proof (rule keepsI)
  fix r :: request and w and x :: exchange
  assume rec: "writer_recorders w \<subseteq> {..<length (recorders x)}"
  have json: "evolves F w x (snd (write_json lg w s (Inr j) y))"
    if "evolves F w x y" "s = 200 \<or> s = 503" for y s j
    using evolves_write_json [OF evolves_length [OF that(1) rec], of F s lg "Inr j"] assms that(2)
    by (intro evolves_trans [OF that(1)]) (auto simp: json_messages_def final_codes_def)
  have "evolves F w x (snd (failing lg rd (req_ctx r) x))" using assms(2) by (rule failing_evolves)
  then show "evolves F w x (snd (snd (new_readiness_handler rd lg r w x))) \<and>
      same_request r (fst (snd (new_readiness_handler rd lg r w x)))"
    by (simp add: new_readiness_handler_def case_prod_beta json)
qed

end
