(* ===== verification/Serve_Mux.thy ===== *)
theory Serve_Mux
  imports Handler_Contract
begin

text \<open>
  \<open>http.ServeMux\<close> for the patterns the program registers: an optional method and a path of
  literal segments, ending in a slash for a subtree. Dispatch tries the request's method,
  then GET for HEAD, then the patterns without a method; under one method literal segments
  come before the subtree that contains them. No match under the method but one under
  another is a 405 naming them; a path that is not clean, or that lacks the slash of an exact
  subtree, is redirected. What a redirect answers is the argument \<open>redirect\<close>: it depends on
  nothing the program's routes decide but the target path.
\<close>

section \<open>Paths\<close>

definition clean_segments :: "string list \<Rightarrow> string list" where
  "clean_segments segs =
     foldl (\<lambda>out s. if s = [] \<or> s = ''.'' then out
                     else if s = ''..'' then butlast out else out @ [s]) [] segs"

text \<open>\<open>path.Clean\<close> of a rooted path, and the mux's \<open>cleanPath\<close>, which keeps a trailing slash.\<close>

definition clean_rooted :: "string \<Rightarrow> string" where
  "clean_rooted p = CHR ''/'' # join (clean_segments (split p CHR ''/'')) ''/''"

definition clean_path :: "string \<Rightarrow> string" where
  "clean_path p =
     (if p = [] then ''/''
      else
        let p' = (if hd p \<noteq> CHR ''/'' then CHR ''/'' # p else p); np = clean_rooted p' in
        if last p' = CHR ''/'' \<and> np \<noteq> ''/'' then np @ ''/'' else np)"

definition unhex :: "char \<Rightarrow> nat option" where
  "unhex c =
     (if is_digit c then Some (byte c - 48)
      else if 97 \<le> byte c \<and> byte c \<le> 102 then Some (byte c - 87)
      else if 65 \<le> byte c \<and> byte c \<le> 70 then Some (byte c - 55)
      else None)"

fun percent_decode :: "string \<Rightarrow> string option" where
  "percent_decode [] = Some []"
| "percent_decode (c # cs) =
     (if c = CHR ''%'' then
        (case cs of
           a # b # rest \<Rightarrow>
             (case (unhex a, unhex b) of
                (Some m, Some n) \<Rightarrow> map_option ((#) (char_of (m * 16 + n))) (percent_decode rest)
              | _ \<Rightarrow> None)
         | _ \<Rightarrow> None)
      else map_option ((#) c) (percent_decode cs))"

definition path_unescape :: "string \<Rightarrow> string" where
  "path_unescape s = (case percent_decode s of None \<Rightarrow> s | Some t \<Rightarrow> t)"

definition first_segment :: "string \<Rightarrow> string \<times> string" where
  "first_segment path =
     (if path = ''/'' then (''/'', [])
      else let p = drop 1 path; s = takeWhile (\<lambda>c. c \<noteq> CHR ''/'') p
           in (path_unescape s, drop (length s) p))"

section \<open>Patterns\<close>

datatype segment = Lit string | Multi

record route =
  route_method :: string
  route_segments :: "segment list"
  route_text :: string
  route_handler :: handler

definition parse_segments :: "string \<Rightarrow> segment list" where
  "parse_segments path =
     (let parts = split (drop 1 path) CHR ''/'' in
      if last parts = [] then map Lit (butlast parts) @ [Multi] else map Lit parts)"

definition mux_route :: "string \<Rightarrow> handler \<Rightarrow> route" where
  "mux_route pattern h =
     (case cut pattern CHR '' '' of
        (before, after, found) \<Rightarrow>
          \<lparr>route_method = (if found then before else []),
           route_segments = parse_segments (if found then after else before),
           route_text = pattern, route_handler = h\<rparr>)"

section \<open>Matching\<close>

definition literal_child :: "string \<Rightarrow> (segment list \<times> 'a) list \<Rightarrow> (segment list \<times> 'a) list" where
  "literal_child seg cands =
     List.map_filter (\<lambda>(ss, a). case ss of Lit s # ss' \<Rightarrow> if s = seg then Some (ss', a) else None | _ \<Rightarrow> None)
       cands"

definition multi_child :: "(segment list \<times> 'a) list \<Rightarrow> 'a option" where
  "multi_child cands = map_option snd (find (\<lambda>(ss, _). ss = [Multi]) cands)"

function match_path :: "(segment list \<times> 'a) list \<Rightarrow> string \<Rightarrow> 'a option" where
  "match_path cands path =
     (if path = [] then map_option snd (find (\<lambda>(ss, _). ss = []) cands)
      else case first_segment path of
          (seg, rest) \<Rightarrow>
            (case match_path (literal_child seg cands) rest of
               Some a \<Rightarrow> Some a
             | None \<Rightarrow> multi_child cands))"
  by pat_completeness auto
termination
proof (relation "measure (\<lambda>(_, path). length path)")
  fix cands :: "(segment list \<times> 'a) list" and path seg rest
  assume "path \<noteq> []" "(seg, rest) = first_segment path"
  then show "((literal_child seg cands, rest), (cands, path)) \<in> measure (\<lambda>(_, path). length path)"
    by (cases path) (auto simp: first_segment_def Let_def split: if_splits)
qed simp

declare match_path.simps [simp del]

definition under_method :: "string \<Rightarrow> route list \<Rightarrow> (segment list \<times> route) list" where
  "under_method m routes =
     map (\<lambda>rt. (route_segments rt, rt)) (filter (\<lambda>rt. route_method rt = m) routes)"

definition match_method_and_path :: "route list \<Rightarrow> string \<Rightarrow> string \<Rightarrow> route option" where
  "match_method_and_path routes method path =
     (case match_path (under_method method routes) path of
        Some rt \<Rightarrow> Some rt
      | None \<Rightarrow>
          (case (if method = ''HEAD'' then match_path (under_method ''GET'' routes) path else None) of
             Some rt \<Rightarrow> Some rt
           | None \<Rightarrow> match_path (under_method [] routes) path))"

definition exact_match :: "route option \<Rightarrow> string \<Rightarrow> bool" where
  "exact_match n path =
     (case n of
        None \<Rightarrow> False
      | Some rt \<Rightarrow>
          if route_segments rt = [] \<or> last (route_segments rt) \<noteq> Multi then True
          else if path \<noteq> [] \<and> last path \<noteq> CHR ''/'' then False
          else length (route_segments rt) = count_list path CHR ''/'')"

definition match_or_redirect ::
    "route list \<Rightarrow> string \<Rightarrow> string \<Rightarrow> string option \<Rightarrow> route option \<times> string option" where
  "match_or_redirect routes method path u =
     (let n = match_method_and_path routes method path in
      case u of
        Some url \<Rightarrow>
          (if \<not> exact_match n path \<and> \<not> has_suffix path ''/'' then
             let n2 = match_method_and_path routes method (path @ ''/'') in
             if exact_match n2 (path @ ''/'') then (n2, Some (clean_path url @ ''/'')) else (n, None)
           else (n, None))
      | None \<Rightarrow> (n, None))"

definition methods_at :: "route list \<Rightarrow> string \<Rightarrow> string list" where
  "methods_at routes path =
     filter (\<lambda>m. m \<noteq> [] \<and> match_path (under_method m routes) path \<noteq> None)
       (map route_method routes)"

definition matching_methods :: "route list \<Rightarrow> string \<Rightarrow> string list" where
  "matching_methods routes path =
     (let ms = methods_at routes path @
               (if has_suffix path ''/'' then [] else methods_at routes (path @ ''/''));
          ms' = (if ''GET'' \<in> set ms then ''HEAD'' # ms else ms)
      in sort (remdups ms'))"

section \<open>Dispatch\<close>

text \<open>\<open>http.Error\<close>, the redirect as the argument answers it, and the mux itself.\<close>

definition http_error :: "string \<Rightarrow> int \<Rightarrow> hprog" where
  "http_error msg code =
     HDel ''Content-Length''
       (HSet ''Content-Type'' ''text/plain; charset=utf-8''
          (HSet ''X-Content-Type-Options'' ''nosniff''
             (HWriteHeader code (HWrite (msg @ [char_of (10 :: nat)]) (\<lambda>_. HDone)))))"

datatype dispatch =
    To_route route
  | Redirect string string
  | Not_allowed "string list"
  | Not_found

definition find_handler :: "route list \<Rightarrow> request \<Rightarrow> dispatch" where
  "find_handler routes r =
     (let escaped = url_escaped_path r in
      if req_method r = ''CONNECT'' then
        (case match_or_redirect routes (req_method r) escaped (Some (url_path r)) of
           (_, Some u) \<Rightarrow> Redirect u u
         | (_, None) \<Rightarrow>
             (case fst (match_or_redirect routes (req_method r) escaped None) of
                Some rt \<Rightarrow> To_route rt
              | None \<Rightarrow>
                  let ms = matching_methods routes escaped
                  in if ms \<noteq> [] then Not_allowed ms else Not_found))
      else
        let path = clean_path escaped in
        case match_or_redirect routes (req_method r) path (Some (url_path r)) of
          (n, Some u) \<Rightarrow> Redirect u (case n of None \<Rightarrow> [] | Some rt \<Rightarrow> route_text rt)
        | (n, None) \<Rightarrow>
            if path \<noteq> escaped then Redirect path (case n of None \<Rightarrow> [] | Some rt \<Rightarrow> route_text rt)
            else (case n of
                    Some rt \<Rightarrow> To_route rt
                  | None \<Rightarrow>
                      let ms = matching_methods routes path
                      in if ms \<noteq> [] then Not_allowed ms else Not_found))"

definition serve_mux :: "(string \<Rightarrow> foreign_handler) \<Rightarrow> route list \<Rightarrow> handler" where
  "serve_mux redirect routes r w x =
     (if url_path r = ''*'' then
        foreign (\<lambda>_. HSet ''Connection'' ''close'' (HWriteHeader 400 HDone)) r w x
      else case find_handler routes r of
          To_route rt \<Rightarrow> route_handler rt (r\<lparr>req_pattern := route_text rt\<rparr>) w x
        | Redirect target pattern \<Rightarrow> foreign (redirect target) (r\<lparr>req_pattern := pattern\<rparr>) w x
        | Not_allowed ms \<Rightarrow>
            foreign (\<lambda>_. HSet ''Allow'' (join ms '', '') (http_error ''Method Not Allowed'' 405))
              (r\<lparr>req_pattern := []\<rparr>) w x
        | Not_found \<Rightarrow> foreign (\<lambda>_. http_error ''404 page not found'' 404) (r\<lparr>req_pattern := []\<rparr>) w x)"

section \<open>Facts\<close>

lemma canonical_mux_keys [simp]:
  "canonical_key ''Content-Length'' = ''Content-Length''"
  "canonical_key ''Content-Type'' = ''Content-Type''"
  "canonical_key ''X-Content-Type-Options'' = ''X-Content-Type-Options''"
  "canonical_key ''Allow'' = ''Allow''"
  "canonical_key ''Connection'' = ''Connection''"
  by (simp_all add: canonical_key_def token_byte_def is_digit_def is_letter_def is_upper_def
      is_lower_def Let_def text_simps)

text \<open>Whatever a mux answers comes from a registered route.\<close>

lemma find_mem: "map_option snd (find P cands) = Some a \<Longrightarrow> a \<in> snd ` set cands"
  by (auto simp: find_Some_iff) (metis imageI nth_mem snd_conv)

lemma literal_child_mem: "snd ` set (literal_child seg cands) \<subseteq> snd ` set cands"
  by (force simp: literal_child_def List.map_filter_def split: list.splits segment.splits if_splits)

lemma match_path_mem:
  "match_path cands path = Some a \<Longrightarrow> a \<in> snd ` set cands"
proof (induction cands path rule: match_path.induct)
  case (1 cands path)
  show ?case
  proof (cases "path = []")
    case True
    with 1(2) have "map_option snd (find (\<lambda>(ss, _). ss = []) cands) = Some a"
      using match_path.simps [of cands "[]"] by simp
    then show ?thesis by (rule find_mem)
  next
    case False
    obtain seg rest where fs: "first_segment path = (seg, rest)" by fastforce
    show ?thesis
    proof (cases "match_path (literal_child seg cands) rest")
      case None
      with 1(2) False fs show ?thesis
        by (simp add: match_path.simps [of cands path] multi_child_def find_mem)
    next
      case (Some b)
      with 1(2) False fs have "b = a" by (simp add: match_path.simps [of cands path])
      with Some 1(1) [OF False fs [symmetric]] literal_child_mem [of seg cands] show ?thesis by blast
    qed
  qed
qed

lemma match_method_and_path_mem:
  "match_method_and_path routes m path = Some rt \<Longrightarrow> rt \<in> set routes"
  by (auto simp: match_method_and_path_def under_method_def split: option.splits if_splits
      dest!: match_path_mem)

lemma find_handler_route:
  "find_handler routes r = To_route rt \<Longrightarrow> rt \<in> set routes"
  by (auto simp: find_handler_def match_or_redirect_def Let_def
      split: if_splits option.splits dest: match_method_and_path_mem)

text \<open>Dispatch looks at the method and the path of a request.\<close>

lemma find_handler_cong:
  assumes "req_method r' = req_method r" "url_path r' = url_path r"
    and "url_escaped_path r' = url_escaped_path r"
  shows "find_handler routes r' = find_handler routes r"
  unfolding find_handler_def assms ..

text \<open>The frame a mux keeps when its routes and its redirects keep it.\<close>

lemma within_http_error:
  "\<lbrakk>free F ''Content-Length''; free F ''Content-Type''; may_set F ''X-Content-Type-Options'' ''nosniff'';
    code \<in> final_codes\<rbrakk> \<Longrightarrow> stays_within F (http_error msg code)"
  unfolding http_error_def by (intro stays_within.intros) auto

lemma serve_mux_keeps [keeps_intros]:
  assumes routes: "\<And>rt. rt \<in> set routes \<Longrightarrow> keeps F (route_handler rt)"
    and redirects: "\<And>target r. stays_within F (redirect target r)"
    and keys: "free F ''Content-Length''" "free F ''Content-Type''"
      "may_set F ''X-Content-Type-Options'' ''nosniff''" "free F ''Allow''" "free F ''Connection''"
  shows "keeps F (serve_mux redirect routes)"
proof (rule keepsI)
  fix r w and x :: exchange
  assume rec: "writer_recorders w \<subseteq> {..<length (recorders x)}"
  have run: "evolves F w x (snd (snd (foreign f r' w x))) \<and>
      same_request r' (fst (snd (foreign f r' w x)))" if "\<And>r. stays_within F (f r)" for f r'
    using run_prog_evolves [OF that rec] by (simp add: foreign_def)
  have star: "stays_within F (HSet ''Connection'' ''close'' (HWriteHeader 400 HDone))"
    using keys by (intro stays_within.intros) (auto simp: final_codes_def)
  have disallowed:
    "stays_within F (HSet ''Allow'' v (http_error ''Method Not Allowed'' 405))" for v
    using keys by (intro stays_within.intros within_http_error) (auto simp: final_codes_def)
  have missing: "stays_within F (http_error ''404 page not found'' 404)"
    using keys by (intro within_http_error) (auto simp: final_codes_def)
  have routed: "evolves F w x (snd (snd (route_handler rt r' w x))) \<and>
      same_request r' (fst (snd (route_handler rt r' w x)))" if "rt \<in> set routes" for rt r'
    using keepsD [OF routes [OF that] _ rec] by (metis prod.collapse)
  have same: "same_request (r\<lparr>req_pattern := p\<rparr>) r' = same_request r r'" for r r' :: request and p
    by (simp add: same_request_def)
  show "evolves F w x (snd (snd (serve_mux redirect routes r w x))) \<and>
      same_request r (fst (snd (serve_mux redirect routes r w x)))"
  proof (cases "find_handler routes r")
    case (To_route rt)
    with run [OF star, of r] routed [OF find_handler_route [OF To_route], of "r\<lparr>req_pattern := route_text rt\<rparr>"]
    show ?thesis by (simp add: serve_mux_def same)
  next
    case (Redirect target pattern)
    with run [OF star, of r] run [of "redirect target", OF redirects, of "r\<lparr>req_pattern := pattern\<rparr>"]
    show ?thesis by (simp add: serve_mux_def same)
  next
    case (Not_allowed ms)
    with run [OF star, of r] run [OF disallowed [of "join ms '', ''"], of "r\<lparr>req_pattern := []\<rparr>"]
    show ?thesis by (simp add: serve_mux_def same)
  next
    case Not_found
    with run [OF star, of r] run [OF missing, of "r\<lparr>req_pattern := []\<rparr>"]
    show ?thesis by (simp add: serve_mux_def same)
  qed
qed

end
