(* ===== verification/Go_Time.thy ===== *)
theory Go_Time
  imports Go_Text
begin

text \<open>
  \<open>time.Duration\<close>: how a duration renders and how one is parsed, from Go's \<open>time\<close> package.

  Parsing a fraction goes through \<open>float64\<close>. That one step, the product of the fraction
  digits with \<open>unit / scale\<close> truncated to \<open>uint64\<close>, is the parameter \<open>frac\<close>; everything
  else is exact integer arithmetic. What the round trip needs of it is that IEEE
  arithmetic is exact where every intermediate value is a small integer
  (\<open>float_frac_exact\<close> below).
\<close>

section \<open>Rendering\<close>

fun fmt_frac_loop :: "nat \<Rightarrow> bool \<Rightarrow> nat \<Rightarrow> string \<Rightarrow> bool \<times> string \<times> nat" where
  "fmt_frac_loop 0 print v acc = (print, acc, v)"
| "fmt_frac_loop (Suc i) print v acc =
     (let d = v mod 10; print' = print \<or> d \<noteq> 0
      in fmt_frac_loop i print' (v div 10) (if print' then digit_char d # acc else acc))"

definition fmt_frac :: "nat \<Rightarrow> nat \<Rightarrow> string \<times> nat" where
  "fmt_frac v prec =
     (case fmt_frac_loop prec False v [] of
        (print, acc, v') \<Rightarrow> (if print then CHR ''.'' # acc else acc, v'))"

definition micro_sign :: string where
  "micro_sign = map char_of [0xC2, 0xB5 :: nat]"

definition with_frac :: "nat \<Rightarrow> nat \<Rightarrow> string \<Rightarrow> string" where
  "with_frac u prec suffix = (case fmt_frac u prec of (f, v) \<Rightarrow> format_nat v @ f @ suffix)"

definition duration_magnitude_string :: "nat \<Rightarrow> string" where
  "duration_magnitude_string u =
     (if u = 0 then ''0s''
      else if u < 1000 then with_frac u 0 ''ns''
      else if u < 1000000 then with_frac u 3 (micro_sign @ ''s'')
      else if u < 1000000000 then with_frac u 6 ''ms''
      else
        case fmt_frac u 9 of
          (f, secs) \<Rightarrow>
            let tail = format_nat (secs mod 60) @ f @ ''s'';
                mins = secs div 60
            in if mins = 0 then tail
               else let tail = format_nat (mins mod 60) @ ''m'' @ tail;
                        hours = mins div 60
                    in if hours = 0 then tail else format_nat hours @ ''h'' @ tail)"

definition duration_string :: "go_duration \<Rightarrow> string" where
  "duration_string d =
     (if sint d < 0 then CHR ''-'' # duration_magnitude_string (nat (- sint d))
      else duration_magnitude_string (nat (sint d)))"

section \<open>Parsing\<close>

datatype duration_error = InvalidDuration | MissingUnit | UnknownDurationUnit string

fun leading_int :: "nat \<Rightarrow> string \<Rightarrow> (nat \<times> string) option" where
  "leading_int x [] = Some (x, [])"
| "leading_int x (c # cs) =
     (if \<not> is_digit c then Some (x, c # cs)
      else if 2 ^ 63 div 10 < x then None
      else let y = x * 10 + (byte c - 48)
           in if 2 ^ 63 < y then None else leading_int y cs)"

fun leading_fraction :: "nat \<Rightarrow> nat \<Rightarrow> bool \<Rightarrow> string \<Rightarrow> nat \<times> nat \<times> string" where
  "leading_fraction x scale overflow [] = (x, scale, [])"
| "leading_fraction x scale overflow (c # cs) =
     (if \<not> is_digit c then (x, scale, c # cs)
      else if overflow then leading_fraction x scale True cs
      else if (2 ^ 63 - 1) div 10 < x then leading_fraction x scale True cs
      else let y = x * 10 + (byte c - 48)
           in if 2 ^ 63 < y then leading_fraction x scale True cs
              else leading_fraction y (scale * 10) False cs)"

definition duration_units :: "(string \<times> nat) list" where
  "duration_units =
     [(''ns'', 1),
      (''us'', 1000),
      (micro_sign @ ''s'', 1000),
      (map char_of [0xCE, 0xBC :: nat] @ ''s'', 1000),
      (''ms'', 1000000),
      (''s'', 1000000000),
      (''m'', 60 * 1000000000),
      (''h'', 3600 * 1000000000)]"

definition unit_stop :: "char \<Rightarrow> bool" where
  "unit_stop c \<longleftrightarrow> c = CHR ''.'' \<or> is_digit c"

type_synonym float_frac = "nat \<Rightarrow> nat \<Rightarrow> nat \<Rightarrow> nat"

text \<open>One number with its unit, off the front of the text.\<close>

definition parse_component :: "float_frac \<Rightarrow> string \<Rightarrow> duration_error + (nat \<times> string)" where
  "parse_component frac s =
     (case s of
        [] \<Rightarrow> Inl InvalidDuration
      | c # _ \<Rightarrow>
          if \<not> unit_stop c then Inl InvalidDuration
          else case leading_int 0 s of
              None \<Rightarrow> Inl InvalidDuration
            | Some (v, s1) \<Rightarrow>
                let pre = (length s1 \<noteq> length s);
                    (f, scale, s2, post) =
                      (case s1 of
                         [] \<Rightarrow> (0, 1, s1, False)
                       | c1 # cs1 \<Rightarrow>
                           if c1 = CHR ''.''
                           then (case leading_fraction 0 1 False cs1 of
                                   (f, scale, r) \<Rightarrow> (f, scale, r, length r \<noteq> length cs1))
                           else (0, 1, s1, False));
                    u = takeWhile (\<lambda>c. \<not> unit_stop c) s2;
                    rest = dropWhile (\<lambda>c. \<not> unit_stop c) s2
                in if \<not> pre \<and> \<not> post then Inl InvalidDuration
                   else if u = [] then Inl MissingUnit
                   else case map_of duration_units u of
                       None \<Rightarrow> Inl (UnknownDurationUnit u)
                     | Some unit \<Rightarrow>
                         if 2 ^ 63 div unit < v then Inl InvalidDuration
                         else let w = (if 0 < f then v * unit + frac f unit scale else v * unit)
                              in if 0 < f \<and> 2 ^ 63 < w then Inl InvalidDuration
                                 else Inr (w, rest))"

lemma leading_int_shorter: "leading_int x s = Some (v, r) \<Longrightarrow> length r \<le> length s"
  by (induction x s rule: leading_int.induct) (auto simp: Let_def split: if_splits)

lemma leading_fraction_shorter:
  "leading_fraction x sc ov s = (v, sc', r) \<Longrightarrow> length r \<le> length s"
proof (induction s arbitrary: x sc ov)
  case (Cons c cs)
  show ?case
    using Cons.prems by (auto simp: Let_def split: if_splits dest!: Cons.IH)
qed simp

lemma parse_component_shorter:
  "parse_component frac s = Inr (w, r) \<Longrightarrow> length r < length s"
  by (auto simp: parse_component_def Let_def split: list.splits option.splits if_splits prod.splits
      dest!: leading_int_shorter leading_fraction_shorter
      intro!: le_less_trans [OF length_dropWhile_le])

text \<open>
  The sum is a \<open>uint64\<close>: two components of 2^63 each wrap it to zero, so it is kept modulo
  2^64 rather than as an unbounded number.
\<close>

function parse_components :: "float_frac \<Rightarrow> nat \<Rightarrow> string \<Rightarrow> duration_error + nat" where
  "parse_components frac d s =
     (if s = [] then Inr d
      else case parse_component frac s of
          Inl e \<Rightarrow> Inl e
        | Inr (v, rest) \<Rightarrow>
            let d' = (d + v) mod 2 ^ 64
            in if 2 ^ 63 < d' then Inl InvalidDuration else parse_components frac d' rest)"
  by pat_completeness auto
termination
  by (relation "measure (\<lambda>(frac, d, s). length s)") (auto dest!: parse_component_shorter)

declare parse_components.simps [simp del]

definition parse_duration :: "float_frac \<Rightarrow> string \<Rightarrow> duration_error + go_duration" where
  "parse_duration frac s =
     (let neg = (s \<noteq> [] \<and> hd s = CHR ''-'');
          s' = (if s \<noteq> [] \<and> (hd s = CHR ''-'' \<or> hd s = CHR ''+'') then tl s else s)
      in if s' = ''0'' then Inr 0
         else if s' = [] then Inl InvalidDuration
         else case parse_components frac 0 s' of
             Inl e \<Rightarrow> Inl e
           | Inr d \<Rightarrow>
               if neg then Inr (- word_of_int (int d))
               else if 2 ^ 63 - 1 < d then Inl InvalidDuration
               else Inr (word_of_int (int d)))"

section \<open>Reading back what was rendered\<close>

text \<open>
  What IEEE double arithmetic gives where nothing rounds: \<open>scale\<close> divides \<open>unit\<close>, both are at
  most 10^9, and the digits are below \<open>scale\<close>, so quotient and product are integers far
  below 2^53.
\<close>

definition float_frac_exact :: "float_frac \<Rightarrow> bool" where
  "float_frac_exact frac \<longleftrightarrow>
     (\<forall>f scale unit. scale dvd unit \<longrightarrow> unit \<le> 10 ^ 9 \<longrightarrow> f < scale \<longrightarrow>
        frac f unit scale = f * (unit div scale))"

fun digits_val :: "nat \<Rightarrow> string \<Rightarrow> nat" where
  "digits_val x [] = x"
| "digits_val x (c # cs) = digits_val (x * 10 + (byte c - 48)) cs"

definition all_digits :: "string \<Rightarrow> bool" where
  "all_digits ds \<longleftrightarrow> (\<forall>c \<in> set ds. is_digit c)"

lemma all_digits_simps [simp]:
  "all_digits []" "all_digits (c # cs) \<longleftrightarrow> is_digit c \<and> all_digits cs"
  by (auto simp: all_digits_def)

lemma all_digits_format_nat [simp]: "all_digits (format_nat n)"
  by (auto simp: all_digits_def intro: format_nat_digits)

lemma digits_val_shift: "digits_val x ds = x * 10 ^ length ds + digits_val 0 ds"
proof (induction ds arbitrary: x)
  case (Cons c cs)
  show ?case
    by (simp add: Cons.IH [of "x * 10 + (byte c - 48)"] Cons.IH [of "byte c - 48"] algebra_simps)
qed simp

lemma digits_val_bound: "all_digits ds \<Longrightarrow> digits_val 0 ds < 10 ^ length ds"
proof (induction ds)
  case (Cons c cs)
  let ?P = "10 ^ length cs :: nat"
  from Cons have "digits_val 0 (c # cs) < (byte c - 48) * ?P + ?P"
    by (simp add: digits_val_shift [of "byte c - 48"])
  also have "\<dots> = Suc (byte c - 48) * ?P" by simp
  also have "\<dots> \<le> 10 * ?P"
    by (rule mult_right_mono) (use Cons.prems in \<open>auto simp: is_digit_def\<close>)
  finally show ?case by simp
qed simp

definition stops_digits :: "string \<Rightarrow> bool" where
  "stops_digits r \<longleftrightarrow> r = [] \<or> \<not> is_digit (hd r)"

lemma leading_int_stop: "stops_digits r \<Longrightarrow> leading_int v r = Some (v, r)"
  by (cases r) (auto simp: stops_digits_def)

lemma leading_int_append:
  "all_digits ds \<Longrightarrow> leading_int x (ds @ r) =
     (case leading_int x ds of None \<Rightarrow> None | Some (v, _) \<Rightarrow> leading_int v r)"
  by (induction ds arbitrary: x) (auto simp: Let_def)

lemma leading_int_format: "n \<le> 2 ^ 63 \<Longrightarrow> leading_int 0 (format_nat n) = Some (n, [])"
proof (induction n rule: format_nat.induct)
  case (1 n)
  show ?case
  proof (cases "n < 10")
    case True
    then show ?thesis by (simp add: format_nat.simps [of n])
  next
    case False
    with 1 have "leading_int 0 (format_nat (n div 10)) = Some (n div 10, [])" by simp
    moreover have "n div 10 \<le> 2 ^ 63 div 10" using 1 by (intro div_le_mono)
    ultimately show ?thesis using False 1
      by (simp add: format_nat.simps [of n] leading_int_append Let_def)
  qed
qed

lemma leading_fraction_digits:
  assumes "stops_digits r"
  shows "all_digits ds \<Longrightarrow> x < scale \<Longrightarrow> scale * 10 ^ length ds \<le> 10 ^ 9 \<Longrightarrow>
    leading_fraction x scale False (ds @ r) = (digits_val x ds, scale * 10 ^ length ds, r)"
proof (induction ds arbitrary: x scale)
  case Nil
  with assms show ?case by (cases r) (auto simp: stops_digits_def)
next
  case (Cons c cs)
  have "scale * 1 \<le> scale * 10 ^ length (c # cs)" by (rule mult_left_mono) auto
  with Cons.prems(2,3) have x: "x < 10 ^ 9" by (metis mult_1_right less_le_trans)
  have d: "byte c - 48 < 10" using Cons.prems by (auto simp: is_digit_def)
  have "x * 10 + (byte c - 48) < scale * 10" using d Cons.prems(2) by simp
  then have "leading_fraction (x * 10 + (byte c - 48)) (scale * 10) False (cs @ r) =
      (digits_val (x * 10 + (byte c - 48)) cs, scale * 10 * 10 ^ length cs, r)"
    by (rule Cons.IH [rotated]) (use Cons.prems in \<open>auto simp: algebra_simps\<close>)
  moreover have "\<not> (2 ^ 63 - 1) div 10 < x" "\<not> 2 ^ 63 < x * 10 + (byte c - 48)"
    using x d by auto
  ultimately show ?case using Cons.prems(1)
    by (simp only: append_Cons leading_fraction.simps all_digits_simps Let_def if_False if_True
        not_True_eq_False not_False_eq_True digits_val.simps length_Cons power_Suc mult.assoc
        simp_thms)
qed

text \<open>A rendered fraction: nothing, or a point and at most \<open>prec\<close> digits worth \<open>low\<close>.\<close>

definition fraction_text :: "string \<Rightarrow> nat \<Rightarrow> nat \<Rightarrow> bool" where
  "fraction_text fr prec low \<longleftrightarrow>
     (fr = [] \<and> low = 0) \<or>
     (\<exists>ds. fr = CHR ''.'' # ds \<and> ds \<noteq> [] \<and> all_digits ds \<and> length ds \<le> prec \<and>
        digits_val 0 ds * 10 ^ (prec - length ds) = low)"

lemma fmt_frac_loop_spec:
  "all_digits acc \<Longrightarrow> length acc \<le> n \<Longrightarrow> digits_val 0 acc * 10 ^ (n - length acc) = low \<Longrightarrow>
   \<exists>acc'. fmt_frac_loop i (acc \<noteq> []) v acc = (acc' \<noteq> [], acc', v div 10 ^ i) \<and>
     all_digits acc' \<and> length acc' \<le> n + i \<and>
     digits_val 0 acc' * 10 ^ (n + i - length acc') = low + 10 ^ n * (v mod 10 ^ i)"
proof (induction i arbitrary: v acc n low)
  case 0
  then show ?case by auto
next
  case (Suc i)
  let ?d = "v mod 10"
  let ?p = "acc \<noteq> [] \<or> ?d \<noteq> 0"
  let ?acc = "if ?p then digit_char ?d # acc else acc"
  have p: "(?acc \<noteq> []) = ?p" by simp
  have "digits_val 0 ?acc * 10 ^ (Suc n - length ?acc) = low + 10 ^ n * ?d"
  proof (cases ?p)
    case True
    have "10 ^ length acc * 10 ^ (n - length acc) = (10 ^ n :: nat)"
      using Suc.prems(2) by (simp flip: power_add)
    then have "?d * 10 ^ length acc * 10 ^ (n - length acc) = 10 ^ n * ?d"
      by (metis mult.assoc mult.commute)
    with True Suc.prems show ?thesis
      by (simp add: digits_val_shift [of ?d acc] add_mult_distrib)
  next
    case False
    with Suc.prems show ?thesis by auto
  qed
  moreover have "all_digits ?acc" "length ?acc \<le> Suc n" using Suc.prems by auto
  ultimately obtain acc' where acc':
    "fmt_frac_loop i (?acc \<noteq> []) (v div 10) ?acc = (acc' \<noteq> [], acc', v div 10 div 10 ^ i)"
    "all_digits acc'" "length acc' \<le> Suc n + i"
    "digits_val 0 acc' * 10 ^ (Suc n + i - length acc') =
       low + 10 ^ n * ?d + 10 ^ Suc n * (v div 10 mod 10 ^ i)"
    using Suc.IH [of ?acc "Suc n" "low + 10 ^ n * ?d" "v div 10"] by blast
  have "v mod 10 ^ Suc i = ?d + 10 * (v div 10 mod 10 ^ i)"
    by (simp add: mod_mult2_eq)
  moreover have "fmt_frac_loop (Suc i) (acc \<noteq> []) v acc =
      fmt_frac_loop i (?acc \<noteq> []) (v div 10) ?acc"
    by (cases ?p) (auto simp: Let_def)
  ultimately show ?case using acc'
    by (intro exI [of _ acc']) (simp add: div_mult2_eq algebra_simps)
qed

lemma fmt_frac_spec:
  obtains fr where "fmt_frac v prec = (fr, v div 10 ^ prec)" "fraction_text fr prec (v mod 10 ^ prec)"
proof -
  obtain acc where "fmt_frac_loop prec False v [] = (acc \<noteq> [], acc, v div 10 ^ prec)"
    "all_digits acc" "length acc \<le> prec"
    "digits_val 0 acc * 10 ^ (prec - length acc) = v mod 10 ^ prec"
    using fmt_frac_loop_spec [of "[]" 0 0 prec v] by auto
  then show thesis
    by (intro that [of "if acc \<noteq> [] then CHR ''.'' # acc else acc"])
      (auto simp: fmt_frac_def fraction_text_def)
qed

text \<open>One rendered component parses to its value, whatever follows it.\<close>

definition starts_component :: "string \<Rightarrow> bool" where
  "starts_component r \<longleftrightarrow> r = [] \<or> unit_stop (hd r)"

definition unit_name :: "string \<Rightarrow> bool" where
  "unit_name u \<longleftrightarrow> u \<noteq> [] \<and> (\<forall>c \<in> set u. \<not> unit_stop c)"

lemma unit_name_take:
  assumes "unit_name u" "starts_component r"
  shows "takeWhile (\<lambda>c. \<not> unit_stop c) (u @ r) = u"
    and "dropWhile (\<lambda>c. \<not> unit_stop c) (u @ r) = r"
  using assms takeWhile_append_stop [of u _ r] dropWhile_append_stop [of u _ r]
  by (auto simp: unit_name_def starts_component_def)

lemma unit_name_stops: "unit_name u \<Longrightarrow> stops_digits (u @ r)"
  by (cases u) (auto simp: unit_name_def stops_digits_def unit_stop_def)

lemma point_stops: "stops_digits (CHR ''.'' # r)"
  by (simp add: stops_digits_def is_digit_def)

lemma fraction_value:
  assumes exact: "float_frac_exact frac" and ds: "all_digits ds" "length ds \<le> p" "p \<le> 9"
  shows "frac (digits_val 0 ds) (10 ^ p) (10 ^ length ds) = digits_val 0 ds * 10 ^ (p - length ds)"
proof -
  have "(10 :: nat) ^ p \<le> 10 ^ 9" using ds(3) by (intro power_increasing) auto
  moreover have "(10 :: nat) ^ length ds dvd 10 ^ p" using ds(2) by (rule le_imp_power_dvd)
  ultimately show ?thesis
    using exact digits_val_bound [OF ds(1)] ds(2)
    by (simp add: float_frac_exact_def power_diff)
qed

lemma parse_component_render:
  assumes exact: "float_frac_exact frac"
    and unit: "unit_name u" "map_of duration_units u = Some n"
    and rest: "starts_component r"
    and fr: "fraction_text fr p low" "fr \<noteq> [] \<Longrightarrow> n = 10 ^ p \<and> p \<le> 9"
    and bound: "v * n + low \<le> 2 ^ 63" "0 < n"
  shows "parse_component frac (format_nat v @ fr @ u @ r) = Inr (v * n + low, r)"
proof -
  note take = unit_name_take [OF unit(1) rest]
  have ne: "u \<noteq> []" using unit(1) by (simp add: unit_name_def)
  have "v * n div n \<le> 2 ^ 63 div n" using bound by (intro div_le_mono) simp
  then have v: "v \<le> 2 ^ 63 div n" using bound(2) by simp
  then have v63: "v \<le> 2 ^ 63" using div_le_dividend le_trans by blast
  obtain c cs where hd: "format_nat v = c # cs" "is_digit c"
    using is_digit_hd_format_nat [of v] by (cases "format_nat v") auto
  have start: "leading_int 0 (format_nat v @ t) = Some (v, t)" if "stops_digits t" for t
    using that v63 by (simp add: leading_int_append leading_int_format leading_int_stop)
  show ?thesis
  proof (cases "fr = []")
    case True
    then have low: "low = 0" using fr(1) by (auto simp: fraction_text_def)
    obtain d ds where d: "u = d # ds" "\<not> unit_stop d"
      using unit(1) by (cases u) (auto simp: unit_name_def)
    with True show ?thesis
      using start [OF unit_name_stops [OF unit(1), of r]] hd take ne unit(2) v low
      by (simp add: parse_component_def Let_def unit_stop_def)
  next
    case False
    with fr obtain ds where ds: "fr = CHR ''.'' # ds" "ds \<noteq> []" "all_digits ds" "length ds \<le> p"
        "digits_val 0 ds * 10 ^ (p - length ds) = low" and p: "n = 10 ^ p" "p \<le> 9"
      by (auto simp: fraction_text_def)
    have "(1 :: nat) * 10 ^ length ds \<le> 10 ^ 9"
      using ds(4) p(2) power_increasing [of "length ds" 9 "10 :: nat"] by simp
    then have lf: "leading_fraction 0 1 False (ds @ u @ r) =
        (digits_val 0 ds, 10 ^ length ds, u @ r)"
      using leading_fraction_digits [OF unit_name_stops [OF unit(1), of r] ds(3), of 0 1] by simp
    have "frac (digits_val 0 ds) n (10 ^ length ds) = low"
      using fraction_value [OF exact ds(3,4) p(2)] ds(5) p(1) by simp
    moreover have "digits_val 0 ds = 0 \<Longrightarrow> low = 0" using ds(5) by auto
    ultimately show ?thesis
      using start [OF point_stops, of "ds @ u @ r"] hd take ne unit(2) v ds(1,2) lf bound(1)
      by (simp add: parse_component_def Let_def unit_stop_def)
  qed
qed

lemma parse_components_step:
  "parse_component frac s = Inr (w, r) \<Longrightarrow> s \<noteq> [] \<Longrightarrow> d + w \<le> 2 ^ 63 \<Longrightarrow>
     parse_components frac d s = parse_components frac (d + w) r"
  by (simp add: parse_components.simps [of frac d s])

lemma parse_components_Nil [simp]: "parse_components frac d [] = Inr d"
  by (simp add: parse_components.simps)

lemma starts_component_format [simp]: "starts_component (format_nat n @ t)"
  by (simp add: starts_component_def unit_stop_def)

lemma unit_names [simp]:
  "unit_name ''ns''" "unit_name (micro_sign @ ''s'')" "unit_name ''ms''"
  "unit_name ''s''" "unit_name ''m''" "unit_name ''h''"
  by (simp_all add: unit_name_def unit_stop_def is_digit_def micro_sign_def text_simps of_char_of)

lemma unit_values [simp]:
  "map_of duration_units ''ns'' = Some 1"
  "map_of duration_units (micro_sign @ ''s'') = Some 1000"
  "map_of duration_units ''ms'' = Some 1000000"
  "map_of duration_units ''s'' = Some 1000000000"
  "map_of duration_units ''m'' = Some 60000000000"
  "map_of duration_units ''h'' = Some 3600000000000"
  by (simp_all add: duration_units_def micro_sign_def text_simps)

lemma parse_with_frac:
  assumes "float_frac_exact frac" "unit_name u" "map_of duration_units u = Some (10 ^ p)"
    "p \<le> 9" "d + n \<le> 2 ^ 63"
  shows "parse_components frac d (with_frac n p u) = Inr (d + n)"
proof -
  obtain fr where fr: "fmt_frac n p = (fr, n div 10 ^ p)" "fraction_text fr p (n mod 10 ^ p)"
    by (rule fmt_frac_spec)
  have "parse_component frac (format_nat (n div 10 ^ p) @ fr @ u @ []) =
      Inr (n div 10 ^ p * 10 ^ p + n mod 10 ^ p, [])"
    by (rule parse_component_render [OF assms(1,2,3) _ fr(2)])
      (use assms(4,5) in \<open>simp_all add: starts_component_def div_mult_mod_eq [of n "10 ^ p"] del: One_nat_def\<close>)
  then have "parse_component frac (format_nat (n div 10 ^ p) @ fr @ u) = Inr (n, [])"
    by (simp only: div_mult_mod_eq append_Nil2)
  then show ?thesis
    using assms(5) by (simp add: with_frac_def fr(1) parse_components_step)
qed

lemma parse_whole:
  assumes "float_frac_exact frac" "unit_name u" "map_of duration_units u = Some n" "0 < n"
    "d + v * n \<le> 2 ^ 63" "starts_component r"
  shows "parse_components frac d (format_nat v @ u @ r) = parse_components frac (d + v * n) r"
proof -
  have "parse_component frac (format_nat v @ [] @ u @ r) = Inr (v * n + 0, r)"
    by (rule parse_component_render [OF assms(1,2,3,6)]) (use assms in \<open>auto simp: fraction_text_def\<close>)
  then show ?thesis using assms(5) by (simp add: parse_components_step)
qed

lemma parse_clock:
  fixes h m k low :: nat
  assumes exact: "float_frac_exact frac" and fr: "fraction_text fr 9 low"
    and u: "h * 3600000000000 + m * 60000000000 + (k * 1000000000 + low) = u" "u \<le> 2 ^ 63"
  shows "h = 0 \<Longrightarrow> m = 0 \<Longrightarrow> parse_components frac 0 (format_nat k @ fr @ ''s'') = Inr u"
    and "h = 0 \<Longrightarrow> parse_components frac 0
      (format_nat m @ ''m'' @ format_nat k @ fr @ ''s'') = Inr u"
    and "parse_components frac 0
      (format_nat h @ ''h'' @ format_nat m @ ''m'' @ format_nat k @ fr @ ''s'') = Inr u"
proof -
  have last: "parse_components frac d (format_nat k @ fr @ ''s'') = Inr u"
    if "d + (k * 1000000000 + low) = u" for d
  proof -
    have "parse_component frac (format_nat k @ fr @ ''s'' @ []) = Inr (k * 1000000000 + low, [])"
      by (rule parse_component_render [OF exact _ _ _ fr])
        (use that u(2) in \<open>simp_all add: starts_component_def\<close>)
    then show ?thesis using that u(2) by (simp add: parse_components_step)
  qed
  have mid: "parse_components frac d (format_nat m @ ''m'' @ format_nat k @ fr @ ''s'') = Inr u"
    if "d + m * 60000000000 + (k * 1000000000 + low) = u" for d
    using that u(2)
    by (subst parse_whole [OF exact, where n = 60000000000]) (simp_all add: last)
  show "h = 0 \<Longrightarrow> m = 0 \<Longrightarrow> parse_components frac 0 (format_nat k @ fr @ ''s'') = Inr u"
    using u by (intro last) simp
  show "h = 0 \<Longrightarrow> parse_components frac 0
      (format_nat m @ ''m'' @ format_nat k @ fr @ ''s'') = Inr u"
    using u by (intro mid) simp
  show "parse_components frac 0
      (format_nat h @ ''h'' @ format_nat m @ ''m'' @ format_nat k @ fr @ ''s'') = Inr u"
    using u by (subst parse_whole [OF exact, where n = 3600000000000]) (simp_all add: mid [simplified])
qed

lemma clock_split:
  fixes u :: nat
  defines "secs \<equiv> u div 1000000000"
  shows "secs div 60 div 60 * 3600000000000 + secs div 60 mod 60 * 60000000000 +
    (secs mod 60 * 1000000000 + u mod 1000000000) = u"
proof -
  have "u = secs * 1000000000 + u mod 1000000000" by (simp add: secs_def)
  moreover have "secs = secs div 60 * 60 + secs mod 60" by simp
  moreover have "secs div 60 = secs div 60 div 60 * 60 + secs div 60 mod 60" by simp
  ultimately show ?thesis by linarith
qed

lemma clock_string:
  assumes "\<not> u < 1000000000" "fmt_frac u 9 = (fr, secs)"
  shows "duration_magnitude_string u =
    (if secs div 60 = 0 then format_nat (secs mod 60) @ fr @ ''s''
     else if secs div 60 div 60 = 0
     then format_nat (secs div 60 mod 60) @ ''m'' @ format_nat (secs mod 60) @ fr @ ''s''
     else format_nat (secs div 60 div 60) @ ''h'' @ format_nat (secs div 60 mod 60) @ ''m'' @
       format_nat (secs mod 60) @ fr @ ''s'')"
  using assms by (auto simp: duration_magnitude_string_def Let_def)

lemma parse_magnitude:
  assumes "float_frac_exact frac" "u \<le> 2 ^ 63"
  shows "parse_components frac 0 (duration_magnitude_string u) = Inr u"
proof -
  consider (zero) "u = 0" | (ns) "0 < u" "u < 1000" | (us) "\<not> u < 1000" "u < 1000000"
    | (ms) "\<not> u < 1000000" "u < 1000000000" | (s) "\<not> u < 1000000000" by linarith
  then show ?thesis
  proof cases
    case zero
    have "format_nat 0 = ''0''" by (simp add: format_nat.simps digit_char_def text_simps)
    then have "parse_components frac 0 ''0s'' = Inr 0"
      using parse_whole [OF assms(1), of "''s''" 1000000000 0 0 "[]"]
      by (simp add: starts_component_def)
    with zero show ?thesis by (simp add: duration_magnitude_string_def)
  next
    case ns
    then show ?thesis
      using parse_with_frac [OF assms(1), of "''ns''" 0 0 u] assms(2)
      by (simp add: duration_magnitude_string_def)
  next
    case us
    then show ?thesis
      using parse_with_frac [OF assms(1), of "micro_sign @ ''s''" 3 0 u] assms(2)
      by (simp add: duration_magnitude_string_def)
  next
    case ms
    then show ?thesis
      using parse_with_frac [OF assms(1), of "''ms''" 6 0 u] assms(2)
      by (simp add: duration_magnitude_string_def)
  next
    case s
    obtain fr where fr: "fmt_frac u 9 = (fr, u div 1000000000)"
      "fraction_text fr 9 (u mod 1000000000)"
      using fmt_frac_spec [of u 9] by auto
    note clock = parse_clock [OF assms(1) fr(2) clock_split assms(2)]
    show ?thesis using clock unfolding clock_string [OF s fr(1)] by simp
  qed
qed

text \<open>Every duration renders to text that parses back to it.\<close>

lemma magnitude_hd: "is_digit (hd (duration_magnitude_string u)) \<and> duration_magnitude_string u \<noteq> []"
proof -
  have "is_digit CHR ''0''" by (simp add: is_digit_def)
  then show ?thesis
    by (auto simp: duration_magnitude_string_def with_frac_def Let_def split: prod.splits)
qed

lemma magnitude_not_bare_zero: "duration_magnitude_string u \<noteq> ''0''"
proof -
  have "last (duration_magnitude_string u) = CHR ''s''"
    by (auto simp: duration_magnitude_string_def with_frac_def Let_def split: prod.splits)
  then show ?thesis by auto
qed

lemma parse_duration_string:
  assumes "float_frac_exact frac"
  shows "parse_duration frac (duration_string d) = Inr d"
proof (cases "sint d < 0")
  case True
  have "nat (- sint d) \<le> 2 ^ 63" using sint64_ge [of d] by simp
  with True assms show ?thesis
    using magnitude_hd [of "nat (- sint d)"] magnitude_not_bare_zero [of "nat (- sint d)"]
    by (simp add: parse_duration_def duration_string_def Let_def parse_magnitude)
next
  case False
  have "nat (sint d) < 2 ^ 63" using sint64_lt [of d] False by simp
  moreover obtain c cs where "duration_magnitude_string (nat (sint d)) = c # cs" "is_digit c"
    using magnitude_hd [of "nat (sint d)"] by (cases "duration_magnitude_string (nat (sint d))") auto
  ultimately show ?thesis
    using False assms magnitude_not_bare_zero [of "nat (sint d)"]
      parse_magnitude [OF assms, of "nat (sint d)"]
    by (auto simp: parse_duration_def duration_string_def Let_def digit_not_sign)
qed

end
