(* ===== verification/Config_Types.thy ===== *)
theory Config_Types
  imports Go_Time
begin

text \<open>
  \<open>internal/configtype\<close>: the settings types that read the way an operator writes them. A
  \<open>ByteSize\<close> is a signed 64-bit count, so the multiplication that applies a unit wraps and
  the code's division check is what detects it.
\<close>

section \<open>ByteSize\<close>

type_synonym byte_size = int64

text \<open>The unit table, in the order the source lists it; lookup is by the lower-cased suffix.\<close>

definition byte_units :: "(string \<times> int64) list" where
  "byte_units =
     [(''b'', 1),
      (''kib'', push_bit 10 1),
      (''mib'', push_bit 20 1),
      (''gib'', push_bit 30 1),
      (''tib'', push_bit 40 1),
      (''kb'', 1000),
      (''mb'', 1000000),
      (''gb'', 1000000000),
      (''tb'', 1000000000000)]"

definition render_units :: "(string \<times> int64) list" where
  "render_units =
     [(''TiB'', push_bit 40 1),
      (''GiB'', push_bit 30 1),
      (''MiB'', push_bit 20 1),
      (''KiB'', push_bit 10 1)]"

definition byte_size_bytes :: "byte_size \<Rightarrow> int64" where
  "byte_size_bytes b = b"

fun render_with :: "(string \<times> int64) list \<Rightarrow> byte_size \<Rightarrow> string" where
  "render_with [] b = format_int (sint b) @ ''B''"
| "render_with ((suffix, unit) # units) b =
     (if b \<noteq> 0 \<and> int64_mod b unit = 0
      then format_int (sint (int64_div b unit)) @ suffix
      else render_with units b)"

definition byte_size_string :: "byte_size \<Rightarrow> string" where
  "byte_size_string b = render_with render_units b"

datatype byte_size_error =
    ParsingByteSize string num_error
  | UnknownUnit string string
  | DoesNotFit string int64 string

definition unit_cutset :: string where
  "unit_cutset = ''abcdefghijklmnopqrstuvwxyzABCDEFGHIJKLMNOPQRSTUVWXYZ ''"

text \<open>
  The receiver is the value being overwritten: an error and empty text both leave it as it
  was, the first with an error and the second without.
\<close>

definition byte_size_unmarshal_text :: "byte_size \<Rightarrow> bytes \<Rightarrow> byte_size \<times> byte_size_error option" where
  "byte_size_unmarshal_text b text =
     (let trimmed = trim_space text in
      if trimmed = [] then (b, None)
      else
        let digits = trim_right trimmed unit_cutset in
        case parse_int digits of
          Inl err \<Rightarrow> (b, Some (ParsingByteSize text err))
        | Inr count \<Rightarrow>
            let suffix = to_lower (trim_space (drop (length digits) trimmed)) in
            if suffix = [] then (count, None)
            else case map_of byte_units suffix of
                None \<Rightarrow> (b, Some (UnknownUnit text suffix))
              | Some multiplier \<Rightarrow>
                  let scaled = count * multiplier in
                  if int64_div scaled multiplier \<noteq> count
                  then (b, Some (DoesNotFit text count suffix))
                  else (scaled, None))"

definition byte_size_marshal_text :: "byte_size \<Rightarrow> bytes" where
  "byte_size_marshal_text b = byte_size_string b"

subsection \<open>Signed products\<close>

lemma sdiv_pos: "0 < m \<Longrightarrow> (v :: int) sdiv m = (if 0 \<le> v then v div m else - (- v div m))"
  by (auto simp: signed_divide_int_def sgn_if)

lemma smod_pos: "0 < m \<Longrightarrow> (v :: int) smod m = (if 0 \<le> v then v mod m else - (- v mod m))"
  by (auto simp: signed_modulo_int_def sgn_if)

lemma sdiv_mult_cancel_pos:
  assumes "0 < m"
  shows "((c :: int) * m) sdiv m = c"
proof (cases "0 \<le> c")
  case True
  with assms show ?thesis by (simp add: sdiv_pos)
next
  case False
  then have "(c * m) sdiv m = - ((- c) * m div m)"
    using assms by (simp add: sdiv_pos zero_le_mult_iff)
  also have "\<dots> = c" using assms by (subst nonzero_mult_div_cancel_right) auto
  finally show ?thesis .
qed

lemma int_div_le: "0 \<le> a \<Longrightarrow> 0 < b \<Longrightarrow> a div b \<le> (a :: int)"
  using zdiv_mono2 [of a 1 b] by simp

lemma int64_div_sint:
  assumes "0 < sint m"
  shows "sint (int64_div v m) = sint v sdiv sint m"
proof -
  have bounds: "- (2 ^ 63) \<le> sint v" "sint v < 2 ^ 63"
    by (rule sint64_ge sint64_lt)+
  have "- (2 ^ 63) \<le> sint v sdiv sint m \<and> sint v sdiv sint m < 2 ^ 63"
  proof (cases "0 \<le> sint v")
    case True
    then have "0 \<le> sint v div sint m" "sint v div sint m \<le> sint v"
      using assms by (auto simp: pos_imp_zdiv_nonneg_iff intro: int_div_le)
    with True assms bounds show ?thesis by (simp add: sdiv_pos)
  next
    case False
    then have "0 \<le> - sint v div sint m" "- sint v div sint m \<le> - sint v"
      using assms by (auto simp: pos_imp_zdiv_nonneg_iff intro!: int_div_le)
    with False assms bounds show ?thesis by (simp add: sdiv_pos)
  qed
  then show ?thesis by (simp add: int64_div_def sint64_of_int)
qed

text \<open>
  The check \<open>scaled / multiplier != count\<close> is exact: for a multiplier up to 2^40 the
  truncated quotient of a wrapped product differs from the count, because a wrap moves the
  product by a multiple of 2^64 and a quotient equal to the count would put it within one
  multiplier of the true product.
\<close>

lemma int64_mult_wrap: "\<exists>k. sint (v * w :: int64) = sint v * sint w + k * 2 ^ 64"
proof -
  have "take_bit 64 (signed_take_bit 63 (sint v * sint w)) = take_bit 64 (sint v * sint w)"
    by (rule take_bit_signed_take_bit) simp
  then have "sint (v * w) mod 2 ^ 64 = (sint v * sint w) mod 2 ^ 64"
    by (simp add: sint64_mult take_bit_eq_mod)
  then obtain k where "sint (v * w) = sint v * sint w + 2 ^ 64 * k"
    by (metis mod_eqE)
  then show ?thesis by (metis mult.commute)
qed

lemma int64_mult_exact:
  "- (2 ^ 63) \<le> sint v * sint w \<Longrightarrow> sint v * sint w < 2 ^ 63 \<Longrightarrow>
     sint (v * w :: int64) = sint v * sint w"
  by (simp add: sint64_mult signed_take_bit_int_eq_self)

lemma scaled_check_exact:
  assumes "0 < sint m" and "sint m \<le> 2 ^ 40"
  shows "int64_div (c * m) m = c \<longleftrightarrow> - (2 ^ 63) \<le> sint c * sint m \<and> sint c * sint m < 2 ^ 63"
proof
  assume range: "- (2 ^ 63) \<le> sint c * sint m \<and> sint c * sint m < 2 ^ 63"
  then have "sint (c * m) = sint c * sint m" by (intro int64_mult_exact) auto
  then have "sint (int64_div (c * m) m) = sint c"
    using assms by (simp add: int64_div_sint sdiv_mult_cancel_pos)
  then show "int64_div (c * m) m = c" by (simp add: sint64_eq_iff)
next
  assume "int64_div (c * m) m = c"
  then have "sint (c * m) sdiv sint m = sint c"
    using assms int64_div_sint by metis
  then have "sint (c * m) = sint c * sint m + sint (c * m) smod sint m"
    by (metis sdiv_mult_smod_eq)
  moreover have "sint (c * m) smod sint m \<in> {- \<bar>sint m\<bar> + 1..\<bar>sint m\<bar> - 1}"
    by (rule smod_int_range) (use assms in auto)
  moreover obtain k where k: "sint (c * m) = sint c * sint m + k * 2 ^ 64"
    using int64_mult_wrap by blast
  ultimately have "\<bar>k * 2 ^ 64\<bar> < 2 ^ 40" using assms by auto
  then have "k = 0" by (simp add: abs_mult)
  then have "sint (c * m) = sint c * sint m" using k by simp
  then show "- (2 ^ 63) \<le> sint c * sint m \<and> sint c * sint m < 2 ^ 63"
    using sint64_ge [of "c * m"] sint64_lt [of "c * m"] by simp
qed

lemma byte_units_range: "(s, m) \<in> set byte_units \<Longrightarrow> 0 < sint m \<and> sint m \<le> 2 ^ 40"
  by (auto simp: byte_units_def)

subsection \<open>What UnmarshalText accepts\<close>

text \<open>
  The mathematical reading of a byte size: the count times the multiplier of its unit, as
  unbounded integers, when the text has that shape and the product fits an \<open>int64\<close>.
\<close>

definition unit_multiplier :: "string \<Rightarrow> int option" where
  "unit_multiplier suffix =
     (if suffix = [] then Some 1 else map_option sint (map_of byte_units suffix))"

definition byte_size_reading :: "bytes \<Rightarrow> int option" where
  "byte_size_reading text =
     (let trimmed = trim_space text;
          digits = trim_right trimmed unit_cutset
      in case parse_int digits of
           Inl _ \<Rightarrow> None
         | Inr count \<Rightarrow>
             (case unit_multiplier (to_lower (trim_space (drop (length digits) trimmed))) of
                None \<Rightarrow> None
              | Some m \<Rightarrow>
                  if - (2 ^ 63) \<le> sint count * m \<and> sint count * m < 2 ^ 63
                  then Some (sint count * m) else None))"

lemma byte_size_unmarshal_reading:
  assumes "trim_space text \<noteq> []"
  shows "case byte_size_reading text of
      Some i \<Rightarrow> byte_size_unmarshal_text b text = (word_of_int i, None)
    | None \<Rightarrow> \<exists>err. byte_size_unmarshal_text b text = (b, Some err)"
proof -
  let ?t = "trim_space text"
  let ?d = "trim_right ?t unit_cutset"
  let ?s = "to_lower (trim_space (drop (length ?d) ?t))"
  show ?thesis
  proof (cases "parse_int ?d")
    case (Inl e)
    with assms show ?thesis
      by (simp add: byte_size_reading_def byte_size_unmarshal_text_def Let_def)
  next
    case count: (Inr c)
    show ?thesis
    proof (cases "?s = []")
      case True
      with assms count show ?thesis
        using sint64_ge [of c] sint64_lt [of c]
        by (simp add: byte_size_reading_def byte_size_unmarshal_text_def unit_multiplier_def
            Let_def)
    next
      case nonempty: False
      show ?thesis
      proof (cases "map_of byte_units ?s")
        case None
        with assms count nonempty show ?thesis
          by (simp add: byte_size_reading_def byte_size_unmarshal_text_def unit_multiplier_def
              Let_def)
      next
        case (Some m)
        then have m: "0 < sint m" "sint m \<le> 2 ^ 40"
          using byte_units_range map_of_SomeD by metis+
        show ?thesis
        proof (cases "- (2 ^ 63) \<le> sint c * sint m \<and> sint c * sint m < 2 ^ 63")
          case True
          then have "int64_div (c * m) m = c" using scaled_check_exact [OF m] by blast
          moreover have "c * m = word_of_int (sint c * sint m)" by simp
          ultimately show ?thesis using Some True assms count nonempty
            by (simp add: byte_size_reading_def byte_size_unmarshal_text_def
                unit_multiplier_def Let_def del: of_int_mult)
        next
          case False
          then have "int64_div (c * m) m \<noteq> c" using scaled_check_exact [OF m] by blast
          with Some False assms count nonempty show ?thesis
            by (simp add: byte_size_reading_def byte_size_unmarshal_text_def
                unit_multiplier_def Let_def del: of_int_mult)
        qed
      qed
    qed
  qed
qed

subsection \<open>Rendering and reading back\<close>

definition unit_suffix :: "string \<Rightarrow> bool" where
  "unit_suffix u \<longleftrightarrow> u \<in> {''B'', ''TiB'', ''GiB'', ''MiB'', ''KiB''}"

lemma unit_suffix_facts:
  assumes "unit_suffix u"
  shows "u \<noteq> []" "solid (hd u)" "solid (last u)" "set u \<subseteq> set unit_cutset"
  using assms by (auto simp: unit_suffix_def solid_def unit_cutset_def)

lemma digit_not_in_cutset: "is_digit c \<Longrightarrow> c \<notin> set unit_cutset"
  by (auto simp: is_digit_def unit_cutset_def)

lemma reading_of_rendering:
  assumes "unit_suffix u" and "map_of byte_units (to_lower u) = Some m"
    and "- (2 ^ 63) \<le> sint q * sint m" "sint q * sint m < 2 ^ 63"
  shows "trim_space (format_int (sint (q :: int64)) @ u) \<noteq> []"
    and "byte_size_reading (format_int (sint q) @ u) = Some (sint q * sint m)"
proof -
  note u = unit_suffix_facts [OF assms(1)]
  have t: "trim_space (format_int (sint q) @ u) = format_int (sint q) @ u"
    by (rule trim_space_solid) (simp add: u solid_hd_format_int)
  have d: "trim_right (format_int (sint q) @ u) unit_cutset = format_int (sint q)"
    by (rule trim_right_append_stop)
      (use u digit_not_in_cutset [OF last_format_int] in auto)
  have w: "trim_space u = u" by (rule trim_space_solid) (simp add: u)
  show "trim_space (format_int (sint q) @ u) \<noteq> []" by (simp add: t)
  show "byte_size_reading (format_int (sint q) @ u) = Some (sint q * sint m)"
    using assms u by (simp add: byte_size_reading_def Let_def t d w parse_int_format
        unit_multiplier_def to_lower_def)
qed

lemma int64_mod_zero_exact:
  assumes "0 < sint m" "int64_mod b m = 0"
  shows "sint (int64_div b m) * sint m = sint b"
proof -
  have "sint b smod sint m \<in> {- \<bar>sint m\<bar> + 1..\<bar>sint m\<bar> - 1}"
    by (rule smod_int_range) (use assms in auto)
  then have "- (2 ^ 63) \<le> sint b smod sint m" "sint b smod sint m < 2 ^ 63"
    using assms sint64_lt [of m] by auto
  then have "sint (int64_mod b m) = sint b smod sint m"
    unfolding int64_mod_def by (rule sint64_of_int)
  then have "sint b smod sint m = 0" using assms by simp
  then show ?thesis using sdiv_mult_smod_eq [of "sint b" "sint m"] assms
    by (simp add: int64_div_sint)
qed

definition renders_as :: "byte_size \<Rightarrow> string \<Rightarrow> bool" where
  "renders_as b s \<longleftrightarrow> (\<exists>q u m. s = format_int (sint (q :: int64)) @ u \<and> unit_suffix u \<and>
     map_of byte_units (to_lower u) = Some m \<and> sint q * sint m = sint b)"

lemma renders_asI:
  "unit_suffix u \<Longrightarrow> map_of byte_units (to_lower u) = Some m \<Longrightarrow> sint q * sint m = sint b \<Longrightarrow>
     renders_as b (format_int (sint (q :: int64)) @ u)"
  unfolding renders_as_def by blast

lemma renders_as_unit:
  assumes "int64_mod b m = 0" "unit_suffix u" "map_of byte_units (to_lower u) = Some m"
  shows "renders_as b (format_int (sint (int64_div b m)) @ u)"
  using assms byte_units_range [OF map_of_SomeD]
  by (intro renders_asI [where m = m] int64_mod_zero_exact) auto

lemma render_with_renders:
  assumes "\<And>u m. (u, m) \<in> set units \<Longrightarrow>
      unit_suffix u \<and> map_of byte_units (to_lower u) = Some m"
  shows "renders_as b (render_with units b)"
  using assms
proof (induction units b rule: render_with.induct)
  case (1 b)
  have "renders_as b (format_int (sint b) @ ''B'')"
    by (rule renders_asI [where m = 1])
      (simp_all add: unit_suffix_def to_lower_def lower_byte_def is_upper_def byte_units_def
        text_simps)
  then show ?case by simp
next
  case (2 u m units b)
  then show ?case by (auto intro: renders_as_unit)
qed

lemma render_units_known:
  "(u, m) \<in> set render_units \<Longrightarrow> unit_suffix u \<and> map_of byte_units (to_lower u) = Some m"
  by (auto simp: render_units_def unit_suffix_def to_lower_def lower_byte_def is_upper_def
      byte_units_def text_simps)

lemma byte_size_string_renders: "renders_as b (byte_size_string b)"
  unfolding byte_size_string_def by (rule render_with_renders) (rule render_units_known)

lemma byte_size_text_round_trip:
  "byte_size_unmarshal_text b0 (byte_size_marshal_text b) = (b, None)"
proof -
  obtain q u m where r: "byte_size_string b = format_int (sint (q :: int64)) @ u" "unit_suffix u"
    "map_of byte_units (to_lower u) = Some m" "sint q * sint m = sint b"
    using byte_size_string_renders unfolding renders_as_def by blast
  have range: "- (2 ^ 63) \<le> sint q * sint m" "sint q * sint m < 2 ^ 63"
    unfolding r(4) by (rule sint64_ge sint64_lt)+
  show ?thesis
    using byte_size_unmarshal_reading [OF reading_of_rendering(1) [OF r(2,3) range], of b0]
    by (simp add: byte_size_marshal_text_def r(1) reading_of_rendering(2) [OF r(2,3) range]
        r(4) del: of_int_mult)
qed

section \<open>Duration\<close>

definition duration_duration :: "go_duration \<Rightarrow> go_duration" where
  "duration_duration d = d"

datatype duration_text_error = ParsingDuration bytes duration_error

definition duration_unmarshal_text ::
    "float_frac \<Rightarrow> go_duration \<Rightarrow> bytes \<Rightarrow> go_duration \<times> duration_text_error option" where
  "duration_unmarshal_text frac d text =
     (if text = [] then (d, None)
      else case parse_duration frac text of
          Inl err \<Rightarrow> (d, Some (ParsingDuration text err))
        | Inr parsed \<Rightarrow> (parsed, None))"

definition duration_marshal_text :: "go_duration \<Rightarrow> bytes" where
  "duration_marshal_text d = duration_string d"

lemma duration_string_not_Nil [simp]: "duration_string d \<noteq> []"
  using magnitude_hd by (simp add: duration_string_def)

lemma duration_text_round_trip:
  "float_frac_exact frac \<Longrightarrow> duration_unmarshal_text frac d0 (duration_marshal_text d) = (d, None)"
  by (simp add: duration_unmarshal_text_def duration_marshal_text_def parse_duration_string)

section \<open>The TextUnmarshaler and TextMarshaler contract\<close>

text \<open>
  What the environment loader and the log renderer rely on: text a value renders to reads
  back as that value over any previous one, empty text leaves the receiver alone, and so
  does text that is refused.
\<close>

locale text_codec =
  fixes marshal :: "'v \<Rightarrow> bytes"
    and unmarshal :: "'v \<Rightarrow> bytes \<Rightarrow> 'v \<times> 'e option"
  assumes read_back: "unmarshal old (marshal v) = (v, None)"
    and empty_keeps: "unmarshal old [] = (old, None)"
    and error_keeps: "unmarshal old t = (new, Some err) \<Longrightarrow> new = old"
begin

lemma marshal_inject: "marshal v = marshal w \<longleftrightarrow> v = w"
  by (metis read_back prod.inject)

lemma marshal_not_Nil: "v \<noteq> w \<Longrightarrow> marshal v \<noteq> [] \<or> marshal w \<noteq> []"
  by (metis marshal_inject)

text \<open>A run of settings: each text is applied over what the previous ones left.\<close>

lemma fold_last_rendered:
  "fold (\<lambda>t old. fst (unmarshal old t)) (ts @ [marshal v]) old = v"
  by (simp add: read_back)

lemma empties_keep: "fold (\<lambda>t old. fst (unmarshal old t)) (replicate n []) old = old"
  by (induction n) (simp_all add: empty_keeps)

end

interpretation byte_size_codec: text_codec byte_size_marshal_text byte_size_unmarshal_text
proof
  show "byte_size_unmarshal_text old (byte_size_marshal_text v) = (v, None)" for old v
    by (rule byte_size_text_round_trip)
  show "byte_size_unmarshal_text old [] = (old, None)" for old
    by (simp add: byte_size_unmarshal_text_def)
  show "new = old" if "byte_size_unmarshal_text old t = (new, Some err)" for old t new err
    using that by (auto simp: byte_size_unmarshal_text_def Let_def split: if_splits sum.splits option.splits)
qed

text \<open>The duration codec exists for every float step that is exact on small integers.\<close>

locale exact_float =
  fixes frac :: float_frac
  assumes exact: "float_frac_exact frac"

sublocale exact_float \<subseteq> dur: text_codec duration_marshal_text "duration_unmarshal_text frac"
proof
  show "duration_unmarshal_text frac old (duration_marshal_text v) = (v, None)" for old v
    using exact by (rule duration_text_round_trip)
  show "duration_unmarshal_text frac old [] = (old, None)" for old
    by (simp add: duration_unmarshal_text_def)
  show "new = old" if "duration_unmarshal_text frac old t = (new, Some err)" for old t new err
    using that by (auto simp: duration_unmarshal_text_def split: if_splits sum.splits)
qed

text \<open>Integer division computes the step exactly where IEEE arithmetic does.\<close>

definition integer_frac :: float_frac where
  "integer_frac f unit scale = f * unit div scale"

lemma integer_frac_exact: "float_frac_exact integer_frac"
  by (auto simp: float_frac_exact_def integer_frac_def div_mult_swap)

interpretation int_float: exact_float integer_frac
  by unfold_locales (rule integer_frac_exact)

end
