(* ===== verification/Server_Config.thy ===== *)
theory Server_Config
  imports Config_Types
begin

text \<open>
  The configuration structs of \<open>internal/server/server.go\<close> and \<open>admin.go\<close>: a listener's
  addresses, timeouts and limits, the process-wide shutdown sequencing, and their defaults.
  Durations and sizes are the words the code holds.
\<close>

record server_config =
  cfg_addr :: string
  read_header_timeout :: go_duration
  read_timeout :: go_duration
  write_timeout :: go_duration
  idle_timeout :: go_duration
  shutdown_timeout :: go_duration
  max_header_bytes :: byte_size
  max_request_body_bytes :: byte_size
  max_in_flight :: int
  handler_timeout :: go_duration

record lifecycle_config =
  pre_drain_delay :: go_duration

definition second :: go_duration where
  "second = 1000000000"

definition default_addr :: string where
  "default_addr = '':8080''"

definition default_max_header_bytes :: byte_size where
  "default_max_header_bytes = push_bit 20 1"

definition default_max_request_body_bytes :: byte_size where
  "default_max_request_body_bytes = push_bit 20 1"

definition default_pre_drain_delay :: go_duration where
  "default_pre_drain_delay = 5 * second"

definition default_server_config :: server_config where
  "default_server_config =
     \<lparr>cfg_addr = default_addr,
      read_header_timeout = 5 * second,
      read_timeout = 30 * second,
      write_timeout = 30 * second,
      idle_timeout = 120 * second,
      shutdown_timeout = 15 * second,
      max_header_bytes = default_max_header_bytes,
      max_request_body_bytes = default_max_request_body_bytes,
      max_in_flight = 0,
      handler_timeout = 0\<rparr>"

definition default_lifecycle_config :: lifecycle_config where
  "default_lifecycle_config = \<lparr>pre_drain_delay = default_pre_drain_delay\<rparr>"

definition default_admin_addr :: string where
  "default_admin_addr = ''127.0.0.1:9090''"

definition default_admin_config :: server_config where
  "default_admin_config = default_server_config\<lparr>cfg_addr := default_admin_addr\<rparr>"

end
