(* ===== verification/Handler_Chain.thy ===== *)
theory Handler_Chain
  imports Middleware Readiness Serve_Mux Server_Config
begin

text \<open>
  \<open>internal/server/handler.go\<close>, \<open>version.go\<close>, the build identity of \<open>internal/buildinfo\<close> and the
  admin listener of \<open>admin.go\<close>: the handlers the program registers, and the two chains it
  serves. What it does not contain comes as arguments: the user interface \<open>ui\<close>, the metrics
  handler, the profiling handlers of \<open>net/http/pprof\<close>, the answer to a mux redirect and
  OpenTelemetry's \<open>otelhttp.NewHandler\<close>.
\<close>

section \<open>Health and version\<close>

definition health_path :: string where
  "health_path = ''/healthz''"

definition ready_path :: string where
  "ready_path = ''/readyz''"

definition version_path :: string where
  "version_path = ''/version''"

definition new_health_handler :: "logger \<Rightarrow> handler" where
  "new_health_handler lg r w x =
     (case write_json lg w 200 (Inr (JObject [(''status'', JString ''ok'')])) x of
        (out, x') \<Rightarrow> (out, r, x'))"

record build_info =
  build_version :: string
  build_commit :: string
  build_date :: string

text \<open>The toolchain version is the runtime's, an argument where it is read.\<close>

definition build_fields :: "string \<Rightarrow> build_info \<Rightarrow> fields" where
  "build_fields go_version i =
     [(''version'', FString (build_version i)), (''commit'', FString (build_commit i)),
      (''build_date'', FString (build_date i)), (''go_version'', FString go_version)]"

definition build_log :: "string \<Rightarrow> build_info \<Rightarrow> logger \<Rightarrow> exchange \<Rightarrow> exchange" where
  "build_log go_version i lg x =
     log_to lg InfoLevel ''build information'' (build_fields go_version i) x"

text \<open>A start time is seconds since the epoch; RFC 3339 in UTC is its civil date and time.\<close>

record process_info =
  process_build :: build_info
  process_started :: int

definition civil_date :: "int \<Rightarrow> int \<times> int \<times> int" where
  "civil_date days =
     (let z = days + 719468;
          era = z div 146097;
          doe = z - era * 146097;
          yoe = (doe - doe div 1460 + doe div 36524 - doe div 146096) div 365;
          doy = doe - (365 * yoe + yoe div 4 - yoe div 100);
          mp = (5 * doy + 2) div 153;
          d = doy - (153 * mp + 2) div 5 + 1;
          m = (if mp < 10 then mp + 3 else mp - 9)
      in (yoe + era * 400 + (if m \<le> 2 then 1 else 0), m, d))"

definition pad :: "nat \<Rightarrow> int \<Rightarrow> string" where
  "pad n i = (let s = format_int i in replicate (n - length s) CHR ''0'' @ s)"

definition format_rfc3339_utc :: "int \<Rightarrow> string" where
  "format_rfc3339_utc secs =
     (let t = secs mod 86400 in
      case civil_date (secs div 86400) of
        (y, m, d) \<Rightarrow>
          pad 4 y @ ''-'' @ pad 2 m @ ''-'' @ pad 2 d @ ''T'' @
          pad 2 (t div 3600) @ '':'' @ pad 2 (t div 60 mod 60) @ '':'' @ pad 2 (t mod 60) @ ''Z'')"

definition version_json :: "string \<Rightarrow> process_info \<Rightarrow> json" where
  "version_json go_version p =
     JObject
       [(''version'', JString (build_version (process_build p))),
        (''commit'', JString (build_commit (process_build p))),
        (''build_date'', JString (build_date (process_build p))),
        (''go_version'', JString go_version),
        (''started_at'', JString (format_rfc3339_utc (process_started p)))]"

definition new_version_handler :: "string \<Rightarrow> process_info \<Rightarrow> logger \<Rightarrow> handler" where
  "new_version_handler go_version p lg r w x =
     (case write_json lg w 200 (Inr (version_json go_version p)) x of (out, x') \<Rightarrow> (out, r, x'))"

section \<open>Tracing\<close>

definition should_trace :: "request \<Rightarrow> bool" where
  "should_trace r \<longleftrightarrow> url_path r \<noteq> health_path \<and> url_path r \<noteq> ready_path"

text \<open>A provider a caller may leave nil, and the three of them.\<close>

record ('t, 'm, 'p) telemetry =
  tracer_provider :: "'t option"
  meter_provider :: "'m option"
  propagator :: "'p option"

record ('t, 'm, 'p) providers =
  used_tracer :: 't
  used_meter :: 'm
  used_propagator :: 'p

type_synonym ('t, 'm, 'p) otel = "(request \<Rightarrow> bool) \<Rightarrow> ('t, 'm, 'p) providers \<Rightarrow> handler \<Rightarrow> handler"

definition new_tracing_handler ::
    "('t, 'm, 'p) otel \<Rightarrow> ('t, 'm, 'p) providers \<Rightarrow> ('t, 'm, 'p) telemetry \<Rightarrow> handler \<Rightarrow> handler"
where
  "new_tracing_handler otel noop tel next =
     otel should_trace
       \<lparr>used_tracer = (case tracer_provider tel of None \<Rightarrow> used_tracer noop | Some t \<Rightarrow> t),
        used_meter = (case meter_provider tel of None \<Rightarrow> used_meter noop | Some m \<Rightarrow> m),
        used_propagator = (case propagator tel of None \<Rightarrow> used_propagator noop | Some p \<Rightarrow> p)\<rparr>
       next"

section \<open>The application chain\<close>

definition app_routes :: "readiness \<Rightarrow> logger \<Rightarrow> handler \<Rightarrow> route list" where
  "app_routes rd lg ui =
     [mux_route (''GET '' @ health_path) (new_health_handler lg),
      mux_route (''GET '' @ ready_path) (new_readiness_handler rd lg),
      mux_route ''/'' ui]"

definition app_chain ::
    "(string \<Rightarrow> foreign_handler) \<Rightarrow> server_config \<Rightarrow> trusted_proxies \<Rightarrow> readiness \<Rightarrow> logger \<Rightarrow>
     handler \<Rightarrow> handler" where
  "app_chain redirect cfg proxies rd lg ui =
     (let handler = serve_mux redirect (app_routes rd lg ui);
          handler = with_request_body_limit (sint (byte_size_bytes (max_request_body_bytes cfg))) lg handler;
          handler = with_handler_timeout (sint (duration_duration (handler_timeout cfg))) handler;
          handler = with_in_flight_limit (max_in_flight cfg) lg handler;
          handler = with_panic_recovery lg handler;
          handler = with_request_logging proxies lg handler;
          handler = with_request_id proxies handler
      in with_security_headers handler)"

definition new_mux ::
    "('t, 'm, 'p) otel \<Rightarrow> ('t, 'm, 'p) providers \<Rightarrow> (string \<Rightarrow> foreign_handler) \<Rightarrow> server_config \<Rightarrow>
     trusted_proxies \<Rightarrow> readiness \<Rightarrow> logger \<Rightarrow> ('t, 'm, 'p) telemetry \<Rightarrow> handler \<Rightarrow> handler" where
  "new_mux otel noop redirect cfg proxies rd lg tel ui =
     new_tracing_handler otel noop tel (app_chain redirect cfg proxies rd lg ui)"

section \<open>The administrative chain\<close>

record pprof_handlers =
  pprof_index :: foreign_handler
  pprof_cmdline :: foreign_handler
  pprof_profile :: foreign_handler
  pprof_symbol :: foreign_handler
  pprof_trace :: foreign_handler

definition admin_routes ::
    "pprof_handlers \<Rightarrow> string \<Rightarrow> logger \<Rightarrow> readiness \<Rightarrow> process_info \<Rightarrow> handler \<Rightarrow> route list" where
  "admin_routes pp go_version lg rd process metrics =
     [mux_route ''GET /metrics'' metrics,
      mux_route (''GET '' @ health_path) (new_health_handler lg),
      mux_route (''GET '' @ ready_path) (new_readiness_handler rd lg),
      mux_route (''GET '' @ version_path) (new_version_handler go_version process lg),
      mux_route ''GET /debug/pprof/'' (foreign (pprof_index pp)),
      mux_route ''GET /debug/pprof/cmdline'' (foreign (pprof_cmdline pp)),
      mux_route ''GET /debug/pprof/profile'' (foreign (pprof_profile pp)),
      mux_route ''GET /debug/pprof/symbol'' (foreign (pprof_symbol pp)),
      mux_route ''POST /debug/pprof/symbol'' (foreign (pprof_symbol pp)),
      mux_route ''GET /debug/pprof/trace'' (foreign (pprof_trace pp))]"

definition new_admin_mux ::
    "(string \<Rightarrow> foreign_handler) \<Rightarrow> pprof_handlers \<Rightarrow> string \<Rightarrow> server_config \<Rightarrow> logger \<Rightarrow> readiness \<Rightarrow>
     process_info \<Rightarrow> handler \<Rightarrow> handler" where
  "new_admin_mux redirect pp go_version cfg lg rd process metrics =
     (let handler = serve_mux redirect (admin_routes pp go_version lg rd process metrics);
          handler = with_request_body_limit (sint (byte_size_bytes (max_request_body_bytes cfg))) lg handler;
          handler = with_panic_recovery lg handler
      in with_security_headers handler)"

section \<open>Frames\<close>

lemma write_json_handler_keeps:
  assumes "free F ''Content-Type''" "json_messages \<inter> silent F = {}"
  shows "keeps F (\<lambda>r w x. case write_json lg w 200 (Inr j) x of (out, x') \<Rightarrow> (out, r, x'))"
proof (rule keepsI)
  fix r :: request and w and x :: exchange
  assume rec: "writer_recorders w \<subseteq> {..<length (recorders x)}"
  have "evolves F w x (snd (write_json lg w 200 (Inr j) x))"
    by (rule evolves_write_json [OF rec]) (use assms in \<open>auto simp: json_messages_def final_codes_def\<close>)
  then show "evolves F w x (snd (snd (case write_json lg w 200 (Inr j) x of (out, x') \<Rightarrow> (out, r, x')))) \<and>
      same_request r (fst (snd (case write_json lg w 200 (Inr j) x of (out, x') \<Rightarrow> (out, r, x'))))"
    by (simp add: case_prod_beta)
qed

lemma new_health_handler_keeps [keeps_intros]:
  "\<lbrakk>free F ''Content-Type''; json_messages \<inter> silent F = {}\<rbrakk> \<Longrightarrow> keeps F (new_health_handler lg)"
  using write_json_handler_keeps unfolding new_health_handler_def [abs_def] by blast

lemma new_version_handler_keeps [keeps_intros]:
  "\<lbrakk>free F ''Content-Type''; json_messages \<inter> silent F = {}\<rbrakk> \<Longrightarrow> keeps F (new_version_handler v p lg)"
  using write_json_handler_keeps unfolding new_version_handler_def [abs_def] by blast

text \<open>
  A frame the program's own handlers and limits stay within: it pins no header they set, save
  at the value they set it to, and asks for none of their log messages to be absent.
\<close>

definition own_messages :: "string set" where
  "own_messages = json_messages \<union> {''readiness check failed'', ''recovered panic serving request''}"

definition inner_frame :: "frame \<Rightarrow> bool" where
  "inner_frame F \<longleftrightarrow>
     free F ''Content-Type'' \<and> free F ''Content-Length'' \<and> free F ''Allow'' \<and> free F ''Connection'' \<and>
     free F ''Retry-After'' \<and> may_set F ''X-Content-Type-Options'' ''nosniff'' \<and>
     own_messages \<inter> silent F = {}"

lemma inner_frameD:
  assumes "inner_frame F"
  shows "free F ''Content-Type''" "free F ''Content-Length''" "free F ''Allow''" "free F ''Connection''"
    "free F ''Retry-After''" "may_set F ''X-Content-Type-Options'' ''nosniff''"
    "json_messages \<inter> silent F = {}" "''readiness check failed'' \<notin> silent F"
    "''recovered panic serving request'' \<notin> silent F" "''writing error response'' \<notin> silent F"
  using assms by (auto simp: inner_frame_def own_messages_def json_messages_def)

lemma mux_route_handler [simp]: "route_handler (mux_route p h) = h"
  by (simp add: mux_route_def split: prod.splits)

lemma app_mux_keeps:
  assumes "inner_frame F" "keeps F ui" "\<And>target r. stays_within F (redirect target r)"
  shows "keeps F (serve_mux redirect (app_routes rd lg ui))"
  using assms(2,3) inner_frameD [OF assms(1)]
  by (intro serve_mux_keeps)
    (auto simp: app_routes_def intro: new_health_handler_keeps new_readiness_handler_keeps)

lemma admin_mux_keeps:
  assumes "inner_frame F" "keeps F metrics" "\<And>target r. stays_within F (redirect target r)"
    and "\<And>r. stays_within F (pprof_index pp r)" "\<And>r. stays_within F (pprof_cmdline pp r)"
    and "\<And>r. stays_within F (pprof_profile pp r)" "\<And>r. stays_within F (pprof_symbol pp r)"
    and "\<And>r. stays_within F (pprof_trace pp r)"
  shows "keeps F (serve_mux redirect (admin_routes pp v lg rd p metrics))"
proof -
  have "keeps F (foreign (pprof_index pp))" "keeps F (foreign (pprof_cmdline pp))"
    "keeps F (foreign (pprof_profile pp))" "keeps F (foreign (pprof_symbol pp))"
    "keeps F (foreign (pprof_trace pp))"
    by (rule foreign_keeps, rule assms)+
  then show ?thesis
    using assms(2,3) inner_frameD [OF assms(1)]
    by (intro serve_mux_keeps)
      (auto simp: admin_routes_def intro: new_health_handler_keeps new_readiness_handler_keeps
        new_version_handler_keeps)
qed

text \<open>The application chain below request logging.\<close>

definition app_core ::
    "(string \<Rightarrow> foreign_handler) \<Rightarrow> server_config \<Rightarrow> readiness \<Rightarrow> logger \<Rightarrow> handler \<Rightarrow> handler" where
  "app_core redirect cfg rd lg ui =
     with_panic_recovery lg
       (with_in_flight_limit (max_in_flight cfg) lg
         (with_handler_timeout (sint (handler_timeout cfg))
           (with_request_body_limit (sint (max_request_body_bytes cfg)) lg
             (serve_mux redirect (app_routes rd lg ui)))))"

lemma app_chain_core:
  "app_chain redirect cfg proxies rd lg ui =
     with_security_headers
       (with_request_id proxies (with_request_logging proxies lg (app_core redirect cfg rd lg ui)))"
  by (simp add: app_chain_def app_core_def Let_def byte_size_bytes_def duration_duration_def)

lemma app_core_keeps:
  assumes "inner_frame F" "keeps F ui" "\<And>target r. stays_within F (redirect target r)"
  shows "keeps F (app_core redirect cfg rd lg ui)"
  unfolding app_core_def
  by (intro with_panic_recovery_keeps with_in_flight_limit_keeps with_handler_timeout_keeps
      with_request_body_limit_keeps app_mux_keeps assms inner_frameD [OF assms(1)])

lemma app_logged_keeps:
  assumes "inner_frame F" "keeps F ui" "\<And>target r. stays_within F (redirect target r)"
    and "''request served'' \<notin> silent F"
  shows "keeps F (with_request_logging proxies lg (app_core redirect cfg rd lg ui))"
  by (intro with_request_logging_keeps app_core_keeps assms)

section \<open>OpenTelemetry\<close>

text \<open>
  What the program relies on in \<open>otelhttp.NewHandler\<close>: a request the filter refuses goes to the
  wrapped handler as it is; any other goes there as a copy carrying a span, with the writer
  behind a wrapper that offers \<open>Unwrap\<close>.
\<close>

definition otel_transparent ::
    "('t, 'm, 'p) otel \<Rightarrow> (request \<Rightarrow> (string \<times> string) option) \<Rightarrow> bool" where
  "otel_transparent otel span \<longleftrightarrow>
     (\<forall>flt prov next r w x. otel flt prov next r w x =
        (if flt r then
           (case next (r\<lparr>req_ctx := (req_ctx r)\<lparr>ctx_span := span r\<rparr>\<rparr>) (Wrapper w) x of
              (out, _, x') \<Rightarrow> (out, r, x'))
         else next r w x))"

lemma new_mux_passes:
  assumes "otel_transparent otel span"
  obtains r' w' where
    "r' = r \<or> r' = r\<lparr>req_ctx := (req_ctx r)\<lparr>ctx_span := span r\<rparr>\<rparr>" "w' = w \<or> w' = Wrapper w"
    "fst (new_mux otel noop redirect cfg proxies rd lg tel ui r w x) =
       fst (app_chain redirect cfg proxies rd lg ui r' w' x)"
    "snd (snd (new_mux otel noop redirect cfg proxies rd lg tel ui r w x)) =
       snd (snd (app_chain redirect cfg proxies rd lg ui r' w' x))"
proof (cases "should_trace r")
  case True
  then show ?thesis
    using assms that [of "r\<lparr>req_ctx := (req_ctx r)\<lparr>ctx_span := span r\<rparr>\<rparr>" "Wrapper w"]
    by (simp add: new_mux_def new_tracing_handler_def otel_transparent_def case_prod_beta)
next
  case False
  then show ?thesis
    using assms that [of r w]
    by (simp add: new_mux_def new_tracing_handler_def otel_transparent_def)
qed

text \<open>An instance of the contract, for the witnesses: a fixed span for every traced request.\<close>

definition fixed_span_otel :: "(unit, unit, unit) otel" where
  "fixed_span_otel flt prov next r w x =
     (if flt r then
        (case next (r\<lparr>req_ctx := (req_ctx r)\<lparr>ctx_span := Some (''t1'', ''s1'')\<rparr>\<rparr>) (Wrapper w) x of
           (out, _, x') \<Rightarrow> (out, r, x'))
      else next r w x)"

lemma fixed_span_otel_transparent:
  "otel_transparent fixed_span_otel (\<lambda>_. Some (''t1'', ''s1''))"
  by (simp add: otel_transparent_def fixed_span_otel_def)

end
