(* ===== verification/Chain_Properties.thy ===== *)
theory Chain_Properties
  imports Handler_Chain
begin

text \<open>
  What the application chain guarantees as a whole, whatever user interface it serves: the
  headers every response carries, the entry each request leaves in the log and its agreement
  with the response, which panics reach the server. The hypotheses on the user interface are
  frames; the hypothesis on OpenTelemetry is \<open>otel_transparent\<close>.
\<close>

section \<open>The chain, step by step\<close>

definition identified :: "trusted_proxies \<Rightarrow> request \<Rightarrow> exchange \<Rightarrow> request" where
  "identified proxies r x =
     r\<lparr>req_ctx := (req_ctx r)\<lparr>ctx_request_id := Some (fst (request_id proxies r x))\<rparr>\<rparr>"

definition secured :: "exchange \<Rightarrow> exchange" where
  "secured x =
     set_header ''Content-Security-Policy'' frame_ancestors_none
       (set_header ''X-Frame-Options'' ''DENY''
          (set_header ''X-Content-Type-Options'' ''nosniff'' x))"

definition prepared :: "trusted_proxies \<Rightarrow> request \<Rightarrow> exchange \<Rightarrow> exchange" where
  "prepared proxies r x =
     set_header request_id_header (fst (request_id proxies r x)) (snd (request_id proxies r (secured x)))"

lemma request_id_fst: "fst (request_id proxies r (secured x)) = fst (request_id proxies r x)"
  by (simp add: request_id_def new_request_id_def rand_read_def Let_def secured_def set_header_def)

lemma app_chain_logged:
  "fst (app_chain redirect cfg proxies rd lg ui r w x) =
     fst (with_request_logging proxies lg (app_core redirect cfg rd lg ui)
            (identified proxies r x) w (prepared proxies r x))"
  "snd (snd (app_chain redirect cfg proxies rd lg ui r w x)) =
     snd (snd (with_request_logging proxies lg (app_core redirect cfg rd lg ui)
            (identified proxies r x) w (prepared proxies r x)))"
  using request_id_fst [of proxies r x]
  by (simp_all add: app_chain_core with_security_headers_def with_request_id_def case_prod_beta
      identified_def prepared_def secured_def)

lemma prepared_simps:
  "sent (prepared proxies r x) = sent x"
  "recorders (prepared proxies r x) = recorders x"
  "log (prepared proxies r x) = log x"
  "clock (prepared proxies r x) = clock x"
  "live_header (prepared proxies r x) ''X-Content-Type-Options'' = [''nosniff'']"
  "live_header (prepared proxies r x) ''X-Frame-Options'' = [''DENY'']"
  "live_header (prepared proxies r x) ''Content-Security-Policy'' = [frame_ancestors_none]"
  "live_header (prepared proxies r x) ''X-Request-Id'' = [fst (request_id proxies r x)]"
  by (simp_all add: prepared_def secured_def wire_simps)

section \<open>Headers\<close>

definition security_headers :: "(string \<times> string list) set" where
  "security_headers =
     {(''X-Content-Type-Options'', [''nosniff'']), (''X-Frame-Options'', [''DENY'']),
      (''Content-Security-Policy'', [frame_ancestors_none])}"

definition pin :: "(string \<times> string list) set \<Rightarrow> frame" where
  "pin S = \<lparr>pinned = S, silent = {}, final_only = False\<rparr>"

lemma pin_simps [simp]: "pinned (pin S) = S" "silent (pin S) = {}" "final_only (pin S) = False"
  by (simp_all add: pin_def)

text \<open>A header the chain puts in place and the rest leaves alone is on the wire.\<close>

lemma app_chain_pinned:
  assumes inner: "inner_frame F" "''request served'' \<notin> silent F"
    and ui: "keeps F ui" "\<And>target r. stays_within F (redirect target r)"
    and rec: "writer_recorders w \<subseteq> {..<length (recorders x)}"
    and fresh: "sent x = None"
    and pin: "(k, v) \<in> pinned F" "live_header (prepared proxies r x) k = v"
  shows "live_header (snd (snd (app_chain redirect cfg proxies rd lg ui r w x))) k = v"
    and "sent (snd (snd (app_chain redirect cfg proxies rd lg ui r w x))) = Some (c, hs) \<Longrightarrow> hs k = v"
proof -
  let ?h = "with_request_logging proxies lg (app_core redirect cfg rd lg ui)"
  obtain out r' y where y: "?h (identified proxies r x) w (prepared proxies r x) = (out, r', y)"
    by (metis prod_cases3)
  have "evolves F w (prepared proxies r x) y"
    using keepsD(1) [OF app_logged_keeps [OF inner(1) ui inner(2)] y] rec by (simp add: prepared_simps)
  with pin fresh y
  show "live_header (snd (snd (app_chain redirect cfg proxies rd lg ui r w x))) k = v"
    and "sent (snd (snd (app_chain redirect cfg proxies rd lg ui r w x))) = Some (c, hs) \<Longrightarrow> hs k = v"
    by (auto simp: app_chain_logged evolves_def prepared_simps)
qed

text \<open>The same for the response the server completes.\<close>

lemma net_serve_pinned:
  assumes "\<And>c hs. sent (snd (snd (h r NetWriter x))) = Some (c, hs) \<Longrightarrow> hs k = v"
    and "live_header (snd (snd (h r NetWriter x))) k = v"
    and "sent (snd (net_serve h r x)) = Some (c, hs)"
  shows "hs k = v"
proof -
  obtain out r' y where y: "h r NetWriter x = (out, r', y)" by (metis prod_cases3)
  show ?thesis
    using assms y
    by (cases "sent y"; cases out)
      (auto simp: net_serve_def wire_simps split: if_splits)
qed

lemma new_mux_pinned:
  assumes otel: "otel_transparent otel span"
    and inner: "inner_frame F" "''request served'' \<notin> silent F"
    and ui: "keeps F ui" "\<And>target r. stays_within F (redirect target r)"
    and fresh: "sent x = None"
    and pin: "(k, v) \<in> pinned F" "\<And>r'. remote_addr r' = remote_addr r \<Longrightarrow> req_header r' = req_header r \<Longrightarrow>
      live_header (prepared proxies r' x) k = v"
    and answer: "sent (snd (net_serve (new_mux otel noop redirect cfg proxies rd lg tel ui) r x)) = Some (c, hs)"
  shows "hs k = v"
proof (rule net_serve_pinned [OF _ _ answer])
  obtain r' w' where r': "r' = r \<or> r' = r\<lparr>req_ctx := (req_ctx r)\<lparr>ctx_span := span r\<rparr>\<rparr>"
    and w': "w' = NetWriter \<or> w' = Wrapper NetWriter"
    and eq: "snd (snd (new_mux otel noop redirect cfg proxies rd lg tel ui r NetWriter x)) =
       snd (snd (app_chain redirect cfg proxies rd lg ui r' w' x))"
    by (rule new_mux_passes [OF otel])
  have rec: "writer_recorders w' \<subseteq> {..<length (recorders x)}" using w' by auto
  have hd: "live_header (prepared proxies r' x) k = v" using r' by (intro pin(2)) auto
  show "hs k = v" if "sent (snd (snd (new_mux otel noop redirect cfg proxies rd lg tel ui r NetWriter x))) = Some (c, hs)"
    for c hs using app_chain_pinned(2) [OF inner ui rec fresh pin(1) hd] that eq by simp
  show "live_header (snd (snd (new_mux otel noop redirect cfg proxies rd lg tel ui r NetWriter x))) k = v"
    using app_chain_pinned(1) [OF inner ui rec fresh pin(1) hd] eq by simp
qed

section \<open>The log entry of a request\<close>

definition served_entry :: "logger \<Rightarrow> trusted_proxies \<Rightarrow> request \<Rightarrow> string \<Rightarrow> string \<Rightarrow> int \<Rightarrow> int \<Rightarrow> fields \<Rightarrow> log_entry"
where
  "served_entry lg proxies r rid route status d ids =
     \<lparr>entry_level = level_for_status status, entry_message = ''request served'',
      entry_fields = lg @
        [(''method'', FString (req_method r)), (''path'', FString (url_path r)),
         (''route'', FString route), (''status'', FInt status), (''duration'', FDuration d),
         (''request_id'', FString rid), (''client_ip'', FString (client_ip proxies r))] @ ids\<rparr>"

definition wire_status :: "exchange \<Rightarrow> int" where
  "wire_status x = (case sent x of None \<Rightarrow> 200 | Some (c, _) \<Rightarrow> c)"

lemma peer_addr_cong: "remote_addr r' = remote_addr r \<Longrightarrow> peer_addr r' = peer_addr r"
  by (simp add: peer_addr_def cong: option.case_cong)

lemma client_ip_cong:
  assumes "remote_addr r' = remote_addr r" "req_header r' = req_header r"
  shows "client_ip t r' = client_ip t r"
proof -
  have "forwarded_for r' = forwarded_for r" using assms(2) by (simp add: forwarded_for_def)
  then show ?thesis unfolding client_ip_def peer_addr_cong [OF assms(1)] by (simp only:)
qed

lemma request_id_cong:
  "remote_addr r' = remote_addr r \<Longrightarrow> req_header r' = req_header r \<Longrightarrow> request_id t r' x = request_id t r x"
  using peer_addr_cong [of r' r] by (simp add: request_id_def trusts_peer_def)

lemma logging_entry:
  assumes k: "keeps F next" "''request served'' \<in> silent F"
    and rec: "writer_recorders w \<subseteq> {..<length (recorders x)}"
    and run: "with_request_logging proxies lg next r w x = (out, r', y)"
  shows "case out of
      Returned \<Rightarrow> \<exists>es route status d ids.
        log y = log x @ es @
          [served_entry lg proxies r (request_id_from_context (req_ctx r)) route status d ids] \<and>
        (\<forall>e \<in> set es. entry_message e \<noteq> ''request served'') \<and> 0 \<le> d \<and> route = req_pattern r' \<and>
        (final_only F \<longrightarrow> sent x = None \<longrightarrow> status = wire_status y)
    | Panicked v \<Rightarrow> \<exists>es. log y = log x @ es \<and> (\<forall>e \<in> set es. entry_message e \<noteq> ''request served'')"
proof -
  let ?i = "length (recorders x)"
  obtain x1 where x1: "alloc_recorder x = (?i, x1)" by (simp add: alloc_recorder_def)
  obtain out' r2 x2 where nx: "next r (Recorder ?i w) x1 = (out', r2, x2)" by (metis prod_cases3)
  have rec1: "writer_recorders (Recorder ?i w) \<subseteq> {..<length (recorders x1)}"
    using rec x1 by (auto simp: alloc_recorder_def)
  have ev: "evolves F (Recorder ?i w) x1 x2" and same: "same_request r r2"
    using keepsD [OF k(1) nx rec1] by auto
  have x1s: "log x1 = log x" "clock x1 = clock x" "sent x1 = sent x" "recorders x1 = recorders x @ [(200, False)]"
    using x1 by (auto simp: alloc_recorder_def)
  obtain es where es: "log x2 = log x @ es" "\<forall>e \<in> set es. entry_message e \<notin> silent F"
    using ev x1s by (auto simp: evolves_def)
  have es': "\<forall>e \<in> set es. entry_message e \<noteq> ''request served''" using es(2) k(2) by auto
  have d: "0 \<le> clock x2 - clock x" using ev x1s by (simp add: evolves_def)
  have st: "recorder_status ?i x2 = wire_status x2" if "final_only F" "sent x = None"
  proof -
    have "coherent ?i x1" using that x1s by (simp add: coherent_def)
    then have "coherent ?i x2" using ev that by (simp add: evolves_def)
    then show ?thesis by (auto simp: coherent_def recorder_status_def wire_status_def split: option.splits)
  qed
  show ?thesis
  proof (cases out')
    case (Panicked v)
    with run nx x1 es es' show ?thesis by (auto simp: with_request_logging_def)
  next
    case Returned
    let ?x3 = "if req_pattern r2 \<noteq> []
               then span_do (SpanSetName (span_route_name (req_method r2) (req_pattern r2))) x2 else x2"
    have x3: "log ?x3 = log x2" "recorders ?x3 = recorders x2" "sent ?x3 = sent x2"
      by (simp_all add: wire_simps)
    have y: "out = Returned" "r' = r2" "y = log_to lg (level_for_status (recorder_status ?i ?x3)) ''request served''
        (served_fields proxies r2 (recorder_status ?i ?x3) (clock x2 - clock x)) ?x3"
      using run nx x1 Returned by (auto simp: with_request_logging_def Let_def)
    have "wire_status y = wire_status x2"
      unfolding y(3) wire_status_def by (simp add: wire_simps)
    moreover have "recorder_status ?i ?x3 = recorder_status ?i x2"
      by (simp add: recorder_status_def x3)
    moreover have "log y = log x @ es @ [served_entry lg proxies r (request_id_from_context (req_ctx r))
        (req_pattern r2) (recorder_status ?i x2) (clock x2 - clock x)
        (case ctx_span (req_ctx r) of None \<Rightarrow> []
         | Some (a, b) \<Rightarrow> [(''trace_id'', FString a), (''span_id'', FString b)])]"
      using same client_ip_cong [of r2 r proxies] es(1)
      unfolding y(3) by (simp add: wire_simps served_entry_def served_fields_def same_request_def
          recorder_status_def)
    ultimately show ?thesis
      unfolding y(1) outcome.case
      by (intro exI [of _ es] exI [of _ "req_pattern r2"] exI [of _ "recorder_status ?i x2"]
          exI [of _ "clock x2 - clock x"] exI conjI) (use es' d st y(2) in auto)
  qed
qed

section \<open>Panics\<close>

lemma write_json_error_returns:
  "status \<in> final_codes \<Longrightarrow> fst (write_json_error lg w status code detail x) = Returned"
  using rw_write_header_returns [of status w "set_header ''Content-Type'' json_media_type x"]
  by (auto simp: write_json_error_def write_error_document_def split: prod.splits outcome.splits option.splits)

lemma recovery_escapes:
  "fst (with_panic_recovery lg next r w x) = Panicked v \<Longrightarrow> is_abort v"
  using write_json_error_returns [of 500]
  by (auto simp: with_panic_recovery_def Let_def final_codes_def
      split: prod.splits outcome.splits if_splits) (metis fst_conv outcome.distinct(1))+

lemma logging_outcome:
  "fst (with_request_logging proxies lg next r w x) =
     fst (next r (Recorder (length (recorders x)) w) (snd (alloc_recorder x)))"
  by (simp add: with_request_logging_def Let_def alloc_recorder_def case_prod_beta split: outcome.splits)

lemma app_chain_outcome:
  "fst (app_chain redirect cfg proxies rd lg ui r w x) = Panicked v \<Longrightarrow> is_abort v"
  unfolding app_chain_logged logging_outcome app_core_def by (rule recovery_escapes)

section \<open>Samples for the witnesses\<close>

definition sample_request :: request where
  "sample_request = \<lparr>req_method = ''GET'', url_path = ''/'', url_escaped_path = ''/'',
     remote_addr = ''192.0.2.1:4711'', req_header = no_header, content_length = 0,
     req_body = ConnBody [] (ErrSentinel EOF), req_pattern = [],
     req_ctx = \<lparr>ctx_request_id = None, ctx_deadline = None, ctx_span = None\<rparr>\<rparr>"

definition sample_ui :: handler where
  "sample_ui = foreign (\<lambda>_. HWrite ''hello'' (\<lambda>_. HDone))"

definition sample_redirect :: "string \<Rightarrow> foreign_handler" where
  "sample_redirect target r = HSet ''Location'' target (HWriteHeader 301 HDone)"

definition sample_chain :: handler where
  "sample_chain = new_mux fixed_span_otel
     \<lparr>used_tracer = (), used_meter = (), used_propagator = ()\<rparr> sample_redirect
     default_server_config zero_proxies new_readiness []
     \<lparr>tracer_provider = None, meter_provider = None, propagator = None\<rparr> sample_ui"

lemma canonical_location [simp]: "canonical_key ''Location'' = ''Location''"
  by (simp add: canonical_key_def token_byte_def is_digit_def is_letter_def is_upper_def
      is_lower_def Let_def text_simps)

lemma sample_redirect_within:
  "free F ''Location'' \<Longrightarrow> stays_within F (sample_redirect target r)"
  unfolding sample_redirect_def by (intro stays_within.intros) (auto simp: final_codes_def)

lemma sample_ui_keeps: "keeps F sample_ui"
  unfolding sample_ui_def by (intro foreign_keeps stays_within.intros)

lemma sample_chain_status:
  "map_option fst (sent (snd (net_serve sample_chain sample_request new_exchange))) = Some 200"
  by code_simp

section \<open>Properties\<close>

text \<open>C1: Every response of the application listener carries each security header (nosniff, DENY,
  frame-ancestors) with the value the chain sets, for each of them that the user interface and
  the redirects do not override, whichever part of the chain produced the response.\<close>

theorem response_carries_security_headers:
  assumes "otel_transparent otel span" and "S \<subseteq> security_headers"
    and "keeps (pin S) ui" and "\<And>target r. stays_within (pin S) (redirect target r)"
    and "sent x = None"
    and "sent (snd (net_serve (new_mux otel noop redirect cfg proxies rd lg tel ui) r x)) = Some (c, hs)"
  shows "\<forall>(k, v) \<in> S. hs k = v"
proof (clarify)
  fix k v assume kv: "(k, v) \<in> S"
  have inner: "inner_frame (pin S)" using assms(2) by (auto simp: inner_frame_def security_headers_def)
  have hd: "live_header (prepared proxies r' x) k = v" for r'
    using kv assms(2) by (auto simp: security_headers_def prepared_simps)
  show "hs k = v"
    by (rule new_mux_pinned [OF assms(1) inner _ assms(3,4,5) _ hd assms(6)]) (use kv in simp_all)
qed

theorem response_carries_security_headers_witness:
  "map_option (\<lambda>(c, hs). (c, hs ''X-Frame-Options'', hs ''X-Content-Type-Options''))
     (sent (snd (net_serve sample_chain sample_request new_exchange))) = Some (200, [''DENY''], [''nosniff''])"
proof -
  obtain c hs where s: "sent (snd (net_serve sample_chain sample_request new_exchange)) = Some (c, hs)"
    using sample_chain_status by auto
  have "\<forall>(k, v) \<in> security_headers. hs k = v"
    by (rule response_carries_security_headers [OF fixed_span_otel_transparent subset_refl sample_ui_keeps
          _ _ s [unfolded sample_chain_def]])
      (auto simp: new_exchange_def security_headers_def intro: sample_redirect_within)
  then show ?thesis using s sample_chain_status by (auto simp: security_headers_def)
qed

definition entry_frame :: frame where
  "entry_frame = \<lparr>pinned = {(''X-Request-Id'', v) | v. True}, silent = {''request served''}, final_only = True\<rparr>"

lemma entry_frame_simps:
  "((k, v) \<in> pinned entry_frame) = (k = ''X-Request-Id'')"
  "silent entry_frame = {''request served''}" "final_only entry_frame"
  by (auto simp: entry_frame_def)

lemma inner_entry_frame: "inner_frame entry_frame"
  by (auto simp: inner_frame_def entry_frame_simps own_messages_def json_messages_def)

lemma request_id_silenced:
  "request_id proxies r' x = request_id proxies r x \<Longrightarrow>
   live_header (prepared proxies r' x) ''X-Request-Id'' = [fst (request_id proxies r x)]"
  by (simp add: prepared_simps)

text \<open>The chain's logging, seen from the server.\<close>

lemma app_chain_entry:
  assumes ui: "keeps F ui" "\<And>target r. stays_within F (redirect target r)"
    and frame: "inner_frame F" "''request served'' \<in> silent F"
    and rec: "writer_recorders w \<subseteq> {..<length (recorders x)}"
    and fresh: "sent x = None"
  shows "case fst (app_chain redirect cfg proxies rd lg ui r w x) of
      Returned \<Rightarrow> \<exists>es route status d ids.
        log (snd (snd (app_chain redirect cfg proxies rd lg ui r w x))) = log x @ es @
          [served_entry lg proxies r (fst (request_id proxies r x)) route status d ids] \<and>
        (\<forall>e \<in> set es. entry_message e \<noteq> ''request served'') \<and> 0 \<le> d \<and>
        route = req_pattern (fst (snd (app_core redirect cfg rd lg ui (identified proxies r x)
          (Recorder (length (recorders x)) w) (snd (alloc_recorder (prepared proxies r x)))))) \<and>
        (final_only F \<longrightarrow> status = wire_status (snd (snd (app_chain redirect cfg proxies rd lg ui r w x))))
    | Panicked v \<Rightarrow> \<exists>es.
        log (snd (snd (app_chain redirect cfg proxies rd lg ui r w x))) = log x @ es \<and>
        (\<forall>e \<in> set es. entry_message e \<noteq> ''request served'')"
proof -
  let ?h = "with_request_logging proxies lg (app_core redirect cfg rd lg ui)"
  let ?r = "identified proxies r x"
  obtain out r' y where y: "?h ?r w (prepared proxies r x) = (out, r', y)" by (metis prod_cases3)
  have rec': "writer_recorders w \<subseteq> {..<length (recorders (prepared proxies r x))}"
    using rec by (simp add: prepared_simps)
  have same: "req_method ?r = req_method r" "url_path ?r = url_path r"
    "request_id_from_context (req_ctx ?r) = fst (request_id proxies r x)"
    "client_ip proxies ?r = client_ip proxies r"
    using client_ip_cong [of ?r r proxies] by (simp_all add: identified_def request_id_from_context_def)
  have route: "r' = fst (snd (app_core redirect cfg rd lg ui ?r (Recorder (length (recorders x)) w)
      (snd (alloc_recorder (prepared proxies r x)))))" if "out = Returned"
    using y that
    by (auto simp: with_request_logging_def Let_def alloc_recorder_def prepared_simps
        split: prod.splits outcome.splits)
  show ?thesis
    using logging_entry [OF app_core_keeps [OF frame(1) ui] frame(2) rec' y] fresh route
    unfolding app_chain_logged y
    by (simp add: prepared_simps served_entry_def same split: outcome.splits)
qed



text \<open>C6: The only panics that get past the chain to the server are deliberate aborts
  (http.ErrAbortHandler, wrapped or not), whatever the user interface does; every other panic
  ends in a completed response.\<close>

theorem only_deliberate_aborts_escape:
  assumes "otel_transparent otel span"
    and "fst (net_serve (new_mux otel noop redirect cfg proxies rd lg tel ui) r x) = Aborted v"
  shows "\<exists>e. v = PanicError e \<and> errors_is e AbortHandler"
proof -
  obtain r' w' where "fst (new_mux otel noop redirect cfg proxies rd lg tel ui r NetWriter x) =
      fst (app_chain redirect cfg proxies rd lg ui r' w' x)"
    by (rule new_mux_passes [OF assms(1), where r = r and w = NetWriter and x = x])
  moreover have "fst (new_mux otel noop redirect cfg proxies rd lg tel ui r NetWriter x) = Panicked v"
    using assms(2) by (auto simp: net_serve_def split: prod.splits outcome.splits if_splits)
  ultimately have "is_abort v" using app_chain_outcome by metis
  then show ?thesis by (auto simp: is_abort_def split: panic_value.splits)
qed

definition aborting_ui :: handler where
  "aborting_ui = foreign (\<lambda>_. HPanic (PanicError (ErrWrap ''giving up'' (ErrSentinel AbortHandler))))"

definition aborting_chain :: handler where
  "aborting_chain = new_mux fixed_span_otel
     \<lparr>used_tracer = (), used_meter = (), used_propagator = ()\<rparr> sample_redirect
     default_server_config zero_proxies new_readiness []
     \<lparr>tracer_provider = None, meter_provider = None, propagator = None\<rparr> aborting_ui"

theorem only_deliberate_aborts_escape_witness:
  "fst (net_serve aborting_chain sample_request new_exchange) =
     Aborted (PanicError (ErrWrap ''giving up'' (ErrSentinel AbortHandler))) \<and>
   errors_is (ErrWrap ''giving up'' (ErrSentinel AbortHandler)) AbortHandler"
proof -
  have a: "fst (net_serve aborting_chain sample_request new_exchange) =
      Aborted (PanicError (ErrWrap ''giving up'' (ErrSentinel AbortHandler)))"
    by code_simp
  show ?thesis
    using only_deliberate_aborts_escape [OF fixed_span_otel_transparent a [unfolded aborting_chain_def]] a
    by blast
qed

section \<open>The matched route\<close>

definition keeps_pattern :: "handler \<Rightarrow> bool" where
  "keeps_pattern h \<longleftrightarrow> (\<forall>r w x. req_pattern (fst (snd (h r w x))) = req_pattern r)"

lemma run_prog_pattern: "req_pattern (fst (snd (run_prog p r w x))) = req_pattern r"
  by (induction p arbitrary: r x) (auto split: prod.splits outcome.splits)

lemma foreign_keeps_pattern: "keeps_pattern (foreign f)"
  by (simp add: keeps_pattern_def foreign_def run_prog_pattern)

lemma own_handlers_keep_pattern:
  "keeps_pattern (new_health_handler lg)" "keeps_pattern (new_readiness_handler rd lg)"
  by (auto simp: keeps_pattern_def new_health_handler_def new_readiness_handler_def split: prod.splits)

lemma app_routes_keep_pattern:
  "keeps_pattern ui \<Longrightarrow> rt \<in> set (app_routes rd lg ui) \<Longrightarrow> keeps_pattern (route_handler rt)"
  by (auto simp: app_routes_def own_handlers_keep_pattern)

lemma recovery_pattern:
  "req_pattern (fst (snd (with_panic_recovery lg next r w x))) = req_pattern (fst (snd (next r w x)))"
  by (auto simp: with_panic_recovery_def Let_def split: prod.splits outcome.splits)

lemma timeout_pattern:
  "0 < t \<Longrightarrow> fst (snd (with_handler_timeout t next r w x)) = r"
  by (simp add: with_handler_timeout_def split: prod.splits)

lemma in_flight_request:
  "req_pattern (fst (snd (with_in_flight_limit n lg next r w x))) =
     (if n \<le> 0 then req_pattern (fst (snd (next r w x)))
      else if int (slots_used x) < n
        then req_pattern (fst (snd (next r w (x\<lparr>slots_used := Suc (slots_used x)\<rparr>))))
        else req_pattern r)"
  by (simp add: with_in_flight_limit_def split: prod.splits)

lemma prepared_slots: "slots_used (snd (alloc_recorder (prepared proxies r x))) = slots_used x"
  using request_id_state [of proxies r "secured x"]
  by (auto simp: alloc_recorder_def prepared_def secured_def set_header_def)

lemma app_core_pattern_hidden:
  "0 < sint (handler_timeout cfg) \<Longrightarrow>
   req_pattern (fst (snd (app_core redirect cfg rd lg ui r w x))) = req_pattern r"
  by (simp add: app_core_def recovery_pattern in_flight_request timeout_pattern)

lemma app_core_pattern_seen:
  assumes "handler_timeout cfg = 0" "keeps_pattern ui"
    and "find_handler (app_routes rd lg ui) r = To_route rt" "url_path r \<noteq> ''*''"
    and "content_length r \<le> sint (max_request_body_bytes cfg)"
    and "max_in_flight cfg \<le> 0 \<or> int (slots_used x) < max_in_flight cfg"
  shows "req_pattern (fst (snd (app_core redirect cfg rd lg ui r w x))) = route_text rt"
proof -
  have same: "find_handler routes (r\<lparr>req_body := b\<rparr>) = find_handler routes r" for routes b
    by (rule find_handler_cong) simp_all
  have "keeps_pattern (route_handler rt)"
    using app_routes_keep_pattern [OF assms(2) find_handler_route [OF assms(3)]] .
  then have mux: "req_pattern (fst (snd (serve_mux redirect (app_routes rd lg ui) (r\<lparr>req_body := b\<rparr>) w y))) =
      route_text rt"
    "req_pattern (fst (snd (serve_mux redirect (app_routes rd lg ui) r w y))) = route_text rt" for b y
    using assms(3,4) by (simp_all add: serve_mux_def same keeps_pattern_def)
  have "\<not> sint (max_request_body_bytes cfg) < content_length r" using assms(5) by simp
  then show ?thesis
    using assms(1,6) mux
    by (auto simp: app_core_def recovery_pattern in_flight_request with_handler_timeout_def
        with_request_body_limit_def)
qed

text \<open>What the last entry says of the route.\<close>

definition served_route :: "log_entry \<Rightarrow> string" where
  "served_route e =
     (case find (\<lambda>(k, _). k = ''route'') (entry_fields e) of Some (_, FString s) \<Rightarrow> s | _ \<Rightarrow> [])"

lemma served_route_entry: "served_route (served_entry [] proxies r rid route status d ids) = route"
  by (simp add: served_route_def served_entry_def)

definition route_frame :: frame where
  "route_frame = \<lparr>pinned = {}, silent = {''request served''}, final_only = False\<rparr>"

lemma inner_route_frame: "inner_frame route_frame"
  by (auto simp: inner_frame_def route_frame_def own_messages_def json_messages_def)

lemma app_chain_route:
  assumes ui: "keeps route_frame ui" "\<And>target r. stays_within route_frame (redirect target r)"
    and rec: "writer_recorders w \<subseteq> {..<length (recorders x)}"
    and fresh: "sent x = None"
    and ret: "fst (app_chain redirect cfg proxies rd [] ui r w x) = Returned"
  shows "log (snd (snd (app_chain redirect cfg proxies rd [] ui r w x))) \<noteq> []"
    and "served_route (last (log (snd (snd (app_chain redirect cfg proxies rd [] ui r w x))))) =
      req_pattern (fst (snd (app_core redirect cfg rd [] ui (identified proxies r x)
          (Recorder (length (recorders x)) w) (snd (alloc_recorder (prepared proxies r x))))))"
  using app_chain_entry [where redirect = redirect and cfg = cfg and proxies = proxies and rd = rd
      and lg = "[]" and r = r, OF ui inner_route_frame _ rec fresh] ret
  by (auto simp: route_frame_def served_route_entry)

text \<open>With no handler timeout configured, the entry of a completed request names the route
  the mux matched, for every request that is not turned away by a limit.\<close>

theorem entry_names_the_route:
  assumes "handler_timeout cfg = 0" "keeps_pattern ui"
    and "keeps route_frame ui" "\<And>target r. stays_within route_frame (redirect target r)"
    and "find_handler (app_routes rd [] ui) r = To_route rt" "url_path r \<noteq> ''*''"
    and "content_length r \<le> sint (max_request_body_bytes cfg)"
    and "max_in_flight cfg \<le> 0 \<or> int (slots_used x) < max_in_flight cfg"
    and "writer_recorders w \<subseteq> {..<length (recorders x)}" "sent x = None"
    and "app_chain redirect cfg proxies rd [] ui r w x = (Returned, r', y)"
  shows "served_route (last (log y)) = route_text rt"
proof -
  have "find_handler (app_routes rd [] ui) (identified proxies r x) = To_route rt"
    using assms(5) find_handler_cong [of "identified proxies r x" r] by (simp add: identified_def)
  then show ?thesis
    using app_chain_route(2) [where redirect = redirect and cfg = cfg and proxies = proxies and rd = rd
        and r = r, OF assms(3,4,9,10)] assms(1,2,6,7,8,11)
      app_core_pattern_seen [where r = "identified proxies r x" and rd = rd and lg = "[]" and ui = ui]
    by (simp add: identified_def prepared_slots)
qed

text \<open>C35: With a handler timeout configured, the entry of every completed request names the
  route the request came in with (none, on a request from the network) whatever route the mux
  matched: the timeout hands the mux a copy of the request, and the match is recorded there.\<close>

theorem handler_timeout_hides_the_route:
  assumes "0 < sint (handler_timeout cfg)"
    and "keeps route_frame ui" "\<And>target r. stays_within route_frame (redirect target r)"
    and "writer_recorders w \<subseteq> {..<length (recorders x)}" "sent x = None"
    and "app_chain redirect cfg proxies rd [] ui r w x = (Returned, r', y)"
  shows "served_route (last (log y)) = req_pattern r"
  using app_chain_route(2) [where redirect = redirect and cfg = cfg and proxies = proxies and rd = rd
        and r = r, OF assms(2-5)] assms(1,6)
  by (simp add: app_core_pattern_hidden identified_def)

definition timed_config :: server_config where
  "timed_config = default_server_config\<lparr>handler_timeout := second\<rparr>"

definition health_request :: request where
  "health_request = sample_request\<lparr>url_path := ''/healthz'', url_escaped_path := ''/healthz''\<rparr>"

theorem entry_names_the_route_witness:
  "served_route (last (log (snd (snd (app_chain sample_redirect default_server_config zero_proxies
     new_readiness [] sample_ui health_request NetWriter new_exchange))))) = ''GET /healthz''"
proof -
  let ?c = "app_chain sample_redirect default_server_config zero_proxies new_readiness [] sample_ui
      health_request NetWriter new_exchange"
  have "fst ?c = Returned" by code_simp
  then obtain r' y where y: "?c = (Returned, r', y)" by (metis prod_cases3 fst_conv)
  obtain rt where rt: "find_handler (app_routes new_readiness [] sample_ui) health_request = To_route rt"
    "route_text rt = ''GET /healthz''"
  proof -
    have "(case find_handler (app_routes new_readiness [] sample_ui) health_request of
        To_route rt \<Rightarrow> route_text rt = ''GET /healthz'' | _ \<Rightarrow> False)"
      by code_simp
    with that show ?thesis by (auto split: dispatch.splits)
  qed
  have "served_route (last (log y)) = route_text rt"
  proof (rule entry_names_the_route [OF _ _ sample_ui_keeps _ rt(1) _ _ _ _ _ y])
    show "handler_timeout default_server_config = 0" by (simp add: default_server_config_def)
    show "keeps_pattern sample_ui" unfolding sample_ui_def by (rule foreign_keeps_pattern)
    show "stays_within route_frame (sample_redirect target r)" for target r
      by (rule sample_redirect_within) (simp add: route_frame_def)
    show "url_path health_request \<noteq> ''*''" by (simp add: health_request_def)
    show "content_length health_request \<le> sint (max_request_body_bytes default_server_config)"
      by (simp add: health_request_def sample_request_def default_server_config_def
          default_max_request_body_bytes_def)
  qed (simp_all add: default_server_config_def new_exchange_def)
  with rt y show ?thesis by simp
qed

theorem handler_timeout_hides_the_route_witness:
  "served_route (last (log (snd (snd (app_chain sample_redirect timed_config zero_proxies
     new_readiness [] sample_ui health_request NetWriter new_exchange))))) = []"
proof -
  let ?c = "app_chain sample_redirect timed_config zero_proxies new_readiness [] sample_ui
      health_request NetWriter new_exchange"
  have "fst ?c = Returned" by code_simp
  then obtain r' y where y: "?c = (Returned, r', y)" by (metis prod_cases3 fst_conv)
  have "served_route (last (log y)) = req_pattern health_request"
  proof (rule handler_timeout_hides_the_route [OF _ sample_ui_keeps _ _ _ y])
    show "0 < sint (handler_timeout timed_config)" by (simp add: timed_config_def second_def)
    show "stays_within route_frame (sample_redirect target r)" for target r
      by (rule sample_redirect_within) (simp add: route_frame_def)
  qed (simp_all add: new_exchange_def)
  with y show ?thesis by (simp add: health_request_def sample_request_def)
qed

end
