(* ===== verification/Middleware_Properties.thy ===== *)
theory Middleware_Properties
  imports Middleware
begin

text \<open>
  The behaviour of each middleware on every branch: what panic recovery answers and when it
  must not answer, what the body limit lets a handler read and what it tells the connection,
  what the in-flight limiter answers when it is full, and what a status code that is not final
  does to the recorder recovery and logging depend on.
\<close>

section \<open>Samples for the witnesses\<close>

definition plain_request :: request where
  "plain_request = \<lparr>req_method = ''POST'', url_path = ''/upload'', url_escaped_path = ''/upload'',
     remote_addr = ''192.0.2.1:4711'', req_header = no_header, content_length = 5,
     req_body = ConnBody [''hel'', ''lo''] (ErrSentinel EOF), req_pattern = [],
     req_ctx = \<lparr>ctx_request_id = Some ''r1'', ctx_deadline = None, ctx_span = None\<rparr>\<rparr>"

definition recorded_exchange :: exchange where
  "recorded_exchange = snd (alloc_recorder new_exchange)"

definition failing_handler :: handler where
  "failing_handler = foreign (\<lambda>_. HPanic (PanicOther ''boom''))"

section \<open>Panic recovery\<close>

definition internal_error_document :: "fold_table \<Rightarrow> error_object list" where
  "internal_error_document tab = [new_error_object tab 500 error_code_internal [] []]"

definition recovery_entry :: "logger \<Rightarrow> request \<Rightarrow> request \<Rightarrow> panic_value \<Rightarrow> log_entry" where
  "recovery_entry lg r r' v =
     \<lparr>entry_level = ErrorLevel, entry_message = ''recovered panic serving request'',
      entry_fields = lg @ [(''panic'', FAny v), (''method'', FString (req_method r')),
        (''path'', FString (url_path r')),
        (''request_id'', FString (request_id_from_context (req_ctx r))), (''stack'', FStack)]\<rparr>"

text \<open>What recovery leaves behind before it decides whether to answer.\<close>

definition recovered :: "logger \<Rightarrow> request \<Rightarrow> request \<Rightarrow> panic_value \<Rightarrow> exchange \<Rightarrow> exchange" where
  "recovered lg r r' v x =
     x\<lparr>log := log x @ [recovery_entry lg r r' v],
       span_ops := span_ops x @
         [SpanRecordError (ErrText (''panic serving request: '' @ panic_text v)),
          SpanSetStatusError ''panic serving request'']\<rparr>"

lemma with_panic_recovery_cases:
  "with_panic_recovery lg next r w x =
     (case next r w x of
        (Returned, r', x1) \<Rightarrow> (Returned, r', x1)
      | (Panicked v, r', x1) \<Rightarrow>
          if is_abort v then (Panicked v, r', x1)
          else if begun w x1 then (Returned, r', recovered lg r r' v x1)
          else case write_json_error lg w 500 error_code_internal [] (recovered lg r r' v x1) of
              (out, y) \<Rightarrow> (out, r', y))"
proof -
  have "span_do (SpanSetStatusError ''panic serving request'')
      (span_do (SpanRecordError (ErrText (''panic serving request: '' @ panic_text v)))
        (log_to lg ErrorLevel ''recovered panic serving request''
          [(''panic'', FAny v), (''method'', FString (req_method r')),
           (''path'', FString (url_path r')),
           (''request_id'', FString (request_id_from_context (req_ctx r))), (''stack'', FStack)] x1)) =
      recovered lg r r' v x1" for r' v x1
    by (simp add: recovered_def recovery_entry_def span_do_def log_to_def log_at_def)
  moreover have "begun w (recovered lg r r' v x1) = begun w x1" for r' v x1
    by (simp add: begun_def recovered_def recorder_written_def split: writer.splits)
  ultimately show ?thesis unfolding with_panic_recovery_def Let_def by (simp only:)
qed





text \<open>C36: A panic carrying http.ErrAbortHandler inside another error is passed on by recovery
  unlogged, but the server compares the value it receives with the bare sentinel: it logs the
  deliberate abort as a panic, with a stack.\<close>

theorem wrapped_abort_is_reported_as_a_panic:
  assumes "h r NetWriter x = (Panicked (PanicError (ErrWrap context (ErrSentinel AbortHandler))), r', x1)"
  shows "net_serve (with_panic_recovery lg h) r x =
    (Aborted (PanicError (ErrWrap context (ErrSentinel AbortHandler))),
     log_at ErrorLevel ''http: panic serving''
       [(''panic'', FAny (PanicError (ErrWrap context (ErrSentinel AbortHandler)))), (''stack'', FStack)] x1)"
  using assms by (simp add: net_serve_def with_panic_recovery_cases is_abort_def)

theorem wrapped_abort_is_reported_as_a_panic_witness:
  "map entry_message (log (snd (net_serve (with_panic_recovery []
     (foreign (\<lambda>_. HPanic (PanicError (ErrWrap ''client gone'' (ErrSentinel AbortHandler))))))
     plain_request new_exchange))) = [''http: panic serving'']"
  using wrapped_abort_is_reported_as_a_panic
    [of "foreign (\<lambda>_. HPanic (PanicError (ErrWrap ''client gone'' (ErrSentinel AbortHandler))))"
      plain_request new_exchange "''client gone''" plain_request new_exchange "[]"]
  by (simp add: foreign_def log_at_def new_exchange_def)

section \<open>Status codes that are not final\<close>

lemma net_write_header_not_final:
  "c \<notin> final_codes \<Longrightarrow> sent x = None \<Longrightarrow>
   sent (snd (net_write_header c x)) = None \<and> recorders (snd (net_write_header c x)) = recorders x \<and>
   sent_body (snd (net_write_header c x)) = sent_body x"
  by (auto simp: net_write_header_def final_codes_def)

text \<open>C37: A handler that passes WriteHeader a code that is not a final status (an interim 1xx,
  which the server sends on, or an invalid one, on which it panics) and then panics is answered
  with an empty 200 instead of the 500 document: the recorder took the code for the response's
  status. The entry of the request carries that code.\<close>

theorem non_final_status_hides_the_failure:
  assumes "c \<notin> final_codes" and "\<not> is_abort v" and "sent x = None"
    and "net_serve (with_request_logging proxies lg
           (with_panic_recovery lg (foreign (\<lambda>_. HWriteHeader c (HPanic v))))) r x = (res, y)"
  shows "res = Completed \<and> map_option fst (sent y) = Some 200 \<and> sent_body y = sent_body x \<and>
    (''status'', FInt c) \<in> set (entry_fields (last (log y))) \<and>
    entry_level (last (log y)) = level_for_status c"
proof -
  let ?i = "length (recorders x)"
  let ?x1 = "snd (alloc_recorder x)"
  let ?x2 = "set_recorder ?i (c, True) ?x1"
  have x2: "sent ?x2 = None" "recorder_status ?i ?x2 = c" "recorder_written ?i ?x2" "sent_body ?x2 = sent_body x"
    using assms(3) by (simp_all add: wire_simps recorder_status_def recorder_written_def)
  obtain o3 x3 where x3: "net_write_header c ?x2 = (o3, x3)" by fastforce
  have s3: "sent x3 = None" "recorders x3 = recorders ?x2" "sent_body x3 = sent_body x"
    using net_write_header_not_final [OF assms(1) x2(1)] x3 x2(4) by auto
  have "\<not> recorder_written ?i ?x1" by (simp add: wire_simps recorder_written_def)
  then have hdr: "rw_write_header (Recorder ?i NetWriter) c ?x1 = (o3, x3)" using x3 by simp
  have inner: "\<exists>v'. foreign (\<lambda>_. HWriteHeader c (HPanic v)) r (Recorder ?i NetWriter) ?x1 = (Panicked v', r, x3) \<and>
      \<not> is_abort v'"
  proof (cases o3)
    case Returned
    then show ?thesis using hdr assms(2) by (simp add: foreign_def del: rw_write_header.simps)
  next
    case (Panicked v')
    then have "v' = PanicOther (''invalid WriteHeader code '' @ format_int c)"
      using x3 x2(1) by (auto simp: net_write_header_def split: if_splits)
    then show ?thesis using hdr Panicked by (simp add: foreign_def is_abort_def del: rw_write_header.simps)
  qed
  then obtain v' where inner: "foreign (\<lambda>_. HWriteHeader c (HPanic v)) r (Recorder ?i NetWriter) ?x1 = (Panicked v', r, x3)"
    "\<not> is_abort v'" by blast
  let ?x4 = "recovered lg r r v' x3"
  have st: "recorder_written ?i x3" "recorder_status ?i x3 = c"
    using s3(2) x2(2,3) by (simp_all add: recorder_written_def recorder_status_def)
  have rec: "with_panic_recovery lg (foreign (\<lambda>_. HWriteHeader c (HPanic v))) r (Recorder ?i NetWriter) ?x1 =
      (Returned, r, ?x4)"
    using inner st(1) by (simp add: with_panic_recovery_cases begun_def)
  have x4: "sent ?x4 = None" "recorder_status ?i ?x4 = c" "sent_body ?x4 = sent_body x"
    using s3 st(2) by (simp_all add: recovered_def recorder_status_def)
  let ?x5 = "if req_pattern r \<noteq> []
      then span_do (SpanSetName (span_route_name (req_method r) (req_pattern r))) ?x4 else ?x4"
  have x5: "sent ?x5 = None" "recorder_status ?i ?x5 = c" "sent_body ?x5 = sent_body x"
    using x4 by (simp_all add: wire_simps recorder_status_def)
  have "with_request_logging proxies lg
           (with_panic_recovery lg (foreign (\<lambda>_. HWriteHeader c (HPanic v)))) r NetWriter x =
      (Returned, r, log_to lg (level_for_status c) ''request served''
         (served_fields proxies r c (clock ?x4 - clock x)) ?x5)"
    using with_request_logging_returned [where r = r and x = x and w = NetWriter
        and h = "with_panic_recovery lg (foreign (\<lambda>_. HWriteHeader c (HPanic v)))", OF rec] x4(2) by simp
  then have "res = Completed" "y = commit_implicitly (log_to lg (level_for_status c) ''request served''
         (served_fields proxies r c (clock ?x4 - clock x)) ?x5)"
    using assms(4) by (auto simp: net_serve_def)
  then show ?thesis using x5 by (simp add: wire_simps served_fields_def)
qed

theorem non_final_status_hides_the_failure_witness:
  "map_option fst (sent (snd (net_serve (with_request_logging zero_proxies []
     (with_panic_recovery [] (foreign (\<lambda>_. HWriteHeader 103 (HPanic (PanicOther ''boom''))))))
     plain_request new_exchange))) = Some 200"
proof -
  let ?h = "with_request_logging zero_proxies []
     (with_panic_recovery [] (foreign (\<lambda>_. HWriteHeader 103 (HPanic (PanicOther ''boom'')))))"
  obtain res y where y: "net_serve ?h plain_request new_exchange = (res, y)" by fastforce
  have "map_option fst (sent y) = Some 200"
    using non_final_status_hides_the_failure [OF _ _ _ y]
    by (simp add: final_codes_def is_abort_def new_exchange_def)
  with y show ?thesis by simp
qed

end
