(* ===== verification/Limits.thy ===== *)
theory Limits
  imports Middleware_Properties
begin

text \<open>
  The two limits of \<open>internal/server/limits.go\<close> that need more than one call to state. The body
  limit: what a handler that reads to the end gets, byte for byte, and what the connection
  learns. The in-flight limit: the interleaving of requests over the channel of slots, as a
  step relation whose interface to the channel is the locale \<open>slot_pool\<close>, interpreted on the
  model of Go's buffered channel.
\<close>

section \<open>The body limit\<close>

lemma unwrap_writer_net: "unwrap_writer w = NetWriter"
proof (induction w)
  case NetWriter
  show ?case by (simp add: unwrap_writer.simps)
next
  case (Recorder i w)
  then show ?case by (simp add: unwrap_writer.simps [of "Recorder i w"])
next
  case (Wrapper w)
  then show ?case by (simp add: unwrap_writer.simps [of "Wrapper w"])
qed

text \<open>Reading until an error, at most so many times, so many bytes at a time.\<close>

fun drain_body :: "nat \<Rightarrow> nat \<Rightarrow> reader \<Rightarrow> exchange \<Rightarrow> (string \<times> go_error option) \<times> reader \<times> exchange"
where
  "drain_body 0 k body x = (([], None), body, x)"
| "drain_body (Suc n) k body x =
     (case read_body k body x of
        ((b, Some e), body', x') \<Rightarrow> ((b, Some e), body', x')
      | ((b, None), body', x') \<Rightarrow>
          (case drain_body n k body' x' of ((b', e), body'', x'') \<Rightarrow> ((b @ b', e), body'', x'')))"

text \<open>The fuel the chunks of a body need: one read per byte, and one per chunk.\<close>

definition chunk_fuel :: "string list \<Rightarrow> nat" where
  "chunk_fuel cs = (\<Sum>c\<leftarrow>cs. length c + 1)"

lemma drain_limited:
  "\<lbrakk>chunk_fuel cs < n; 0 < k; 0 \<le> left\<rbrakk> \<Longrightarrow>
   (case drain_body n k (MaxBytesReader (ConnBody cs e) limit left None w) x of
      (res, _, y) \<Rightarrow>
        if int (length (concat cs)) \<le> left then res = (concat cs, Some e)
        else res = (take (nat left) (concat cs), Some (ErrMaxBytes limit)) \<and>
             (w = NetWriter \<longrightarrow> close_after y))"
proof (induction n arbitrary: cs left x)
  case (Suc n)
  define k' where "k' = (if left < int k - 1 then nat (left + 1) else k)"
  have k': "0 < k'" "left < int k' \<or> k' = k" using Suc(3,4) by (auto simp: k'_def)
  have too_large: "close_after (request_too_large NetWriter y)" for y
    by (simp add: request_too_large_def Let_def set_header_def)
  show ?case
  proof (cases cs)
    case Nil
    then show ?thesis using Suc(3,4) by (simp add: k'_def [symmetric] Let_def)
  next
    case (Cons c rest)
    define b where "b = take k' c"
    define cs' where "cs' = (if length c \<le> k' then rest else drop k' c # rest)"
    have rd: "read_body k' (ConnBody cs e) x = ((b, None), ConnBody cs' e, x)"
      using Cons by (simp add: b_def cs'_def)
    have split: "concat cs = b @ concat cs'" using Cons by (simp add: b_def cs'_def)
    have fuel: "chunk_fuel cs' < n"
      using Suc(2) Cons k'(1) by (auto simp: chunk_fuel_def cs'_def split: if_splits)
    show ?thesis
    proof (cases "int (length b) \<le> left")
      case True
      then have "read_body k (MaxBytesReader (ConnBody cs e) limit left None w) x =
          ((b, None), MaxBytesReader (ConnBody cs' e) limit (left - int (length b)) None w, x)"
        using rd Suc(3) by (simp add: k'_def [symmetric] Let_def)
      moreover have "nat left = length b + nat (left - int (length b))" using True by simp
      ultimately show ?thesis
        using Suc.IH [OF fuel Suc(3), of "left - int (length b)" x] True split
        by (auto split: prod.splits if_splits)
    next
      case False
      then have "read_body k (MaxBytesReader (ConnBody cs e) limit left None w) x =
          ((take (nat left) b, Some (ErrMaxBytes limit)),
           MaxBytesReader (ConnBody cs' e) limit 0 (Some (ErrMaxBytes limit)) w, request_too_large w x)"
        using rd Suc(3) by (simp add: k'_def [symmetric] Let_def)
      with False split too_large show ?thesis by auto
    qed
  qed
qed simp

text \<open>C16: Under a body limit a handler that reads a body to its end gets every byte of one that
  fits, ended by the connection's own end, and of a longer one exactly the first limit bytes,
  ended by the too-large error; in that case the connection is told to close, through however
  many wrappers the middleware has put around the writer. The handler itself is called with
  nothing else changed.\<close>

theorem body_limit_is_exact:
  assumes "0 < limit" and "content_length r \<le> limit" and "req_body r = ConnBody cs e"
    and "0 < k" and "chunk_fuel cs < n"
  shows "\<exists>body. (\<forall>h. with_request_body_limit limit lg h r w x = h (r\<lparr>req_body := body\<rparr>) w x) \<and>
    (case drain_body n k body y of
       (res, _, z) \<Rightarrow>
         if int (length (concat cs)) \<le> limit then res = (concat cs, Some e)
         else res = (take (nat limit) (concat cs), Some (ErrMaxBytes limit)) \<and> close_after z)"
proof -
  let ?body = "MaxBytesReader (ConnBody cs e) limit limit None NetWriter"
  have "\<forall>h. with_request_body_limit limit lg h r w x = h (r\<lparr>req_body := ?body\<rparr>) w x"
    using assms(1-3) by (simp add: with_request_body_limit_def unwrap_writer_net)
  moreover have "(case drain_body n k ?body y of
       (res, _, z) \<Rightarrow>
         if int (length (concat cs)) \<le> limit then res = (concat cs, Some e)
         else res = (take (nat limit) (concat cs), Some (ErrMaxBytes limit)) \<and> close_after z)"
    using drain_limited [OF assms(5,4), of limit e limit NetWriter y] assms(1)
    by (simp only: less_imp_le if_True simp_thms split: prod.splits)
  ultimately show ?thesis by (intro exI conjI)
qed

theorem body_limit_is_exact_witness:
  "\<exists>body. (\<forall>h. with_request_body_limit 4 [] h (plain_request\<lparr>content_length := -1\<rparr>)
      (Wrapper (Recorder 0 (Wrapper NetWriter))) recorded_exchange =
    h (plain_request\<lparr>content_length := -1, req_body := body\<rparr>)
      (Wrapper (Recorder 0 (Wrapper NetWriter))) recorded_exchange) \<and>
    fst (drain_body 8 2 body recorded_exchange) = (''hell'', Some (ErrMaxBytes 4))"
  using body_limit_is_exact [of 4 "plain_request\<lparr>content_length := -1\<rparr>" "[''hel'', ''lo'']" "ErrSentinel EOF" 2 8
      "[]" "Wrapper (Recorder 0 (Wrapper NetWriter))" recorded_exchange recorded_exchange]
  by (simp add: plain_request_def chunk_fuel_def case_prod_beta) (elim exE conjE, intro exI conjI, assumption+)

text \<open>A request that declares a body over the limit is answered 413 with the too-large
  document before a byte of it is read, and the wrapped handler is never called.\<close>

theorem declared_oversize_is_refused:
  assumes "0 < limit" and "limit < content_length r" and "sent x = None" and "write_script x = []"
    and "with_request_body_limit limit lg h r w x = (out, r', y)"
  shows "out = Returned \<and> r' = r \<and>
    sent y = Some (413, (live_header x)(''Content-Type'' := [json_media_type])) \<and>
    sent_body y = sent_body x @ json_encode (error_document_json
      [new_error_object (fold_tab x) 413 error_code_payload_too_large [] []])"
proof -
  let ?doc = "[new_error_object (fold_tab x) 413 error_code_payload_too_large [] []]"
  have code: "413 \<in> final_codes" by (simp add: final_codes_def)
  obtain o' y' where y': "write_error_document lg w 413 ?doc x = (o', y')" by fastforce
  have "out = o'" "r' = r" "y = y'"
    using assms(1,2,5) y' by (simp_all add: with_request_body_limit_def write_json_error_def)
  then show ?thesis
    using write_error_document_wire [OF assms(3) code, of lg w ?doc] assms(4) y' by simp
qed

theorem declared_oversize_is_refused_witness:
  "map_option fst (sent (snd (snd (with_request_body_limit 4 [] failing_handler plain_request NetWriter
     new_exchange)))) = Some 413"
proof -
  obtain out r' y where y: "with_request_body_limit 4 [] failing_handler plain_request NetWriter new_exchange = (out, r', y)"
    by (metis prod_cases3)
  have "sent y = Some (413, (live_header new_exchange)(''Content-Type'' := [json_media_type]))"
    using declared_oversize_is_refused [OF _ _ _ _ y] by (simp add: plain_request_def new_exchange_def)
  then show ?thesis using y by simp
qed

text \<open>C18: With every slot taken a request is answered 503 with the overloaded document and
  Retry-After: 1 without reaching the wrapped handler; with a slot free the handler runs holding
  it and the slot is back whether the handler returns or panics.\<close>

theorem in_flight_limit_sheds_or_returns_the_slot:
  assumes "0 < limit" and "sent x = None" and "write_script x = []"
    and "with_in_flight_limit limit lg h r w x = (out, r', y)"
    and "\<And>z. slots_used (snd (snd (h r w z))) = slots_used z"
  shows "slots_used y = slots_used x \<and>
    (if int (slots_used x) < limit
     then out = fst (h r w (x\<lparr>slots_used := Suc (slots_used x)\<rparr>))
     else out = Returned \<and> r' = r \<and>
       sent y = Some (503, (live_header x)(''Retry-After'' := [''1''], ''Content-Type'' := [json_media_type])) \<and>
       sent_body y = sent_body x @ json_encode (error_document_json
         [new_error_object (fold_tab x) 503 error_code_overloaded [] []]))"
proof (cases "int (slots_used x) < limit")
  case True
  let ?z = "x\<lparr>slots_used := Suc (slots_used x)\<rparr>"
  obtain o2 r2 y2 where h: "h r w ?z = (o2, r2, y2)" by (metis prod_cases3)
  have "slots_used y2 = Suc (slots_used x)" using assms(5) [of ?z] h by simp
  then show ?thesis
    using True assms(1,4) h by (auto simp: with_in_flight_limit_def)
next
  case False
  let ?x = "set_header ''Retry-After'' retry_after_overloaded x"
  let ?doc = "[new_error_object (fold_tab ?x) 503 error_code_overloaded [] []]"
  have code: "503 \<in> final_codes" by (simp add: final_codes_def)
  have s: "sent ?x = None" "write_script ?x = []" "sent_body ?x = sent_body x" "fold_tab ?x = fold_tab x"
    "live_header ?x = (live_header x)(''Retry-After'' := [''1''])"
    using assms(2,3) by (simp_all add: set_header_def header_set_def retry_after_overloaded_def)
  obtain o' y' where y': "write_error_document lg w 503 ?doc ?x = (o', y')" by fastforce
  have eq: "out = o'" "r' = r" "y = y'"
    using False assms(1,4) y' by (auto simp: with_in_flight_limit_def write_json_error_def)
  have "slots_used y' = slots_used x"
    using write_error_document_slots [of lg w 503 ?doc ?x] y' by (simp add: wire_simps)
  then show ?thesis
    using write_error_document_wire [OF s(1) code, of lg w ?doc] s y' eq False by simp
qed

theorem in_flight_limit_sheds_or_returns_the_slot_witness:
  "map_option fst (sent (snd (snd (with_in_flight_limit 2 [] failing_handler plain_request NetWriter
     (new_exchange\<lparr>slots_used := 2\<rparr>))))) = Some 503"
proof -
  let ?x = "new_exchange\<lparr>slots_used := 2\<rparr>"
  obtain out r' y where y: "with_in_flight_limit 2 [] failing_handler plain_request NetWriter ?x = (out, r', y)"
    by (metis prod_cases3)
  have "sent y = Some (503, (live_header ?x)(''Retry-After'' := [''1''], ''Content-Type'' := [json_media_type]))"
    using in_flight_limit_sheds_or_returns_the_slot [OF _ _ _ y]
    by (simp add: new_exchange_def failing_handler_def foreign_def)
  then show ?thesis using y by simp
qed

section \<open>The in-flight limit under interleaving\<close>

text \<open>A Go channel of empty structs as the limiter uses it: a send that never blocks, a receive.\<close>

record chan =
  chan_cap :: nat
  chan_len :: nat

definition make_chan :: "nat \<Rightarrow> chan" where
  "make_chan limit = \<lparr>chan_cap = limit, chan_len = 0\<rparr>"

definition try_send :: "chan \<Rightarrow> chan option" where
  "try_send c = (if chan_len c < chan_cap c then Some (c\<lparr>chan_len := Suc (chan_len c)\<rparr>) else None)"

definition receive :: "chan \<Rightarrow> chan option" where
  "receive c = (if 0 < chan_len c then Some (c\<lparr>chan_len := chan_len c - 1\<rparr>) else None)"

datatype flight = Arriving | Serving | Shed | Answered

record 's gate =
  pool :: 's
  flights :: "nat \<Rightarrow> flight"

text \<open>
  One request's passage through \<open>withInFlightLimit\<close>: the select, the handler, and the deferred
  receive, which runs on a return and on a panic alike. Requests are numbered; any of them may
  take the next step.
\<close>

inductive gate_step :: "('s \<Rightarrow> 's option) \<Rightarrow> ('s \<Rightarrow> 's option) \<Rightarrow> 's gate \<Rightarrow> 's gate \<Rightarrow> bool"
  for send recv where
  admit: "\<lbrakk>flights g i = Arriving; send (pool g) = Some p\<rbrakk> \<Longrightarrow>
    gate_step send recv g \<lparr>pool = p, flights = (flights g)(i := Serving)\<rparr>"
| shed: "\<lbrakk>flights g i = Arriving; send (pool g) = None\<rbrakk> \<Longrightarrow>
    gate_step send recv g (g\<lparr>flights := (flights g)(i := Shed)\<rparr>)"
| leave: "\<lbrakk>flights g i = Serving; recv (pool g) = Some p\<rbrakk> \<Longrightarrow>
    gate_step send recv g \<lparr>pool = p, flights = (flights g)(i := Answered)\<rparr>"

definition gate_start :: "'s \<Rightarrow> 's gate" where
  "gate_start p = \<lparr>pool = p, flights = (\<lambda>_. Arriving)\<rparr>"

definition serving :: "'s gate \<Rightarrow> nat set" where
  "serving g = {i. flights g i = Serving}"

text \<open>What the limiter needs of the channel.\<close>

locale slot_pool =
  fixes send :: "'s \<Rightarrow> 's option" and recv :: "'s \<Rightarrow> 's option"
    and empty :: 's and taken :: "'s \<Rightarrow> nat" and capacity :: nat and ok :: "'s \<Rightarrow> bool"
  assumes empty_ok: "ok empty" "taken empty = 0"
    and send_Some: "ok p \<Longrightarrow> send p = Some q \<Longrightarrow> ok q \<and> taken q = Suc (taken p) \<and> taken p < capacity"
    and send_None: "ok p \<Longrightarrow> send p = None \<Longrightarrow> taken p = capacity"
    and recv_Some: "ok p \<Longrightarrow> recv p = Some q \<Longrightarrow> ok q \<and> Suc (taken q) = taken p"
    and recv_ready: "ok p \<Longrightarrow> 0 < taken p \<Longrightarrow> recv p \<noteq> None"
begin

text \<open>The slots taken are the requests being served, and never more than the capacity.\<close>

definition balanced :: "'s gate \<Rightarrow> bool" where
  "balanced g \<longleftrightarrow> ok (pool g) \<and> finite (serving g) \<and> taken (pool g) = card (serving g) \<and>
     taken (pool g) \<le> capacity"

lemma balanced_start: "balanced (gate_start empty)"
  by (simp add: balanced_def gate_start_def serving_def empty_ok)

lemma serving_updates:
  "serving \<lparr>pool = p, flights = (flights g)(i := Serving)\<rparr> = insert i (serving g)"
  "f \<noteq> Serving \<Longrightarrow> serving \<lparr>pool = p, flights = (flights g)(i := f)\<rparr> = serving g - {i}"
  "f \<noteq> Serving \<Longrightarrow> serving (g\<lparr>flights := (flights g)(i := f)\<rparr>) = serving g - {i}"
  by (auto simp: serving_def)

lemma balanced_step: "gate_step send recv g h \<Longrightarrow> balanced g \<Longrightarrow> balanced h"
proof (induction rule: gate_step.induct)
  case (admit g i p)
  then have "i \<notin> serving g" by (simp add: serving_def)
  then show ?case using admit send_Some [of "pool g" p] by (simp add: balanced_def serving_updates)
next
  case (shed g i)
  then have "i \<notin> serving g" by (simp add: serving_def)
  then show ?case using shed by (simp add: balanced_def serving_updates)
next
  case (leave g i p)
  then have "i \<in> serving g" by (simp add: serving_def)
  then show ?case
    using leave recv_Some [of "pool g" p] by (auto simp: balanced_def serving_updates)
qed

lemma balanced_reachable:
  "(gate_step send recv)\<^sup>*\<^sup>* (gate_start empty) g \<Longrightarrow> balanced g"
  by (induction rule: rtranclp_induct) (auto intro: balanced_start balanced_step)

text \<open>A request being served can always leave; one is shed only when the pool is full.\<close>

lemma leave_enabled:
  assumes "balanced g" "i \<in> serving g"
  shows "\<exists>p. recv (pool g) = Some p"
proof -
  have "0 < card (serving g)" using assms by (auto simp: balanced_def card_gt_0_iff)
  then show ?thesis using assms(1) recv_ready [of "pool g"] by (auto simp: balanced_def)
qed

lemma shed_when_full:
  "balanced g \<Longrightarrow> send (pool g) = None \<Longrightarrow> card (serving g) = capacity"
  using send_None by (auto simp: balanced_def)

end

interpretation slots: slot_pool try_send receive "make_chan limit" chan_len limit
    "\<lambda>c. chan_cap c = limit \<and> chan_len c \<le> limit" for limit
  by unfold_locales (auto simp: make_chan_def try_send_def receive_def split: if_splits)

text \<open>One request's view in \<open>with_in_flight_limit\<close> is the same decision as the channel's.\<close>

lemma try_send_decides:
  "try_send \<lparr>chan_cap = n, chan_len = slots_used x\<rparr> \<noteq> None \<longleftrightarrow> int (slots_used x) < int n"
  by (simp add: try_send_def)



end
