(* ===== verification/Decode_Json.thy ===== *)
theory Decode_Json
  imports Response_Json Go_Quote
begin

text \<open>
  The reading half of \<open>internal/server/json.go\<close>: \<open>DecodeJSON\<close> and what it tells the client about
  a body it could not use. The JSON decoder itself is the record \<open>json_decoder\<close> of its four calls;
  what it does to a destination is its own business, what error it returns decides here.
  \<open>mime.ParseMediaType\<close> is modelled as far as the answer goes: the media type, or a failure.
\<close>

section \<open>Media types\<close>

definition mime_token_byte :: "char \<Rightarrow> bool" where
  "mime_token_byte c \<longleftrightarrow> 0x20 < byte c \<and> byte c < 0x7F \<and>
     c \<notin> set ''()<>@,;:/[]?='' \<and> c \<noteq> CHR 0x22 \<and> c \<noteq> backslash"

definition consume_token :: "string \<Rightarrow> string \<times> string" where
  "consume_token v = (takeWhile mime_token_byte v, dropWhile mime_token_byte v)"

definition mime_special :: "char \<Rightarrow> bool" where
  "mime_special c \<longleftrightarrow> c \<in> set ''()<>@,;:/[]?='' \<or> c = CHR 0x22 \<or> c = backslash"

text \<open>A quoted string, after its opening quote: the value and what follows, or no end found.\<close>

fun quoted_value :: "string \<Rightarrow> (string \<times> string) option" where
  "quoted_value [] = None"
| "quoted_value (c # cs) =
     (if c = CHR 0x22 then Some ([], cs)
      else if c = backslash \<and> cs \<noteq> [] \<and> mime_special (hd cs) then
        (case cs of
           [] \<Rightarrow> None
         | d # ds \<Rightarrow> map_option (\<lambda>(v, rest). (d # v, rest)) (quoted_value ds))
      else if c = CHR 0x0D \<or> c = CHR 0x0A then None
      else map_option (\<lambda>(v, rest). (c # v, rest)) (quoted_value cs))"

definition consume_value :: "string \<Rightarrow> (string \<times> string) option" where
  "consume_value v =
     (case v of
        [] \<Rightarrow> None
      | c # cs \<Rightarrow>
          if c \<noteq> CHR 0x22 then
            (case consume_token v of (t, rest) \<Rightarrow> if t = [] then None else Some (t, rest))
          else quoted_value cs)"

definition consume_media_param :: "string \<Rightarrow> (string \<times> string \<times> string) option" where
  "consume_media_param v =
     (case cut_prefix (trim_left_space v) '';'' of
        (_, False) \<Rightarrow> None
      | (rest, True) \<Rightarrow>
          (case consume_token (trim_left_space rest) of
             (param, rest) \<Rightarrow>
               if param = [] then None
               else case cut_prefix (trim_left_space rest) ''='' of
                   (_, False) \<Rightarrow> None
                 | (rest, True) \<Rightarrow>
                     map_option (\<lambda>(value, rest). (to_lower param, value, rest))
                       (consume_value (trim_left_space rest))))"

text \<open>Each parameter takes text away, so the length of the text is fuel enough.\<close>

fun media_params_ok :: "nat \<Rightarrow> string \<Rightarrow> (string \<times> string) list \<Rightarrow> bool" where
  "media_params_ok 0 v seen = (v = [])"
| "media_params_ok (Suc n) v seen =
     (let v' = trim_left_space v in
      if v' = [] then True
      else case consume_media_param v' of
          None \<Rightarrow> trim_space v' = '';''
        | Some (key, value, rest) \<Rightarrow>
            (case map_of seen key of
               Some old \<Rightarrow> old = value \<and> media_params_ok n rest seen
             | None \<Rightarrow> media_params_ok n rest ((key, value) # seen)))"

text \<open>
  Lower-casing takes two runes beyond ASCII into ASCII, U+0130 and U+212A; any other leaves the
  type one that no token allows.
\<close>

fun lower_media :: "string \<Rightarrow> string" where
  "lower_media [] = []"
| "lower_media (c # cs) =
     (if byte c = 0xC4 \<and> has_prefix cs [char_of (0xB0 :: nat)] then CHR ''i'' # lower_media (drop 1 cs)
      else if byte c = 0xE2 \<and> has_prefix cs [char_of (0x84 :: nat), char_of (0xAA :: nat)]
      then CHR ''k'' # lower_media (drop 2 cs)
      else lower_byte c # lower_media cs)"

definition media_type_shape :: "string \<Rightarrow> bool" where
  "media_type_shape s =
     (case consume_token s of
        (typ, rest) \<Rightarrow>
          typ \<noteq> [] \<and>
          (rest = [] \<or>
           (has_prefix rest ''/'' \<and>
            (case consume_token (drop 1 rest) of (subtype, rest) \<Rightarrow> subtype \<noteq> [] \<and> rest = []))))"

definition parse_media_type :: "string \<Rightarrow> string option" where
  "parse_media_type v =
     (case cut v CHR '';'' of
        (base, _, _) \<Rightarrow>
          let mediatype = trim_space (lower_media base) in
          if media_type_shape mediatype \<and> media_params_ok (length v) (drop (length base) v) []
          then Some mediatype else None)"

section \<open>What a decode failure says\<close>

fun json_kind :: "go_type option \<Rightarrow> string" where
  "json_kind None = ''value''"
| "json_kind (Some (Pointer_to t)) = json_kind (Some t)"
| "json_kind (Some (Of_kind k)) =
     (if k \<in> {KStruct, KMap} then ''object''
      else if k \<in> {KSlice, KArray} then ''array''
      else if k = KString then ''string''
      else if k = KBool then ''boolean''
      else if k \<in> {KInt, KInt8, KInt16, KInt32, KInt64, KUint, KUint8, KUint16, KUint32, KUint64,
                   KFloat32, KFloat64} then ''number''
      else ''value'')"

definition as_max_bytes :: "go_error \<Rightarrow> go_error option" where
  "as_max_bytes e = errors_as (\<lambda>e. case e of ErrMaxBytes n \<Rightarrow> Some (ErrMaxBytes n) | _ \<Rightarrow> None) e"

definition as_syntax :: "go_error \<Rightarrow> int option" where
  "as_syntax e = errors_as (\<lambda>e. case e of ErrJsonSyntax _ offset \<Rightarrow> Some offset | _ \<Rightarrow> None) e"

definition as_unmarshal_type :: "go_error \<Rightarrow> (go_type option \<times> string) option" where
  "as_unmarshal_type e =
     errors_as (\<lambda>e. case e of ErrUnmarshalType _ ty field \<Rightarrow> Some (ty, field) | _ \<Rightarrow> None) e"

definition unknown_field_prefix :: string where
  "unknown_field_prefix = ''json: unknown field ''"

definition decode_pointer :: "go_error \<Rightarrow> string" where
  "decode_pointer err =
     (case as_unmarshal_type err of
        Some (_, field) \<Rightarrow> (if field = [] \<or> CHR ''.'' \<in> set field then [] else CHR ''/'' # field)
      | None \<Rightarrow>
          (case cut_prefix (error_text err) unknown_field_prefix of
             (_, False) \<Rightarrow> []
           | (name, True) \<Rightarrow>
               (case unquote name of
                  None \<Rightarrow> []
                | Some unquoted \<Rightarrow>
                    if unquoted = [] \<or> CHR ''/'' \<in> set unquoted then [] else CHR ''/'' # unquoted)))"

definition decode_message :: "print_table \<Rightarrow> go_error \<Rightarrow> string" where
  "decode_message tab err =
     (case as_syntax err of
        Some offset \<Rightarrow> ''malformed JSON at offset '' @ format_int offset
      | None \<Rightarrow>
          (case as_unmarshal_type err of
             Some (ty, field) \<Rightarrow>
               (if field = [] then ''request body must be a JSON '' @ json_kind ty
                else ''field '' @ go_quote tab field @ '' must be a JSON '' @ json_kind ty)
           | None \<Rightarrow>
               (case cut_prefix (error_text err) unknown_field_prefix of
                  (name, True) \<Rightarrow> ''unknown field '' @ name
                | (_, False) \<Rightarrow>
                    if errors_is err EOF then ''request body is empty''
                    else if errors_is err UnexpectedEOF then ''malformed JSON: unexpected end of input''
                    else ''invalid request body'')))"

definition client_error_for_decode :: "print_table \<Rightarrow> go_error \<Rightarrow> go_error" where
  "client_error_for_decode tab err =
     (case as_max_bytes err of
        Some max_err \<Rightarrow>
          ErrClient 413 error_code_payload_too_large ''request body too large'' [] (Some max_err)
      | None \<Rightarrow>
          ErrClient 400 error_code_invalid_body (decode_message tab err) (decode_pointer err) (Some err))"

section \<open>DecodeJSON\<close>

definition require_json_content_type :: "print_table \<Rightarrow> request \<Rightarrow> go_error option" where
  "require_json_content_type tab r =
     (let declared = header_get (req_header r) ''Content-Type'' in
      if parse_media_type declared \<noteq> Some json_media_type
      then Some (ErrClient 415 error_code_unsupported_media_type
                   (''request body must be '' @ json_media_type) []
                   (Some (ErrText (''content type '' @ go_quote tab declared))))
      else None)"

record 'd json_decoder =
  new_decoder :: "reader \<Rightarrow> 'd"
  disallow_unknown_fields :: "'d \<Rightarrow> 'd"
  decode_into :: "'d \<Rightarrow> go_error option \<times> 'd"
  decode_empty_struct :: "'d \<Rightarrow> go_error option \<times> 'd"

definition decode_json :: "'d json_decoder \<Rightarrow> print_table \<Rightarrow> request \<Rightarrow> go_error option" where
  "decode_json dec tab r =
     (case require_json_content_type tab r of
        Some err \<Rightarrow> Some err
      | None \<Rightarrow>
          let decoder = disallow_unknown_fields dec (new_decoder dec (req_body r)) in
          case decode_into dec decoder of
            (Some err, _) \<Rightarrow> Some (client_error_for_decode tab err)
          | (None, decoder') \<Rightarrow>
              (case fst (decode_empty_struct dec decoder') of
                 Some err \<Rightarrow>
                   (if errors_is err EOF then None
                    else Some (ErrClient 400 error_code_invalid_body
                      ''request body must contain a single JSON value'' [] (Some err)))
               | None \<Rightarrow>
                   Some (ErrClient 400 error_code_invalid_body
                     ''request body must contain a single JSON value'' [] None)))"

end
