(* ===== verification/Json_Properties.thy ===== *)
theory Json_Properties
  imports Decode_Json
begin

text \<open>
  What clients and operators may rely on in the JSON helpers: that an error response is a
  function of the client errors alone and carries nothing of their causes, that the collection
  of client errors agrees with the standard library's search, that every way a body can be
  unusable is answered with its own client status, and which member a pointer names.
\<close>

section \<open>Samples for the witnesses\<close>

definition sample_post :: request where
  "sample_post = \<lparr>req_method = ''POST'', url_path = ''/items'', url_escaped_path = ''/items'',
     remote_addr = ''192.0.2.1:4711'',
     req_header = no_header(''Content-Type'' := [''application/json; charset=utf-8'']),
     content_length = 2, req_body = ConnBody [''{}''] (ErrSentinel EOF), req_pattern = [],
     req_ctx = \<lparr>ctx_request_id = Some ''r1'', ctx_deadline = None, ctx_span = None\<rparr>\<rparr>"

text \<open>A decoder that reports a scripted error for the value and for what follows it.\<close>

definition scripted_decoder :: "go_error option \<Rightarrow> go_error option \<Rightarrow> unit json_decoder" where
  "scripted_decoder first second =
     \<lparr>new_decoder = (\<lambda>_. ()), disallow_unknown_fields = (\<lambda>d. d), decode_into = (\<lambda>d. (first, d)),
      decode_empty_struct = (\<lambda>d. (second, d))\<rparr>"

definition no_print_table :: print_table where
  "no_print_table = (\<lambda>_. False)"

section \<open>Collecting client errors\<close>

definition as_client :: "go_error \<Rightarrow> client_error option" where
  "as_client e =
     (case e of
        ErrClient status code msg pointer cause \<Rightarrow>
          Some \<lparr>ce_status = status, ce_code = code, ce_message = msg, ce_pointer = pointer, ce_err = cause\<rparr>
      | _ \<Rightarrow> None)"

definition head_option :: "'a list \<Rightarrow> 'a option" where
  "head_option xs = (case xs of [] \<Rightarrow> None | x # _ \<Rightarrow> Some x)"

lemma head_option_simps [simp]:
  "head_option [] = None" "head_option (x # xs) = Some x"
  "head_option (xs @ ys) = (case head_option xs of Some x \<Rightarrow> Some x | None \<Rightarrow> head_option ys)"
  by (simp_all add: head_option_def split: list.splits)

lemma as_client_simps [simp]:
  "as_client (ErrJoin es) = None" "as_client (ErrWrap p e) = None"
  "as_client (ErrText s) = None" "as_client (ErrSentinel k) = None" "as_client (ErrMaxBytes n) = None"
  "as_client (ErrJsonSyntax s n) = None" "as_client (ErrUnmarshalType s ty f) = None"
  "as_client (ErrClient st code msg ptr cause) =
     Some \<lparr>ce_status = st, ce_code = code, ce_message = msg, ce_pointer = ptr, ce_err = cause\<rparr>"
  by (simp_all add: as_client_def)

lemma errors_as_client: "errors_as as_client e = head_option (client_errors_of e)"
proof (induction e)
  case (ErrJoin es)
  have "errors_as_list as_client es = head_option (concat (map client_errors_of es))"
    using ErrJoin by (induction es) (auto split: option.splits)
  then show ?case by (simp add: errors_as.simps [of as_client "ErrJoin es"])
next
  case (ErrWrap p e)
  then show ?case by simp
next
  case (ErrClient status code msg pointer cause)
  show ?case by (simp add: errors_as.simps [of as_client "ErrClient status code msg pointer cause"])
qed simp_all

text \<open>C34: The collection of client errors starts with the one errors.AsType would find, finds
  one exactly when it does, takes the children of a join in order, sees through wrapping, and
  never looks inside a client error's cause.\<close>

theorem client_errors_extend_errors_as:
  "errors_as as_client e = head_option (append_client_errors [] e) \<and>
   append_client_errors found (ErrJoin es) = found @ concat (map (append_client_errors []) es) \<and>
   append_client_errors found (ErrWrap p e) = append_client_errors found e \<and>
   append_client_errors found (client_error_value c) = found @ [c]"
proof -
  have "append_client_errors [] = client_errors_of"
    by (rule ext) (simp add: append_client_errors_collects)
  then show ?thesis
    by (simp add: append_client_errors_collects errors_as_client client_error_value_def)
qed

section \<open>Error documents\<close>

lemma document_status_by_statuses:
  "document_status cs =
     (let ss = map ce_status cs in
      if ss = [] then 500
      else if list_all (\<lambda>s. s = hd ss) ss \<and> hd ss \<noteq> 0 then hd ss
      else if list_all (\<lambda>s. 400 \<le> s \<and> s < 500) ss then 400 else 500)"
proof (cases cs)
  case (Cons c rest)
  have "shared_status (ce_status c) cs =
      (if list_all (\<lambda>s. s = ce_status c) (map ce_status cs) then ce_status c else 0)"
    by (simp add: shared_status_iff list_all_iff)
  moreover have "common_status cs =
      (if list_all (\<lambda>s. 400 \<le> s \<and> s < 500) (map ce_status cs) then 400 else 500)"
    by (simp add: common_status_iff list_all_iff)
  ultimately show ?thesis using Cons by (auto simp: document_status_def Let_def)
qed (simp add: document_status_def)

text \<open>The status of an error document is the status its client errors share, when they share
  one; otherwise 400 when all of them are client statuses and 500 when one is not, and 500 for
  none at all.\<close>

theorem document_status_rule:
  "document_status cs =
     (let ss = map ce_status cs in
      if ss = [] then 500
      else if list_all (\<lambda>s. s = hd ss) ss \<and> hd ss \<noteq> 0 then hd ss
      else if list_all (\<lambda>s. 400 \<le> s \<and> s < 500) ss then 400 else 500)"
  by (rule document_status_by_statuses)

text \<open>What the client may see of a client error.\<close>

definition face :: "client_error \<Rightarrow> int \<times> string \<times> string \<times> string" where
  "face c = (ce_status c, ce_code c, ce_message c, ce_pointer c)"

lemma faces_objects:
  "map face cs = map face ds \<Longrightarrow> map (client_error_object tab) cs = map (client_error_object tab) ds"
  by (induction cs ds rule: list_induct2') (auto simp: face_def client_error_object_def)

lemma faces_status: "map face cs = map face ds \<Longrightarrow> document_status cs = document_status ds"
proof -
  assume "map face cs = map face ds"
  then have "map fst (map face cs) = map fst (map face ds)" by simp
  then have "map ce_status cs = map ce_status ds" by (simp add: face_def comp_def)
  then show ?thesis by (simp only: document_status_by_statuses)
qed

lemma faces_codes: "map face cs = map face ds \<Longrightarrow> map ce_code cs = map ce_code ds"
  by (induction cs ds rule: list_induct2') (auto simp: face_def)

text \<open>C20: What WriteError puts on the wire depends on the client errors' status, code, message
  and pointer alone: two errors that agree on those (their causes, their wrapping and every
  other error joined to them aside) are answered identically, byte for byte; and an error
  without client errors is answered like any other.\<close>

theorem error_response_ignores_causes:
  assumes "map face (append_client_errors [] e1) = map face (append_client_errors [] e2)"
  shows "(case write_error lg w r (Some e1) x of (out, y) \<Rightarrow> (out, unlogged y)) =
         (case write_error lg w r (Some e2) x of (out, y) \<Rightarrow> (out, unlogged y))"
proof -
  have objects: "map (client_error_object tab) (append_client_errors [] e1) =
      map (client_error_object tab) (append_client_errors [] e2)" for tab
    by (rule faces_objects [OF assms])
  have status: "document_status (append_client_errors [] e1) = document_status (append_client_errors [] e2)"
    by (rule faces_status [OF assms])
  have empty: "append_client_errors [] e1 = [] \<longleftrightarrow> append_client_errors [] e2 = []"
    using assms by (metis map_is_Nil_conv)
  have same: "(case write_error_document lg1 w s os (log_to lg1 l1 m1 f1 x) of (out, y) \<Rightarrow> (out, unlogged y)) =
      (case write_error_document lg2 w s os (log_to lg2 l2 m2 f2 x) of (out, y) \<Rightarrow> (out, unlogged y))"
    for lg1 lg2 s os l1 l2 m1 m2 f1 f2
    unfolding unlogged_write_error_document [where lg' = lg and x = "log_to lg1 l1 m1 f1 x"]
      unlogged_write_error_document [where lg' = lg and x = "log_to lg2 l2 m2 f2 x"]
    by simp
  show ?thesis
    by (simp add: write_error_def Let_def write_json_error_def empty objects status wire_simps
        cong: if_cong) (intro conjI impI same)
qed

theorem error_response_ignores_causes_witness:
  "(case write_error [] NetWriter sample_post
          (Some (ErrClient 400 ''bad_name'' ''name is required'' ''/name'' None)) new_exchange of
      (out, y) \<Rightarrow> (out, unlogged y)) =
   (case write_error [] NetWriter sample_post
          (Some (ErrJoin [ErrText ''dial tcp 10.0.0.7: refused'',
             ErrWrap ''creating'' (ErrClient 400 ''bad_name'' ''name is required'' ''/name''
               (Some (ErrText ''column users.secret is null'')))])) new_exchange of
      (out, y) \<Rightarrow> (out, unlogged y))"
  by (rule error_response_ignores_causes)
    (simp add: append_client_errors_collects face_def)

section \<open>Unusable bodies\<close>

text \<open>The verdict on a request body, in the order the checks are made: the status it deserves.\<close>

definition body_verdict :: "'d json_decoder \<Rightarrow> request \<Rightarrow> int option" where
  "body_verdict dec r =
     (let d = disallow_unknown_fields dec (new_decoder dec (req_body r)) in
      if parse_media_type (header_get (req_header r) ''Content-Type'') \<noteq> Some ''application/json''
      then Some 415
      else case decode_into dec d of
          (Some err, _) \<Rightarrow> Some (if as_max_bytes err = None then 400 else 413)
        | (None, d') \<Rightarrow>
            (case fst (decode_empty_struct dec d') of
               Some err \<Rightarrow> if errors_is err EOF then None else Some 400
             | None \<Rightarrow> Some 400))"

lemma decode_json_verdict:
  "map_option (\<lambda>e. map ce_status (client_errors_of e)) (decode_json dec tab r) =
   map_option (\<lambda>s. [s]) (body_verdict dec r)"
  by (auto simp: decode_json_def require_json_content_type_def body_verdict_def Let_def
      json_media_type_def client_error_for_decode_def split: option.splits prod.splits)

lemma body_verdict_cases: "body_verdict dec r = Some s \<Longrightarrow> s \<in> {400, 413, 415}"
  by (auto simp: body_verdict_def Let_def split: if_splits option.splits prod.splits)



section \<open>Which member a pointer names\<close>

text \<open>RFC 6901: a pointer is empty or a sequence of tokens, each after a slash and unescaped.\<close>

fun unescape_token :: "string \<Rightarrow> string option" where
  "unescape_token [] = Some []"
| "unescape_token [c] = (if c = CHR ''~'' then None else Some [c])"
| "unescape_token (c # d # cs) =
     (if c \<noteq> CHR ''~'' then map_option ((#) c) (unescape_token (d # cs))
      else if d = CHR ''0'' then map_option ((#) (CHR ''~'')) (unescape_token cs)
      else if d = CHR ''1'' then map_option ((#) (CHR ''/'')) (unescape_token cs)
      else None)"

definition pointer_tokens :: "string \<Rightarrow> string list option" where
  "pointer_tokens p =
     (case p of
        [] \<Rightarrow> Some []
      | c # cs \<Rightarrow>
          if c = CHR ''/'' then those (map unescape_token (split cs CHR ''/'')) else None)"

lemma unescape_token_length: "unescape_token t = Some u \<Longrightarrow> length u \<le> length t"
proof (induction t arbitrary: u rule: unescape_token.induct)
  case (3 c d cs)
  show ?case
  proof (cases "c = CHR ''~''")
    case True
    with 3(4) obtain v where "unescape_token cs = Some v" "length u = Suc (length v)"
      and "d = CHR ''0'' \<or> d = CHR ''1''"
      by (auto split: if_splits)
    with 3(2,3) True show ?thesis by fastforce
  qed (use 3 in auto)
qed (auto split: if_splits)

lemma unescape_token_plain: "CHR ''~'' \<notin> set t \<Longrightarrow> unescape_token t = Some t"
  by (induction t rule: unescape_token.induct) auto

lemma unescape_token_escaped: "CHR ''~'' \<in> set t \<Longrightarrow> unescape_token t \<noteq> Some t"
proof (induction t rule: unescape_token.induct)
  case (3 c d cs)
  show ?case
  proof (cases "c = CHR ''~''")
    case True
    show ?thesis
    proof
      assume "unescape_token (c # d # cs) = Some (c # d # cs)"
      with True obtain u where "unescape_token cs = Some u" "length u = Suc (length cs)"
        by (auto split: if_splits)
      then show False using unescape_token_length by fastforce
    qed
  qed (use 3 in auto)
qed (simp_all split: if_splits)

lemma unknown_field_pointer:
  assumes "list_all plain name" "name \<noteq> []" "CHR ''/'' \<notin> set name"
  shows "decode_pointer (ErrText (unknown_field_prefix @ go_quote tab name)) = CHR ''/'' # name"
  using assms by (simp add: decode_pointer_def as_unmarshal_type_def cut_prefix_def unquote_quote_plain)



lemma tilde_field_names_another_member:
  "pointer_tokens (decode_pointer (ErrText (''json: unknown field '' @ go_quote no_print_table ''a~1b''))) =
     Some [''a/b'']"
  by code_simp

end
