(* ===== verification/Trust_Properties.thy ===== *)
theory Trust_Properties
  imports Request_Id
begin

text \<open>
  What the trust boundary guarantees: a client behind a trusted proxy cannot choose the address
  it is attributed to, an untrusted peer's headers decide nothing, the trusted set is the
  configured list read as it stands, and every request identifier is well formed.
\<close>

section \<open>Samples for the witnesses\<close>

definition proxied_request :: "string list \<Rightarrow> request" where
  "proxied_request values =
     \<lparr>req_method = ''GET'', url_path = ''/'', url_escaped_path = ''/'', remote_addr = ''10.0.0.7:4711'',
      req_header = no_header(''X-Forwarded-For'' := values), content_length = 0,
      req_body = ConnBody [] (ErrSentinel EOF), req_pattern = [],
      req_ctx = \<lparr>ctx_request_id = None, ctx_deadline = None, ctx_span = None\<rparr>\<rparr>"

definition ten_slash_eight :: trusted_proxies where
  "ten_slash_eight = \<lparr>networks = [\<lparr>prefix_addr = IPv4 0x0A000000, prefix_bits = 8\<rparr>]\<rparr>"

section \<open>Attribution\<close>

lemma forwarded_for_tail:
  assumes "header_values (req_header r) forwarded_for_header = vs @ [spoof @ CHR '','' # join (hop # near) '','']"
    and "list_all (\<lambda>w. CHR '','' \<notin> set w) (hop # near)"
  shows "\<exists>far. forwarded_for r = far @ forwarded_hop hop # map forwarded_hop near"
proof -
  have "split (spoof @ CHR '','' # join (hop # near) '','') CHR '','' = split spoof CHR '','' @ hop # near"
    unfolding split_append using split_joined [OF _ assms(2)] by simp
  then show ?thesis using assms(1) by (auto simp: forwarded_for_def)
qed

lemma client_ip_walk:
  assumes "peer_addr r = Some p" "trusts t p"
    and "forwarded_for r = far @ h # map forwarded_hop near"
    and "list_all (\<lambda>e. \<exists>a. forwarded_hop e = Some a \<and> trusts t a) near"
    and "case h of None \<Rightarrow> True | Some a \<Rightarrow> \<not> trusts t a"
  shows "client_ip t r = addr_text (case h of None \<Rightarrow> p | Some a \<Rightarrow> a)"
proof -
  have near: "list_all (\<lambda>h. \<exists>a. h = Some a \<and> trusts t a) (rev (map forwarded_hop near))"
    using assms(4) by (auto simp: list_all_iff)
  show ?thesis
  proof (cases h)
    case None
    then show ?thesis
      using assms(1,2,3) proxies.walk_stops [OF near, of "rev far"] by (simp add: client_ip_def)
  next
    case (Some a)
    with assms(5) have "\<not> trusts t a" by simp
    then show ?thesis
      using Some assms(1,2,3) proxies.walk_reaches [OF near, of a "rev far"]
      by (simp add: client_ip_def)
  qed
qed



text \<open>A peer that is not a trusted proxy decides nothing with its headers: whatever they say,
  the request is attributed to the peer, and its identifier is freshly generated, 32 hexadecimal
  digits drawn from the random source.\<close>

theorem untrusted_headers_decide_nothing:
  assumes "\<not> trusts_peer t r"
  shows "client_ip t (r\<lparr>req_header := h\<rparr>) = (case peer_addr r of None \<Rightarrow> [] | Some p \<Rightarrow> addr_text p) \<and>
    request_id t (r\<lparr>req_header := h\<rparr>) x = new_request_id x \<and>
    length (fst (request_id t (r\<lparr>req_header := h\<rparr>) x)) = 32 \<and>
    list_all is_request_id_byte (fst (request_id t (r\<lparr>req_header := h\<rparr>) x))"
proof -
  have peer: "peer_addr (r\<lparr>req_header := h\<rparr>) = peer_addr r"
    by (simp add: peer_addr_def split: option.splits)
  then have "\<not> trusts_peer t (r\<lparr>req_header := h\<rparr>)" using assms by (simp add: trusts_peer_def)
  then have fresh: "request_id t (r\<lparr>req_header := h\<rparr>) x = new_request_id x"
    by (simp add: request_id_def Let_def)
  then show ?thesis
    using new_request_id_valid [of x] assms peer
    by (auto simp: client_ip_def trusts_peer_def valid_request_id_def all_request_id_bytes_iff
        split: option.splits if_splits)
qed

theorem untrusted_headers_decide_nothing_witness:
  "client_ip zero_proxies ((proxied_request [])\<lparr>req_header := no_header(''X-Forwarded-For'' := [''1.2.3.4''])\<rparr>) =
     (case peer_addr (proxied_request []) of None \<Rightarrow> [] | Some p \<Rightarrow> addr_text p) \<and>
   request_id zero_proxies ((proxied_request [])\<lparr>req_header := no_header(''X-Forwarded-For'' := [''1.2.3.4''])\<rparr>)
     new_exchange = new_request_id new_exchange \<and>
   length (fst (request_id zero_proxies
     ((proxied_request [])\<lparr>req_header := no_header(''X-Forwarded-For'' := [''1.2.3.4''])\<rparr>) new_exchange)) = 32 \<and>
   list_all is_request_id_byte (fst (request_id zero_proxies
     ((proxied_request [])\<lparr>req_header := no_header(''X-Forwarded-For'' := [''1.2.3.4''])\<rparr>) new_exchange))"
  by (rule untrusted_headers_decide_nothing) (simp add: trusts_peer_def split: option.splits)

section \<open>The trusted set\<close>

text \<open>NewTrustedProxies takes the whole list or nothing: the first non-blank entry that is not
  a network is the error, and when there is none an address is trusted exactly when one of the
  entries, as written, contains it. Storing them masked and skipping blank entries changes no
  decision.\<close>

theorem trusted_set_is_the_list:
  "case new_trusted_proxies cfg of
     Inl (ParsingTrustedCidr s) \<Rightarrow>
       find (\<lambda>e. parse_prefix e = None) (cidr_entries (trusted_cidrs cfg)) = Some s
   | Inr t \<Rightarrow>
       list_all (\<lambda>e. parse_prefix e \<noteq> None) (cidr_entries (trusted_cidrs cfg)) \<and>
       trusts t a =
         list_ex (\<lambda>e. prefix_contains (the (parse_prefix e)) a) (cidr_entries (trusted_cidrs cfg))"
proof (cases "parse_networks (trusted_cidrs cfg) []")
  case (Inl e)
  obtain s where e: "e = ParsingTrustedCidr s" by (cases e)
  with Inl have "find (\<lambda>e. parse_prefix e = None) (cidr_entries (trusted_cidrs cfg)) = Some s"
    by (simp only: parse_networks_Inl)
  then show ?thesis unfolding new_trusted_proxies_def Inl e by simp
next
  case (Inr nets)
  then have ok: "list_all (\<lambda>e. parse_prefix e \<noteq> None) (cidr_entries (trusted_cidrs cfg))"
    and nets: "nets = map (masked \<circ> the \<circ> parse_prefix) (cidr_entries (trusted_cidrs cfg))"
    by (simp_all add: parse_networks_Inr list_all_iff)
  have "prefix_contains (masked (the (parse_prefix e))) a = prefix_contains (the (parse_prefix e)) a"
    if e: "e \<in> set (cidr_entries (trusted_cidrs cfg))" for e
  proof -
    obtain q where "parse_prefix e = Some q" using ok e by (auto simp: list_all_iff)
    then show ?thesis using masked_contains [OF parse_prefix_ok] by simp
  qed
  then have "trusts \<lparr>networks = nets\<rparr> a =
      list_ex (\<lambda>e. prefix_contains (the (parse_prefix e)) a) (cidr_entries (trusted_cidrs cfg))"
    by (simp add: trusts_iff nets list_ex_iff)
  with Inr ok show ?thesis by (simp add: new_trusted_proxies_def)
qed

text \<open>C39: A network written with IPv4-mapped addresses is accepted and never believed: peers and
  hops are compared in their IPv4 form, which no such network contains.\<close>

theorem mapped_network_never_matches:
  assumes "parse_prefix (trim_space e) = Some p" and "is_4in6 (prefix_addr p)" and "96 \<le> prefix_bits p"
  shows "proxy_config_validate \<lparr>trusted_cidrs = [e]\<rparr> = None \<and>
    (case new_trusted_proxies \<lparr>trusted_cidrs = [e]\<rparr> of
       Inl _ \<Rightarrow> False
     | Inr t \<Rightarrow> \<not> trusts_peer t r \<and> \<not> list_ex (\<lambda>h. case h of None \<Rightarrow> False | Some a \<Rightarrow> trusts t a) (forwarded_for r))"
proof -
  have "trim_space e \<noteq> []" using assms(1) by (auto simp: parse_prefix_def last_index_def)
  then have run: "new_trusted_proxies \<lparr>trusted_cidrs = [e]\<rparr> = Inr \<lparr>networks = [masked p]\<rparr>"
    using assms(1) by (simp add: new_trusted_proxies_def Let_def)
  have miss: "\<not> trusts \<lparr>networks = [masked p]\<rparr> (unmap a)" for a
    using mapped_prefix_misses [OF parse_prefix_ok [OF assms(1)] assms(2,3)]
      masked_contains [OF parse_prefix_ok [OF assms(1)]]
    by (simp add: trusts_iff)
  have peer: "\<not> trusts_peer \<lparr>networks = [masked p]\<rparr> r"
    using miss by (auto simp: trusts_peer_def peer_addr_def split: option.splits)
  have "\<not> list_ex (\<lambda>h. case h of None \<Rightarrow> False | Some a \<Rightarrow> trusts \<lparr>networks = [masked p]\<rparr> a) (forwarded_for r)"
    using miss by (auto simp: list_ex_iff forwarded_for_def forwarded_hop_def split: option.splits)
  then show ?thesis using run peer by (simp add: proxy_config_validate_def)
qed

theorem mapped_network_never_matches_witness:
  "proxy_config_validate \<lparr>trusted_cidrs = [''::ffff:10.0.0.0/104'']\<rparr> = None \<and>
    (case new_trusted_proxies \<lparr>trusted_cidrs = [''::ffff:10.0.0.0/104'']\<rparr> of
       Inl _ \<Rightarrow> False
     | Inr t \<Rightarrow> \<not> trusts_peer t (proxied_request []) \<and>
         \<not> list_ex (\<lambda>h. case h of None \<Rightarrow> False | Some a \<Rightarrow> trusts t a) (forwarded_for (proxied_request [])))"
proof (rule mapped_network_never_matches)
  show "parse_prefix (trim_space ''::ffff:10.0.0.0/104'') =
      Some \<lparr>prefix_addr = IPv6 0xFFFF0A000000 [], prefix_bits = 104\<rparr>"
    by code_simp
  show "is_4in6 (prefix_addr \<lparr>prefix_addr = IPv6 0xFFFF0A000000 [], prefix_bits = 104\<rparr>)"
    by code_simp
qed simp

end
