(* ===== verification/Text_Properties.thy ===== *)
theory Text_Properties
  imports Config_Types
begin

text \<open>
  What an operator may rely on when writing settings: a byte size means what its digits and unit
  say or is refused, and whatever is printed reads back as itself, over any earlier value.
\<close>

text \<open>C26: A byte size that is not blank is read as its count times its unit, as unbounded integers,
  when the text has that shape and the product fits 64 bits; in every other case, overflow
  included, there is an error and the receiver keeps the value it had. Blank text changes nothing.\<close>

theorem byte_size_means_what_it_says:
  "case byte_size_unmarshal_text old text of
     (new, Some err) \<Rightarrow> new = old \<and> trim_space text \<noteq> [] \<and> byte_size_reading text = None
   | (new, None) \<Rightarrow>
       (trim_space text = [] \<and> new = old) \<or> byte_size_reading text = Some (sint new)"
proof (cases "trim_space text = []")
  case True
  then show ?thesis by (simp add: byte_size_unmarshal_text_def)
next
  case False
  note reading = byte_size_unmarshal_reading [OF False, of old]
  show ?thesis
  proof (cases "byte_size_reading text")
    case None
    with reading False show ?thesis by auto
  next
    case (Some i)
    then have "- (2 ^ 63) \<le> i" "i < 2 ^ 63"
      by (auto simp: byte_size_reading_def Let_def split: sum.splits option.splits if_splits)
    then show ?thesis using reading Some by (simp add: sint64_of_int)
  qed
qed

text \<open>C25: Every byte size prints as text that reads back as the same size, whatever the receiver
  held, and different sizes print differently.\<close>

theorem byte_size_round_trip:
  "byte_size_unmarshal_text old (byte_size_marshal_text b) = (b, None) \<and>
   (byte_size_marshal_text b = byte_size_marshal_text c) = (b = c)"
  using byte_size_codec.read_back byte_size_codec.marshal_inject by blast

text \<open>Every duration, the most negative included, prints as text that reads back as the same
  number of nanoseconds, provided the one floating-point step of the parser is exact on the
  fractions a duration prints.\<close>

theorem duration_round_trip:
  assumes "float_frac_exact frac"
  shows "duration_unmarshal_text frac old (duration_marshal_text d) = (d, None) \<and>
    duration_unmarshal_text frac old [] = (old, None)"
  using duration_text_round_trip [OF assms] by (simp add: duration_unmarshal_text_def)

theorem duration_round_trip_witness:
  "duration_unmarshal_text integer_frac 7 (duration_marshal_text 1500000000) = (1500000000, None) \<and>
   duration_unmarshal_text integer_frac 7 [] = (7, None)"
  by (rule duration_round_trip) (rule integer_frac_exact)

end
