(* ===== verification/Routing_Properties.thy ===== *)
theory Routing_Properties
  imports Handler_Chain Readiness_Properties
begin

text \<open>
  Which handler a request reaches: the application listener serves its two probes and hands
  everything else to the user interface, and the administrative listener reads only, profiling
  symbol lookups aside.
\<close>

section \<open>Route tables\<close>

lemma app_routes_table:
  "app_routes rd lg ui =
     [\<lparr>route_method = ''GET'', route_segments = [Lit ''healthz''], route_text = ''GET /healthz'',
       route_handler = new_health_handler lg\<rparr>,
      \<lparr>route_method = ''GET'', route_segments = [Lit ''readyz''], route_text = ''GET /readyz'',
       route_handler = new_readiness_handler rd lg\<rparr>,
      \<lparr>route_method = [], route_segments = [Multi], route_text = ''/'', route_handler = ui\<rparr>]"
  by (simp add: app_routes_def mux_route_def cut_def parse_segments_def health_path_def ready_path_def
      Let_def)

lemma admin_routes_methods:
  "map (\<lambda>rt. (route_method rt, route_text rt)) (admin_routes pp v lg rd process metrics) =
     [(''GET'', ''GET /metrics''), (''GET'', ''GET /healthz''), (''GET'', ''GET /readyz''),
      (''GET'', ''GET /version''), (''GET'', ''GET /debug/pprof/''), (''GET'', ''GET /debug/pprof/cmdline''),
      (''GET'', ''GET /debug/pprof/profile''), (''GET'', ''GET /debug/pprof/symbol''),
      (''POST'', ''POST /debug/pprof/symbol''), (''GET'', ''GET /debug/pprof/trace'')]"
  by (simp add: admin_routes_def mux_route_def cut_def health_path_def ready_path_def version_path_def
      Let_def)

section \<open>Matching\<close>

lemma match_path_Nil [simp]: "match_path ([] :: (segment list \<times> 'a) list) path = None"
proof (cases "match_path ([] :: (segment list \<times> 'a) list) path")
  case (Some a)
  from match_path_mem [OF this] show ?thesis by simp
qed simp

lemma literal_child_simps [simp]:
  "literal_child seg [] = []"
  "literal_child seg (([], a) # cands) = literal_child seg cands"
  "literal_child seg ((Multi # ss, a) # cands) = literal_child seg cands"
  "literal_child seg ((Lit s # ss, a) # cands) =
     (if s = seg then (ss, a) # literal_child seg cands else literal_child seg cands)"
  by (simp_all add: literal_child_def List.map_filter_def)

lemma multi_child_simps [simp]:
  "multi_child [] = None"
  "multi_child ((ss, a) # cands) = (if ss = [Multi] then Some a else multi_child cands)"
  by (simp_all add: multi_child_def)

lemma match_path_end: "match_path [([], a)] path = (if path = [] then Some a else None)"
  by (simp add: match_path.simps [of "[([], a)]" path] split: prod.splits)

lemma match_path_probes:
  assumes "path \<noteq> []" "s \<noteq> t"
  shows "match_path [([Lit s], a), ([Lit t], b)] path =
    (if first_segment path = (s, []) then Some a
     else if first_segment path = (t, []) then Some b else None)"
  using assms by (auto simp: match_path.simps [of _ path] match_path_end split: prod.splits)

lemma match_path_root: "path \<noteq> [] \<Longrightarrow> match_path [([Multi], a)] path = Some a"
  by (simp add: match_path.simps [of _ path] split: prod.splits)

lemma route_method_of_match:
  "match_method_and_path routes m path = Some rt \<Longrightarrow>
   route_method rt = m \<or> (m = ''HEAD'' \<and> route_method rt = ''GET'') \<or> route_method rt = []"
  by (auto simp: match_method_and_path_def under_method_def split: option.splits if_splits
      dest!: match_path_mem)

lemma find_handler_method:
  "find_handler routes r = To_route rt \<Longrightarrow>
   route_method rt = req_method r \<or> (req_method r = ''HEAD'' \<and> route_method rt = ''GET'') \<or>
   route_method rt = []"
  by (auto simp: find_handler_def match_or_redirect_def Let_def
      split: if_splits option.splits dest: route_method_of_match)

section \<open>The administrative listener\<close>

text \<open>C28: A request that reaches a handler of the administrative listener is a GET or a HEAD, or a
  POST to the profiler's symbol lookup: no other method is dispatched, whatever the path.\<close>

theorem admin_routes_only_read:
  assumes "find_handler (admin_routes pp v lg rd process metrics) r = To_route rt"
  shows "req_method r \<in> {''GET'', ''HEAD''} \<or>
    req_method r = ''POST'' \<and> route_text rt = ''POST /debug/pprof/symbol''"
proof -
  have "(route_method rt, route_text rt) \<in>
      set (map (\<lambda>rt. (route_method rt, route_text rt)) (admin_routes pp v lg rd process metrics))"
    using find_handler_route [OF assms] by simp
  then show ?thesis
    unfolding admin_routes_methods using find_handler_method [OF assms] by auto
qed

definition silent_pprof :: pprof_handlers where
  "silent_pprof = \<lparr>pprof_index = (\<lambda>_. HDone), pprof_cmdline = (\<lambda>_. HDone), pprof_profile = (\<lambda>_. HDone),
     pprof_symbol = (\<lambda>_. HDone), pprof_trace = (\<lambda>_. HDone)\<rparr>"

definition sample_process :: process_info where
  "sample_process = \<lparr>process_build = \<lparr>build_version = ''1.2.3'', build_commit = ''abc'', build_date = ''today''\<rparr>,
     process_started = 0\<rparr>"

definition idle_handler :: handler where
  "idle_handler r w x = (Returned, r, x)"

theorem admin_routes_only_read_witness:
  "\<exists>rt. find_handler (admin_routes silent_pprof ''go1.24'' [] probed sample_process idle_handler)
      (probe_request\<lparr>req_method := ''HEAD''\<rparr>) = To_route rt \<and>
    (req_method (probe_request\<lparr>req_method := ''HEAD''\<rparr>) \<in> {''GET'', ''HEAD''} \<or>
     req_method (probe_request\<lparr>req_method := ''HEAD''\<rparr>) = ''POST'' \<and>
     route_text rt = ''POST /debug/pprof/symbol'')"
proof -
  have "case find_handler (admin_routes silent_pprof ''go1.24'' [] probed sample_process idle_handler)
      (probe_request\<lparr>req_method := ''HEAD''\<rparr>) of
      To_route rt \<Rightarrow> route_text rt = ''GET /readyz'' | _ \<Rightarrow> False"
    by code_simp
  then obtain rt where rt: "find_handler (admin_routes silent_pprof ''go1.24'' [] probed sample_process idle_handler)
      (probe_request\<lparr>req_method := ''HEAD''\<rparr>) = To_route rt"
    by (auto split: dispatch.splits)
  then show ?thesis using admin_routes_only_read [OF rt] by blast
qed

section \<open>The application listener\<close>

text \<open>The route table read as a rule.\<close>

definition app_route :: "readiness \<Rightarrow> logger \<Rightarrow> handler \<Rightarrow> request \<Rightarrow> handler" where
  "app_route rd lg ui r =
     (let target = first_segment (url_escaped_path r) in
      if req_method r \<in> {''GET'', ''HEAD''} \<and> target = (''healthz'', []) then new_health_handler lg
      else if req_method r \<in> {''GET'', ''HEAD''} \<and> target = (''readyz'', []) then new_readiness_handler rd lg
      else ui)"

lemma app_match:
  assumes "path \<noteq> []"
  shows "match_method_and_path (app_routes rd lg ui) m path =
    Some (app_routes rd lg ui !
      (if m \<in> {''GET'', ''HEAD''} \<and> first_segment path = (''healthz'', []) then 0
       else if m \<in> {''GET'', ''HEAD''} \<and> first_segment path = (''readyz'', []) then 1
       else 2))"
  using assms
  by (cases "m = ''GET''"; cases "m = ''HEAD''"; cases "m = []")
    (simp_all add: match_method_and_path_def app_routes_table under_method_def match_path_probes
      match_path_root)

lemma first_segment_slash: "path \<noteq> [] \<Longrightarrow> snd (first_segment (path @ ''/'')) \<noteq> []"
proof -
  assume "path \<noteq> []"
  then obtain c cs where path: "path = c # cs" by (cases path) auto
  have "length (takeWhile (\<lambda>c. c \<noteq> CHR ''/'') (cs @ ''/'')) \<le> length cs" by (induction cs) auto
  then show ?thesis by (auto simp: first_segment_def Let_def path)
qed

lemma app_no_redirect:
  assumes "path \<noteq> []" "hd path = CHR ''/''"
  shows "match_or_redirect (app_routes rd lg ui) m path u =
    (match_method_and_path (app_routes rd lg ui) m path, None)"
proof -
  have "match_method_and_path (app_routes rd lg ui) m (path @ ''/'') = Some (app_routes rd lg ui ! 2)"
    using app_match [of "path @ ''/''" rd lg ui m] first_segment_slash [OF assms(1)] by auto
  moreover have "count_list (path @ ''/'') CHR ''/'' \<noteq> 1" using assms by (cases path) auto
  ultimately have "\<not> exact_match (match_method_and_path (app_routes rd lg ui) m (path @ ''/'')) (path @ ''/'')"
    by (simp add: exact_match_def app_routes_table)
  then show ?thesis by (simp add: match_or_redirect_def Let_def split: option.splits)
qed

lemma clean_path_rooted: "clean_path p \<noteq> []" "hd (clean_path p) = CHR ''/''"
  by (simp_all add: clean_path_def clean_rooted_def Let_def)



end
