(* ===== verification/Settings.thy ===== *)
theory Settings
  imports Server_Config Proxy
begin

text \<open>
  The settings the process runs with: the configuration structs of \<open>internal/logging\<close> and
  \<open>internal/telemetry\<close>, the composed \<open>Config\<close> of \<open>internal/config\<close> with its defaults, and the JSON
  each of them renders to, which is what the start-up log shows.
\<close>

section \<open>Logging\<close>

text \<open>The zap levels, by the names they are read and written with.\<close>

datatype log_level = Debug | Info | Warn | Error | DPanic | Panic | Fatal

definition level_text :: "log_level \<Rightarrow> string" where
  "level_text l =
     (case l of Debug \<Rightarrow> ''debug'' | Info \<Rightarrow> ''info'' | Warn \<Rightarrow> ''warn'' | Error \<Rightarrow> ''error''
      | DPanic \<Rightarrow> ''dpanic'' | Panic \<Rightarrow> ''panic'' | Fatal \<Rightarrow> ''fatal'')"

definition format_json :: string where
  "format_json = ''json''"

definition format_console :: string where
  "format_console = ''console''"

record log_config =
  log_level :: log_level
  log_format :: string

definition default_log_config :: log_config where
  "default_log_config = \<lparr>log_level = Info, log_format = format_console\<rparr>"

section \<open>Telemetry\<close>

definition default_service_name :: string where
  "default_service_name = ''service''"

definition env_otlp_endpoint :: string where
  "env_otlp_endpoint = ''OTEL_EXPORTER_OTLP_ENDPOINT''"

record telemetry_config =
  service_name :: string
  service_version :: string
  otlp_endpoint :: string
  otlp_traces_endpoint :: string

definition default_telemetry_config :: telemetry_config where
  "default_telemetry_config =
     \<lparr>service_name = default_service_name, service_version = [], otlp_endpoint = [],
      otlp_traces_endpoint = []\<rparr>"

definition traces_endpoint :: "telemetry_config \<Rightarrow> string" where
  "traces_endpoint c = (if otlp_traces_endpoint c \<noteq> [] then otlp_traces_endpoint c else otlp_endpoint c)"

section \<open>The composed configuration\<close>

record config =
  cfg_log :: log_config
  cfg_server :: server_config
  cfg_admin :: server_config
  cfg_lifecycle :: lifecycle_config
  cfg_proxy :: proxy_config
  cfg_telemetry :: telemetry_config

definition default_config :: config where
  "default_config =
     \<lparr>cfg_log = default_log_config,
      cfg_server = default_server_config,
      cfg_admin = default_admin_config,
      cfg_lifecycle = default_lifecycle_config,
      cfg_proxy = default_proxy_config,
      cfg_telemetry = default_telemetry_config\<rparr>"

text \<open>The zero values, as a failed load returns them.\<close>

definition zero_server_config :: server_config where
  "zero_server_config =
     \<lparr>cfg_addr = [], read_header_timeout = 0, read_timeout = 0, write_timeout = 0, idle_timeout = 0,
      shutdown_timeout = 0, max_header_bytes = 0, max_request_body_bytes = 0, max_in_flight = 0,
      handler_timeout = 0\<rparr>"

definition zero_config :: config where
  "zero_config =
     \<lparr>cfg_log = \<lparr>log_level = Info, log_format = []\<rparr>,
      cfg_server = zero_server_config, cfg_admin = zero_server_config,
      cfg_lifecycle = \<lparr>pre_drain_delay = 0\<rparr>, cfg_proxy = \<lparr>trusted_cidrs = []\<rparr>,
      cfg_telemetry = \<lparr>service_name = [], service_version = [], otlp_endpoint = [],
        otlp_traces_endpoint = []\<rparr>\<rparr>"

section \<open>JSON\<close>

definition log_config_json :: "log_config \<Rightarrow> json" where
  "log_config_json c =
     JObject [(''level'', JString (level_text (log_level c))), (''format'', JString (log_format c))]"

definition server_config_json :: "server_config \<Rightarrow> json" where
  "server_config_json c =
     JObject
       [(''addr'', JString (cfg_addr c)),
        (''read_header_timeout'', JString (duration_marshal_text (read_header_timeout c))),
        (''read_timeout'', JString (duration_marshal_text (read_timeout c))),
        (''write_timeout'', JString (duration_marshal_text (write_timeout c))),
        (''idle_timeout'', JString (duration_marshal_text (idle_timeout c))),
        (''shutdown_timeout'', JString (duration_marshal_text (shutdown_timeout c))),
        (''max_header_bytes'', JString (byte_size_marshal_text (max_header_bytes c))),
        (''max_request_body_bytes'', JString (byte_size_marshal_text (max_request_body_bytes c))),
        (''max_in_flight'', JNumber (max_in_flight c)),
        (''handler_timeout'', JString (duration_marshal_text (handler_timeout c)))]"

definition lifecycle_config_json :: "lifecycle_config \<Rightarrow> json" where
  "lifecycle_config_json c =
     JObject [(''pre_drain_delay'', JString (duration_marshal_text (pre_drain_delay c)))]"

text \<open>A list no variable set is nil, which encodes as null.\<close>

definition proxy_config_json :: "proxy_config \<Rightarrow> json" where
  "proxy_config_json c =
     JObject [(''trusted_cidrs'',
       if trusted_cidrs c = [] then JNull else JArray (map JString (trusted_cidrs c)))]"

definition telemetry_config_json :: "telemetry_config \<Rightarrow> json" where
  "telemetry_config_json c =
     JObject
       [(''service_name'', JString (service_name c)), (''service_version'', JString (service_version c)),
        (''otlp_endpoint'', JString (otlp_endpoint c)),
        (''otlp_traces_endpoint'', JString (otlp_traces_endpoint c))]"

definition config_json :: "config \<Rightarrow> json" where
  "config_json c =
     JObject
       [(''log'', log_config_json (cfg_log c)),
        (''server'', server_config_json (cfg_server c)),
        (''admin'', server_config_json (cfg_admin c)),
        (''lifecycle'', lifecycle_config_json (cfg_lifecycle c)),
        (''proxy'', proxy_config_json (cfg_proxy c)),
        (''telemetry'', telemetry_config_json (cfg_telemetry c))]"

text \<open>What is rendered can be told apart: each struct's JSON determines the struct.\<close>

named_theorems json_inject \<open>a struct's JSON determines it\<close>

lemma level_text_inject [json_inject]: "level_text l = level_text m \<longleftrightarrow> l = m"
  by (cases l; cases m) (simp_all add: level_text_def)

lemma duration_text_inject [json_inject]: "duration_marshal_text d = duration_marshal_text e \<longleftrightarrow> d = e"
  by (rule int_float.dur.marshal_inject)

lemma byte_size_text_inject [json_inject]: "byte_size_marshal_text b = byte_size_marshal_text c \<longleftrightarrow> b = c"
  by (rule byte_size_codec.marshal_inject)

lemma log_config_json_inject [json_inject]: "log_config_json c = log_config_json d \<longleftrightarrow> c = d"
  by (auto simp: log_config_json_def json_inject)

lemma server_config_json_inject [json_inject]: "server_config_json c = server_config_json d \<longleftrightarrow> c = d"
  by (auto simp: server_config_json_def json_inject)

lemma lifecycle_config_json_inject [json_inject]: "lifecycle_config_json c = lifecycle_config_json d \<longleftrightarrow> c = d"
  by (auto simp: lifecycle_config_json_def json_inject)

lemma map_JString_inject: "map JString xs = map JString ys \<longleftrightarrow> xs = ys"
  by (rule inj_map_eq_map) (simp add: inj_on_def)

lemma proxy_config_json_inject [json_inject]: "proxy_config_json c = proxy_config_json d \<longleftrightarrow> c = d"
  by (auto simp: proxy_config_json_def map_JString_inject split: if_splits)

lemma telemetry_config_json_inject [json_inject]:
  "telemetry_config_json c = telemetry_config_json d \<longleftrightarrow> c = d"
  by (auto simp: telemetry_config_json_def)

lemma config_json_inject: "config_json c = config_json d \<longleftrightarrow> c = d"
  by (auto simp: config_json_def json_inject)

end
