(* ===== verification/Loader.thy ===== *)
theory Loader
  imports Go_Errors
begin

text \<open>
  \<open>internal/config/loader.go\<close>: decoding a settings struct from the environment and validating it.
  Reflection on the target is its list of fields, each with its name, its env tag and the custom
  validator it implements. go-envconfig and go-playground/validator are not in the repository:
  what they do to the target, and what they say of it, are the arguments \<open>read_env\<close> and
  \<open>check_tags\<close>.
\<close>

section \<open>Fields and their env tags\<close>

type_synonym 's validator = "'s \<Rightarrow> go_error option \<times> 's"

record 's struct_field =
  field_name :: string
  field_exported :: bool
  field_is_struct :: bool
  field_env :: "string option"
  field_validator :: "'s validator option"

fun prefix_option :: "string list \<Rightarrow> string" where
  "prefix_option [] = []"
| "prefix_option (opt # opts) =
     (case cut_prefix (trim_space opt) ''prefix='' of
        (prefix, True) \<Rightarrow> prefix
      | (_, False) \<Rightarrow> prefix_option opts)"

definition env_tag_prefix :: "string option \<Rightarrow> string" where
  "env_tag_prefix tag =
     (case tag of
        None \<Rightarrow> []
      | Some t \<Rightarrow> prefix_option (drop 1 (split t CHR '','')))"

definition env_tag_name :: "string option \<Rightarrow> string" where
  "env_tag_name tag =
     (case tag of
        None \<Rightarrow> []
      | Some t \<Rightarrow> (case cut t CHR '','' of (name, _, _) \<Rightarrow> trim_space name))"

definition env_label :: "'s struct_field \<Rightarrow> string" where
  "env_label f = (let prefix = env_tag_prefix (field_env f) in if prefix \<noteq> [] then prefix else field_name f)"

section \<open>Validation\<close>

text \<open>The loop of \<open>validateFields\<close>; a hook may write back to what it validates.\<close>

fun run_validators :: "'s struct_field list \<Rightarrow> go_error option list \<Rightarrow> 's \<Rightarrow> go_error option list \<times> 's" where
  "run_validators [] errs s = (errs, s)"
| "run_validators (f # fs) errs s =
     (if \<not> field_exported f \<or> \<not> field_is_struct f then run_validators fs errs s
      else case field_validator f of
          None \<Rightarrow> run_validators fs errs s
        | Some validate \<Rightarrow>
            (case validate s of
               (None, s') \<Rightarrow> run_validators fs errs s'
             | (Some err, s') \<Rightarrow>
                 run_validators fs (errs @ [Some (ErrWrap (''validating '' @ env_label f) err)]) s'))"

definition validate_fields :: "'s struct_field list \<Rightarrow> 's validator" where
  "validate_fields flds s = (case run_validators flds [] s of (errs, s') \<Rightarrow> (join_errors errs, s'))"

section \<open>Decode\<close>

text \<open>What \<open>Decode\<close> can be handed: a pointer to a struct, or something it refuses.\<close>

datatype 's target =
    Nil_target
  | Not_pointer
  | Nil_pointer
  | Not_struct_pointer
  | Struct_pointer 's

definition err_nil_target :: go_error where
  "err_nil_target = ErrText ''target cannot be nil''"

definition err_not_pointer :: go_error where
  "err_not_pointer = ErrText ''target is not a pointer''"

definition err_not_struct :: go_error where
  "err_not_struct = ErrText ''target is not a struct pointer''"

record 's decoder =
  read_env :: "'s validator"
  check_tags :: "'s \<Rightarrow> go_error option"
  target_fields :: "'s struct_field list"
  target_validator :: "'s validator option"

definition decode_struct :: "'s decoder \<Rightarrow> 's validator" where
  "decode_struct d s =
     (case read_env d s of
        (Some err, s1) \<Rightarrow> (Some (ErrWrap ''reading environment values'' err), s1)
      | (None, s1) \<Rightarrow>
          (case check_tags d s1 of
             Some err \<Rightarrow> (Some (ErrWrap ''validating configuration'' err), s1)
           | None \<Rightarrow>
               (case validate_fields (target_fields d) s1 of
                  (field_err, s2) \<Rightarrow>
                    (case target_validator d of
                       None \<Rightarrow> (join_errors [field_err, None], s2)
                     | Some validate \<Rightarrow>
                         (case validate s2 of
                            (err, s3) \<Rightarrow>
                              (join_errors [field_err, map_option (ErrWrap ''running custom validation'') err],
                               s3))))))"

definition decode_target :: "'s decoder \<Rightarrow> 's target \<Rightarrow> go_error option \<times> 's target" where
  "decode_target d t =
     (case t of
        Nil_target \<Rightarrow> (Some err_nil_target, t)
      | Not_pointer \<Rightarrow> (Some err_not_pointer, t)
      | Nil_pointer \<Rightarrow> (Some err_nil_target, t)
      | Not_struct_pointer \<Rightarrow> (Some err_not_struct, t)
      | Struct_pointer s \<Rightarrow> (case decode_struct d s of (err, s') \<Rightarrow> (err, Struct_pointer s')))"

section \<open>Facts\<close>

text \<open>The failures of hooks that leave the target as it is, in field order.\<close>

definition hook_errors :: "'s struct_field list \<Rightarrow> 's \<Rightarrow> go_error list" where
  "hook_errors flds s =
     List.map_filter (\<lambda>f.
       if field_exported f \<and> field_is_struct f then
         (case field_validator f of
            None \<Rightarrow> None
          | Some validate \<Rightarrow> map_option (ErrWrap (''validating '' @ env_label f)) (fst (validate s)))
       else None) flds"

text \<open>
  A hook that only reads: it returns the target as it found it. Every hook in this repository is
  one.
\<close>

definition read_only :: "'s validator \<Rightarrow> bool" where
  "read_only v \<longleftrightarrow> (\<forall>s. snd (v s) = s)"

definition read_only_hooks :: "'s struct_field list \<Rightarrow> bool" where
  "read_only_hooks flds \<longleftrightarrow> (\<forall>f \<in> set flds. \<forall>v. field_validator f = Some v \<longrightarrow> read_only v)"

lemma run_validators_read_only:
  "read_only_hooks flds \<Longrightarrow>
   run_validators flds errs s = (errs @ map Some (hook_errors flds s), s)"
proof (induction flds arbitrary: errs)
  case (Cons f fs)
  then have rest: "read_only_hooks fs" by (simp add: read_only_hooks_def)
  show ?case
  proof (cases "field_validator f")
    case (Some v)
    then have "snd (v s) = s" using Cons.prems by (simp add: read_only_hooks_def read_only_def)
    then obtain err where "v s = (err, s)" by (metis prod.collapse)
    then show ?thesis
      using Some Cons.IH [OF rest] by (cases err) (simp_all add: hook_errors_def List.map_filter_simps)
  qed (simp add: Cons.IH [OF rest] hook_errors_def List.map_filter_simps)
qed (simp add: hook_errors_def List.map_filter_simps)

lemma join_errors_map_Some: "join_errors (map Some es) = (if es = [] then None else Some (ErrJoin es))"
proof -
  have "List.map_filter (\<lambda>e. e) (map Some es) = es"
    by (induction es) (simp_all add: List.map_filter_simps)
  then show ?thesis by (simp add: join_errors_def split: list.splits)
qed

lemma validate_fields_read_only:
  "read_only_hooks flds \<Longrightarrow>
   validate_fields flds s =
     (if hook_errors flds s = [] then None else Some (ErrJoin (hook_errors flds s)), s)"
  by (simp add: validate_fields_def run_validators_read_only join_errors_map_Some)

end
