(* ===== verification/Configuration.thy ===== *)
theory Configuration
  imports Settings Loader Go_Quote Response_Json
begin

text \<open>
  \<open>internal/config\<close>: \<open>Load\<close>, the composed configuration's own validation, \<open>LogEffective\<close> and
  \<open>SecretString\<close>. The reflection of \<open>listenAddresses\<close> and \<open>Decode\<close> runs over \<open>config_fields\<close>, the
  fields of \<open>Config\<close> with their tags, and \<open>server_config_tags\<close>, those of \<open>server.Config\<close>.
\<close>

section \<open>The structs' tags\<close>

definition server_config_tags :: "(string \<times> string) list" where
  "server_config_tags =
     [(''Addr'', ''ADDR, overwrite''),
      (''ReadHeaderTimeout'', ''READ_HEADER_TIMEOUT, overwrite''),
      (''ReadTimeout'', ''READ_TIMEOUT, overwrite''),
      (''WriteTimeout'', ''WRITE_TIMEOUT, overwrite''),
      (''IdleTimeout'', ''IDLE_TIMEOUT, overwrite''),
      (''ShutdownTimeout'', ''SHUTDOWN_TIMEOUT, overwrite''),
      (''MaxHeaderBytes'', ''MAX_HEADER_BYTES, overwrite''),
      (''MaxRequestBodyBytes'', ''MAX_REQUEST_BODY_BYTES, overwrite''),
      (''MaxInFlight'', ''MAX_IN_FLIGHT, overwrite''),
      (''HandlerTimeout'', ''HANDLER_TIMEOUT, overwrite'')]"

text \<open>What \<open>netip.ParsePrefix\<close> says of an entry it refuses is an argument.\<close>

definition proxy_error_value :: "print_table \<Rightarrow> (string \<Rightarrow> go_error) \<Rightarrow> proxy_error \<Rightarrow> go_error" where
  "proxy_error_value tab prefix_error e =
     (case e of
        ParsingTrustedCidr s \<Rightarrow> ErrWrap (''parsing trusted proxy CIDR '' @ go_quote tab s) (prefix_error s))"

definition proxy_validator :: "print_table \<Rightarrow> (string \<Rightarrow> go_error) \<Rightarrow> config validator" where
  "proxy_validator tab prefix_error c =
     (map_option (proxy_error_value tab prefix_error) (proxy_config_validate (cfg_proxy c)), c)"

definition composed_field :: "string \<Rightarrow> string option \<Rightarrow> config validator option \<Rightarrow> config struct_field" where
  "composed_field name tag v =
     \<lparr>field_name = name, field_exported = True, field_is_struct = True, field_env = tag, field_validator = v\<rparr>"

definition config_fields :: "print_table \<Rightarrow> (string \<Rightarrow> go_error) \<Rightarrow> config struct_field list" where
  "config_fields tab prefix_error =
     [composed_field ''Log'' (Some '', prefix=SERVICE_LOG_'') None,
      composed_field ''Server'' (Some '', prefix=SERVICE_SERVER_'') None,
      composed_field ''Admin'' (Some '', prefix=SERVICE_ADMIN_'') None,
      composed_field ''Lifecycle'' (Some '', prefix=SERVICE_LIFECYCLE_'') None,
      composed_field ''Proxy'' (Some '', prefix=SERVICE_PROXY_'') (Some (proxy_validator tab prefix_error)),
      composed_field ''Telemetry'' None None]"

section \<open>Listen addresses\<close>

text \<open>The assertion that a field holds a \<open>server.Config\<close>.\<close>

definition server_field :: "config \<Rightarrow> 's struct_field \<Rightarrow> server_config option" where
  "server_field c f =
     (if field_name f = ''Server'' then Some (cfg_server c)
      else if field_name f = ''Admin'' then Some (cfg_admin c)
      else None)"

definition err_addr_variable_unknown :: go_error where
  "err_addr_variable_unknown = ErrText ''cannot determine the listen address variable from server.Config''"

record listen_address =
  la_variable :: string
  la_addr :: string

fun found_listeners :: "config \<Rightarrow> string \<Rightarrow> 's struct_field list \<Rightarrow> listen_address list" where
  "found_listeners c name [] = []"
| "found_listeners c name (f # fs) =
     (if \<not> field_exported f then found_listeners c name fs
      else case server_field c f of
          None \<Rightarrow> found_listeners c name fs
        | Some listener \<Rightarrow>
            \<lparr>la_variable = env_tag_prefix (field_env f) @ name, la_addr = cfg_addr listener\<rparr> #
              found_listeners c name fs)"

definition listen_addresses :: "'s struct_field list \<Rightarrow> config \<Rightarrow> go_error + listen_address list" where
  "listen_addresses fs c =
     (let name = env_tag_name (map_of server_config_tags ''Addr'') in
      if name = [] then Inl err_addr_variable_unknown else Inr (found_listeners c name fs))"

text \<open>Why \<open>net.SplitHostPort\<close> refuses what it refuses, and what \<open>strconv.Atoi\<close> says.\<close>

definition split_refusal :: "string \<Rightarrow> string" where
  "split_refusal hp =
     (case last_index hp CHR '':'' of
        None \<Rightarrow> ''missing port in address''
      | Some i \<Rightarrow>
          if hd hp = CHR ''['' then
            let end_at = length (takeWhile (\<lambda>c. c \<noteq> CHR '']'') hp) in
            if end_at = length hp then ''missing '' @ [CHR 0x27, CHR '']'', CHR 0x27] @ '' in address''
            else if end_at + 1 = length hp then ''missing port in address''
            else if end_at + 1 \<noteq> i then
              (if hp ! (end_at + 1) = CHR '':'' then ''too many colons in address''
               else ''missing port in address'')
            else if CHR ''['' \<in> set (drop 1 hp)
            then ''unexpected '' @ [CHR 0x27, CHR ''['', CHR 0x27] @ '' in address''
            else ''unexpected '' @ [CHR 0x27, CHR '']'', CHR 0x27] @ '' in address''
          else if CHR '':'' \<in> set (take i hp) then ''too many colons in address''
          else if CHR ''['' \<in> set hp then ''unexpected '' @ [CHR 0x27, CHR ''['', CHR 0x27] @ '' in address''
          else ''unexpected '' @ [CHR 0x27, CHR '']'', CHR 0x27] @ '' in address'')"

definition addr_error :: "string \<Rightarrow> go_error" where
  "addr_error hp =
     ErrText ((if hp = [] then [] else ''address '' @ hp @ '': '') @ split_refusal hp)"

definition atoi_error :: "print_table \<Rightarrow> string \<Rightarrow> num_error \<Rightarrow> go_error" where
  "atoi_error tab s e =
     ErrText (''strconv.Atoi: parsing '' @ go_quote tab s @ '': '' @
       (case e of ErrSyntax \<Rightarrow> ''invalid syntax'' | ErrRange \<Rightarrow> ''value out of range''))"

definition check_listen_port :: "print_table \<Rightarrow> string \<Rightarrow> string \<Rightarrow> go_error option" where
  "check_listen_port tab variable addr =
     (case split_host_port addr of
        None \<Rightarrow>
          Some (ErrWrap (variable @ '': splitting host and port of '' @ go_quote tab addr) (addr_error addr))
      | Some (_, port) \<Rightarrow>
          (case parse_int port of
             Inl e \<Rightarrow> Some (ErrWrap (variable @ '': parsing port of '' @ go_quote tab addr) (atoi_error tab port e))
           | Inr number \<Rightarrow>
               if number = 0 then
                 Some (ErrText (variable @ '' is '' @ go_quote tab addr @
                   '': port 0 binds a port nothing can be told to route to; name the port the deployment publishes''))
               else None))"

definition config_validate :: "print_table \<Rightarrow> 's struct_field list \<Rightarrow> config \<Rightarrow> go_error option" where
  "config_validate tab fs c =
     (case listen_addresses fs c of
        Inl err \<Rightarrow> Some err
      | Inr listeners \<Rightarrow>
          join_errors (map (\<lambda>l. check_listen_port tab (la_variable l) (la_addr l)) listeners))"

section \<open>Load\<close>

definition config_decoder ::
    "print_table \<Rightarrow> (string \<Rightarrow> go_error) \<Rightarrow> config validator \<Rightarrow> (config \<Rightarrow> go_error option) \<Rightarrow> config decoder"
where
  "config_decoder tab prefix_error env tags =
     \<lparr>read_env = env, check_tags = tags, target_fields = config_fields tab prefix_error,
      target_validator = Some (\<lambda>c. (config_validate tab (config_fields tab prefix_error) c, c))\<rparr>"

definition load ::
    "print_table \<Rightarrow> (string \<Rightarrow> go_error) \<Rightarrow> config validator \<Rightarrow> (config \<Rightarrow> go_error option) \<Rightarrow> string \<Rightarrow>
     go_error option \<times> config" where
  "load tab prefix_error env tags version =
     (let cfg = default_config\<lparr>cfg_telemetry := (cfg_telemetry default_config)\<lparr>service_version := version\<rparr>\<rparr> in
      case decode_target (config_decoder tab prefix_error env tags) (Struct_pointer cfg) of
        (Some err, _) \<Rightarrow> (Some (ErrWrap ''loading configuration'' err), zero_config)
      | (None, Struct_pointer cfg') \<Rightarrow> (None, cfg')
      | (None, _) \<Rightarrow> (None, cfg))"

definition log_effective :: "logger \<Rightarrow> config \<Rightarrow> exchange \<Rightarrow> exchange" where
  "log_effective lg cfg x =
     log_to lg InfoLevel ''configuration loaded'' [(''config'', FReflect (config_json cfg))] x"

section \<open>Secrets\<close>

datatype secret_string = Secret string

definition redacted :: string where
  "redacted = ''[REDACTED]''"

definition secret_expose :: "secret_string \<Rightarrow> string" where
  "secret_expose s = (case s of Secret v \<Rightarrow> v)"

definition secret_text :: "secret_string \<Rightarrow> string" where
  "secret_text s = redacted"

definition secret_log_value :: "secret_string \<Rightarrow> string" where
  "secret_log_value s = redacted"

definition secret_marshal_text :: "secret_string \<Rightarrow> bytes" where
  "secret_marshal_text s = redacted"

definition secret_unmarshal_text :: "bytes \<Rightarrow> secret_string" where
  "secret_unmarshal_text t = Secret t"

definition secret_marshal_json :: "secret_string \<Rightarrow> bytes" where
  "secret_marshal_json s = json_marshal (JString redacted)"

text \<open>\<open>json.Unmarshal\<close> into a string is the argument.\<close>

definition secret_unmarshal_json ::
    "(bytes \<Rightarrow> go_error + string) \<Rightarrow> secret_string \<Rightarrow> bytes \<Rightarrow> go_error option \<times> secret_string" where
  "secret_unmarshal_json unmarshal s data =
     (if data = ''null'' then (None, Secret [])
      else case unmarshal data of
          Inl err \<Rightarrow> (Some (ErrWrap ''secret string'' err), s)
        | Inr v \<Rightarrow> (None, Secret v))"

end
