(* ===== verification/Configuration_Properties.thy ===== *)
theory Configuration_Properties
  imports Configuration
begin

text \<open>
  What an operator learns from a start-up: which stage of the configuration failed and, in the last
  stage, everything that is wrong with it at once; and that the logged configuration is the whole
  configuration.
\<close>

section \<open>What a failure reports\<close>

text \<open>The separate failures in an error: joins taken apart, the label of a single one kept.\<close>

fun reported :: "go_error \<Rightarrow> go_error list" where
  "reported (ErrJoin es) = concat (map reported es)"
| "reported (ErrWrap p e) =
     (case e of ErrJoin es \<Rightarrow> concat (map reported es) | _ \<Rightarrow> [ErrWrap p e])"
| "reported e = [e]"

definition labelled :: "string \<Rightarrow> go_error option \<Rightarrow> go_error list" where
  "labelled p e = (case e of None \<Rightarrow> [] | Some err \<Rightarrow> [ErrWrap p err])"

definition option_list :: "'a option \<Rightarrow> 'a list" where
  "option_list e = (case e of None \<Rightarrow> [] | Some x \<Rightarrow> [x])"

text \<open>Everything the custom validators can find wrong, by the variables an operator sets.\<close>

definition failures :: "print_table \<Rightarrow> (string \<Rightarrow> go_error) \<Rightarrow> config \<Rightarrow> go_error list" where
  "failures tab prefix_error c =
     labelled ''validating SERVICE_PROXY_''
       (map_option (proxy_error_value tab prefix_error) (proxy_config_validate (cfg_proxy c))) @
     option_list (check_listen_port tab ''SERVICE_SERVER_ADDR'' (cfg_addr (cfg_server c))) @
     option_list (check_listen_port tab ''SERVICE_ADMIN_ADDR'' (cfg_addr (cfg_admin c)))"

lemma config_read_only: "read_only_hooks (config_fields tab prefix_error)"
  by (auto simp: read_only_hooks_def read_only_def config_fields_def composed_field_def proxy_validator_def)

lemma env_tags:
  "env_tag_name (map_of server_config_tags ''Addr'') = ''ADDR''"
  "env_tag_prefix (Some '', prefix=SERVICE_SERVER_'') = ''SERVICE_SERVER_''"
  "env_tag_prefix (Some '', prefix=SERVICE_ADMIN_'') = ''SERVICE_ADMIN_''"
  "env_tag_prefix (Some '', prefix=SERVICE_PROXY_'') = ''SERVICE_PROXY_''"
  by code_simp+

lemma config_listeners:
  "listen_addresses (config_fields tab prefix_error) c =
     Inr [\<lparr>la_variable = ''SERVICE_SERVER_ADDR'', la_addr = cfg_addr (cfg_server c)\<rparr>,
          \<lparr>la_variable = ''SERVICE_ADMIN_ADDR'', la_addr = cfg_addr (cfg_admin c)\<rparr>]"
  by (simp add: listen_addresses_def config_fields_def composed_field_def server_field_def env_tags Let_def)

lemma config_hook_errors:
  "hook_errors (config_fields tab prefix_error) c =
     labelled ''validating SERVICE_PROXY_''
       (map_option (proxy_error_value tab prefix_error) (proxy_config_validate (cfg_proxy c)))"
  by (simp add: hook_errors_def config_fields_def composed_field_def env_label_def env_tags Let_def
      List.map_filter_simps proxy_validator_def labelled_def split: option.splits)

lemma join_errors_list:
  "join_errors es = (if List.map_filter (\<lambda>e. e) es = [] then None else Some (ErrJoin (List.map_filter (\<lambda>e. e) es)))"
  by (simp add: join_errors_def split: list.splits)

lemma check_listen_port_single:
  "check_listen_port tab v a = Some err \<Longrightarrow> reported err = [err]"
  by (auto simp: check_listen_port_def addr_error_def atoi_error_def split: option.splits sum.splits if_splits)

lemma decode_config_checks:
  assumes "env s = (None, c)" "tags c = None"
  shows "case decode_struct (config_decoder tab prefix_error env tags) s of
    (None, c') \<Rightarrow> c' = c \<and> failures tab prefix_error c = []
  | (Some err, c') \<Rightarrow> failures tab prefix_error c \<noteq> [] \<and> (\<exists>es. err = ErrJoin es) \<and>
      reported err = failures tab prefix_error c"
proof -
  let ?p = "map_option (proxy_error_value tab prefix_error) (proxy_config_validate (cfg_proxy c))"
  let ?a = "check_listen_port tab ''SERVICE_SERVER_ADDR'' (cfg_addr (cfg_server c))"
  let ?b = "check_listen_port tab ''SERVICE_ADMIN_ADDR'' (cfg_addr (cfg_admin c))"
  let ?l = "labelled ''validating SERVICE_PROXY_'' ?p"
  have ports: "config_validate tab (config_fields tab prefix_error) c = join_errors [?a, ?b]"
    by (simp add: config_validate_def config_listeners)
  have proxy: "concat (map reported ?l) = ?l"
    by (cases "proxy_config_validate (cfg_proxy c)")
      (simp_all add: labelled_def proxy_error_value_def split: proxy_error.splits)
  show ?thesis
    using assms proxy
    by (cases "?l = []"; cases ?a; cases ?b)
      (simp_all add: decode_struct_def config_decoder_def validate_fields_read_only config_read_only
        config_hook_errors ports failures_def option_list_def join_errors_list
        List.map_filter_simps check_listen_port_single)
qed

text \<open>The defaults have nothing wrong with them.\<close>

lemma default_listeners:
  "split_host_port '':8080'' = Some ([], ''8080'')"
  "split_host_port ''127.0.0.1:9090'' = Some (''127.0.0.1'', ''9090'')"
  "parse_int ''8080'' = Inr 8080" "parse_int ''9090'' = Inr 9090"
  by code_simp+

lemma default_config_accepted: "failures tab prefix_error default_config = []"
  by (simp add: failures_def default_config_def default_server_config_def default_admin_config_def
      default_addr_def default_admin_addr_def default_proxy_config_def proxy_config_validate_def
      new_trusted_proxies_def labelled_def option_list_def check_listen_port_def default_listeners)

lemma load_decodes:
  "load tab prefix_error env tags version =
     (case decode_struct (config_decoder tab prefix_error env tags)
         (default_config\<lparr>cfg_telemetry := (cfg_telemetry default_config)\<lparr>service_version := version\<rparr>\<rparr>) of
       (Some err, _) \<Rightarrow> (Some (ErrWrap ''loading configuration'' err), zero_config)
     | (None, c) \<Rightarrow> (None, c))"
  by (simp add: load_def decode_target_def Let_def split: prod.splits option.splits)

lemma load_checked:
  assumes "load tab prefix_error env tags version = (None, c)"
  shows "tags c = None \<and> failures tab prefix_error c = []"
proof -
  let ?s = "default_config\<lparr>cfg_telemetry := (cfg_telemetry default_config)\<lparr>service_version := version\<rparr>\<rparr>"
  let ?d = "decode_struct (config_decoder tab prefix_error env tags) ?s"
  obtain r c0 where env: "env ?s = (r, c0)" by fastforce
  have d: "?d = (None, c)"
    using assms unfolding load_decodes by (cases ?d; cases "fst ?d") simp_all
  have r: "r = None"
    using d env by (cases r) (simp_all add: decode_struct_def config_decoder_def)
  have t: "tags c0 = None"
    using d env r by (cases "tags c0") (simp_all add: decode_struct_def config_decoder_def)
  have "c = c0 \<and> failures tab prefix_error c0 = []"
    using decode_config_checks [of env ?s c0 tags tab prefix_error] env r t d by simp
  with t show ?thesis by simp
qed

text \<open>C14: Load starts the process on what the environment gives over the defaults, or refuses it: with
  the first failing stage's error alone when reading or the struct tags fail, and otherwise with
  every failure of the custom rules at once, the proxy list's and both listen ports', each named
  by its environment variable; a refused configuration is never returned.\<close>

theorem load_reports_every_failure:
  "case env (default_config\<lparr>cfg_telemetry := (cfg_telemetry default_config)\<lparr>service_version := version\<rparr>\<rparr>) of
     (Some err, _) \<Rightarrow>
       load tab prefix_error env tags version =
         (Some (ErrWrap ''loading configuration'' (ErrWrap ''reading environment values'' err)), zero_config)
   | (None, c) \<Rightarrow>
       (case tags c of
          Some err \<Rightarrow>
            load tab prefix_error env tags version =
              (Some (ErrWrap ''loading configuration'' (ErrWrap ''validating configuration'' err)), zero_config)
        | None \<Rightarrow>
            (case load tab prefix_error env tags version of
               (None, c') \<Rightarrow> c' = c \<and> failures tab prefix_error c = []
             | (Some err, c') \<Rightarrow>
                 c' = zero_config \<and> failures tab prefix_error c \<noteq> [] \<and>
                 reported err = failures tab prefix_error c))"
proof -
  let ?s = "default_config\<lparr>cfg_telemetry := (cfg_telemetry default_config)\<lparr>service_version := version\<rparr>\<rparr>"
  note run = load_decodes [of tab prefix_error env tags version]
  obtain r c where env: "env ?s = (r, c)" by fastforce
  show ?thesis
  proof (cases r)
    case (Some err)
    with env show ?thesis by (simp add: run) (simp add: decode_struct_def config_decoder_def)
  next
    case None
    show ?thesis
    proof (cases "tags c")
      case (Some err)
      with env None show ?thesis by (simp add: run) (simp add: decode_struct_def config_decoder_def)
    next
      case tags: None
      note checks = decode_config_checks [of env ?s c tags tab prefix_error]
      obtain e c' where d: "decode_struct (config_decoder tab prefix_error env tags) ?s = (e, c')"
        by fastforce
      show ?thesis
        using checks env None tags d by (cases e) (auto simp: run)
    qed
  qed
qed


end
