(* ===== verification/Lifecycle.thy ===== *)
theory Lifecycle
  imports Server_Config Readiness
begin

text \<open>
  The running half of \<open>internal/server/server.go\<close>: \<open>New\<close>, and \<open>RunAll\<close>, \<open>drain\<close>, \<open>Run\<close> and \<open>Serve\<close>
  as the goroutines they are. \<open>server_step\<close> is one step of a server's \<open>Run\<close> or of the goroutine
  \<open>Serve\<close> starts; \<open>process_step\<close> is one step of any server, of the drain sequencer or of \<open>RunAll\<close>
  itself; \<open>env_step\<close> is what the world does: time passes, the caller cancels, requests come and
  go. Blocking is the absence of a step, a select with several ready cases is a choice of steps.

  What \<open>net/http\<close> contributes is its documented behaviour: \<open>Serve\<close> returns \<open>ErrServerClosed\<close>
  once \<open>Shutdown\<close> was called, at once if it is called later still, and some other error before;
  \<open>Shutdown\<close> waits for a \<open>Serve\<close> that has begun to leave its loop, then returns when no connection is active, with what closing the listener gave, or with
  the context's error when its deadline passes first.
\<close>

section \<open>Servers\<close>

record http_server =
  hs_addr :: string
  hs_handler :: handler
  hs_read_header_timeout :: go_duration
  hs_read_timeout :: go_duration
  hs_write_timeout :: go_duration
  hs_idle_timeout :: go_duration
  hs_max_header_bytes :: int
  hs_error_log :: logger

record server =
  http_srv :: http_server
  srv_logger :: logger
  srv_shutdown_timeout :: go_duration

text \<open>\<open>Named\<close> is the logger's name, which its entries carry like a field.\<close>

definition new_server :: "server_config \<Rightarrow> logger \<Rightarrow> handler \<Rightarrow> server" where
  "new_server cfg lg h =
     \<lparr>http_srv =
        \<lparr>hs_addr = cfg_addr cfg,
         hs_handler = h,
         hs_read_header_timeout = duration_duration (read_header_timeout cfg),
         hs_read_timeout = duration_duration (read_timeout cfg),
         hs_write_timeout = duration_duration (write_timeout cfg),
         hs_idle_timeout = duration_duration (idle_timeout cfg),
         hs_max_header_bytes = sint (byte_size_bytes (max_header_bytes cfg)),
         hs_error_log = lg @ [(''logger'', FString ''http'')]\<rparr>,
      srv_logger = lg,
      srv_shutdown_timeout = duration_duration (shutdown_timeout cfg)\<rparr>"

text \<open>
  A server at work: where \<open>Run\<close> is, where the goroutine that accepts is, the one-slot channel
  between them, whether \<open>Shutdown\<close> was called, and how many connections are active. The goroutine
  may be spawned and not yet in \<open>http.Server.Serve\<close>, even when \<open>Shutdown\<close> is called.
\<close>

datatype phase =
    Starting
  | Serving
  | Shutting_down int
  | Awaiting_result
  | Exited "go_error option"

datatype acceptor = Not_started | Spawned | Accepting | Serve_returned go_error | Result_sent

record listener =
  srv :: server
  bound_addr :: string
  phase :: phase
  acceptor :: acceptor
  serve_err :: "go_error option option"
  in_shutdown :: bool
  active :: nat

definition new_listener :: "server \<Rightarrow> listener" where
  "new_listener s = \<lparr>srv = s, bound_addr = [], phase = Starting, acceptor = Not_started,
     serve_err = None, in_shutdown = False, active = 0\<rparr>"

type_synonym timed_log = "(int \<times> log_entry) list"

definition server_entry :: "listener \<Rightarrow> string \<Rightarrow> fields \<Rightarrow> log_entry" where
  "server_entry l msg fs =
     \<lparr>entry_level = InfoLevel, entry_message = msg,
      entry_fields = srv_logger (srv l) @ [(''addr'', FString (bound_addr l))] @ fs\<rparr>"

definition serve_result :: "go_error \<Rightarrow> go_error option" where
  "serve_result err = (if \<not> errors_is err ServerClosed then Some (ErrWrap ''serving http'' err) else None)"

definition shutdown_deadline :: "listener \<Rightarrow> int \<Rightarrow> int" where
  "shutdown_deadline l now = now + sint (srv_shutdown_timeout (srv l))"

definition listen_error :: "server \<Rightarrow> go_error \<Rightarrow> go_error" where
  "listen_error s err = ErrWrap (''listening on '' @ hs_addr (http_srv s)) err"

definition shutdown_error :: "go_error \<Rightarrow> go_error" where
  "shutdown_error err = ErrWrap ''shutting down http server'' err"

inductive server_step :: "bool \<Rightarrow> int \<Rightarrow> listener \<Rightarrow> listener \<Rightarrow> timed_log \<Rightarrow> bool"
  for stop :: bool and now :: int where
  listen_fails: "phase l = Starting \<Longrightarrow>
    server_step stop now l
      (l\<lparr>phase := Exited (Some (listen_error (srv l) err))\<rparr>) []"
| listens: "\<lbrakk>phase l = Starting;
     l' = l\<lparr>bound_addr := a, acceptor := Spawned, phase := Serving\<rparr>\<rbrakk> \<Longrightarrow>
    server_step stop now l l' [(now, server_entry l' ''http server listening'' [])]"
| serve_begins: "\<lbrakk>acceptor l = Spawned; \<not> in_shutdown l\<rbrakk> \<Longrightarrow>
    server_step stop now l (l\<lparr>acceptor := Accepting\<rparr>) []"
| serve_fails: "\<lbrakk>acceptor l = Accepting; \<not> in_shutdown l; \<not> errors_is err ServerClosed\<rbrakk> \<Longrightarrow>
    server_step stop now l (l\<lparr>acceptor := Serve_returned err\<rparr>) []"
| serve_closed: "\<lbrakk>acceptor l = Spawned \<or> acceptor l = Accepting; in_shutdown l\<rbrakk> \<Longrightarrow>
    server_step stop now l (l\<lparr>acceptor := Serve_returned (ErrSentinel ServerClosed)\<rparr>) []"
| result_sent: "acceptor l = Serve_returned err \<Longrightarrow>
    server_step stop now l (l\<lparr>acceptor := Result_sent, serve_err := Some (serve_result err)\<rparr>) []"
| serve_stopped: "\<lbrakk>phase l = Serving; serve_err l = Some r\<rbrakk> \<Longrightarrow>
    server_step stop now l (l\<lparr>phase := Exited r, serve_err := None\<rparr>) []"
| cancelled: "\<lbrakk>phase l = Serving; stop\<rbrakk> \<Longrightarrow>
    server_step stop now l
      (l\<lparr>phase := Shutting_down (shutdown_deadline l now), in_shutdown := True\<rparr>)
      [(now, server_entry l ''shutting down'' [(''timeout'', FDuration (sint (srv_shutdown_timeout (srv l))))])]"
| shut_down: "\<lbrakk>phase l = Shutting_down t; acceptor l \<noteq> Accepting; active l = 0\<rbrakk> \<Longrightarrow>
    server_step stop now l (l\<lparr>phase := Awaiting_result\<rparr>) []"
| close_fails: "\<lbrakk>phase l = Shutting_down t; acceptor l \<noteq> Accepting; active l = 0\<rbrakk> \<Longrightarrow>
    server_step stop now l (l\<lparr>phase := Exited (Some (shutdown_error err))\<rparr>) []"
| timed_out: "\<lbrakk>phase l = Shutting_down t; acceptor l \<noteq> Accepting; t \<le> now\<rbrakk> \<Longrightarrow>
    server_step stop now l
      (l\<lparr>phase := Exited (Some (shutdown_error (ErrSentinel DeadlineExceeded)))\<rparr>) []"
| serve_failed: "\<lbrakk>phase l = Awaiting_result; serve_err l = Some (Some err)\<rbrakk> \<Longrightarrow>
    server_step stop now l (l\<lparr>phase := Exited (Some err), serve_err := None\<rparr>) []"
| complete: "\<lbrakk>phase l = Awaiting_result; serve_err l = Some None\<rbrakk> \<Longrightarrow>
    server_step stop now l (l\<lparr>phase := Exited None, serve_err := None\<rparr>)
      [(now, server_entry l ''shutdown complete'' [])]"

inductive_cases server_stepE: "server_step stop t l l' es"

section \<open>The process\<close>

datatype sequencer = Seq_waiting | Seq_holding int | Seq_done

datatype run_all = Group_wait | Sequencer_wait | Run_all_returned "go_error option"

record process =
  listeners :: "listener list"
  caller_done :: bool
  serving_stopped :: bool
  group_err :: "go_error option"
  seq :: sequencer
  main :: run_all
  ready :: readiness
  now :: int
  proc_log :: timed_log

definition process_start :: "readiness \<Rightarrow> int \<Rightarrow> server list \<Rightarrow> process" where
  "process_start rd t servers =
     \<lparr>listeners = map new_listener servers, caller_done = False, serving_stopped = False,
      group_err = None, seq = Seq_waiting, main = Group_wait, ready = rd, now = t, proc_log = []\<rparr>"

text \<open>The group's context ends with its parent or with the first error; \<open>done\<close> is closed after \<open>Wait\<close>.\<close>

definition group_done :: "process \<Rightarrow> bool" where
  "group_done p \<longleftrightarrow> serving_stopped p \<or> group_err p \<noteq> None"

definition done_closed :: "process \<Rightarrow> bool" where
  "done_closed p \<longleftrightarrow> main p \<noteq> Group_wait"

fun exit_error :: "phase \<Rightarrow> go_error option" where
  "exit_error (Exited r) = r"
| "exit_error _ = None"

fun has_exited :: "phase \<Rightarrow> bool" where
  "has_exited (Exited _) = True"
| "has_exited _ = False"

definition first_error :: "go_error option \<Rightarrow> go_error option \<Rightarrow> go_error option" where
  "first_error old new = (case old of Some e \<Rightarrow> Some e | None \<Rightarrow> new)"

definition holding_entry :: "logger \<Rightarrow> lifecycle_config \<Rightarrow> log_entry" where
  "holding_entry lg cfg =
     \<lparr>entry_level = InfoLevel, entry_message = ''readiness failing, holding before drain'',
      entry_fields = lg @ [(''pre_drain_delay'', FDuration (sint (duration_duration (pre_drain_delay cfg))))]\<rparr>"

inductive drain_step :: "lifecycle_config \<Rightarrow> logger \<Rightarrow> process \<Rightarrow> process \<Rightarrow> bool" for cfg lg where
  drain_begins: "\<lbrakk>seq p = Seq_waiting; caller_done p\<rbrakk> \<Longrightarrow>
    drain_step cfg lg p
      (p\<lparr>ready := set_draining (ready p),
         proc_log := proc_log p @ [(now p, holding_entry lg cfg)],
         seq := Seq_holding (now p + sint (duration_duration (pre_drain_delay cfg)))\<rparr>)"
| drain_skipped: "\<lbrakk>seq p = Seq_waiting; done_closed p\<rbrakk> \<Longrightarrow> drain_step cfg lg p (p\<lparr>seq := Seq_done\<rparr>)"
| drain_ends: "\<lbrakk>seq p = Seq_holding t; t \<le> now p \<or> done_closed p\<rbrakk> \<Longrightarrow>
    drain_step cfg lg p (p\<lparr>serving_stopped := True, seq := Seq_done\<rparr>)"

inductive process_step :: "lifecycle_config \<Rightarrow> logger \<Rightarrow> process \<Rightarrow> process \<Rightarrow> bool" for cfg lg where
  server_moves: "\<lbrakk>i < length (listeners p); server_step (group_done p) (now p) (listeners p ! i) l es\<rbrakk> \<Longrightarrow>
    process_step cfg lg p
      (p\<lparr>listeners := (listeners p)[i := l], group_err := first_error (group_err p) (exit_error (phase l)),
         proc_log := proc_log p @ es\<rparr>)"
| sequencer_moves: "drain_step cfg lg p q \<Longrightarrow> process_step cfg lg p q"
| wait_returns: "\<lbrakk>main p = Group_wait; list_all (\<lambda>l. has_exited (phase l)) (listeners p)\<rbrakk> \<Longrightarrow>
    process_step cfg lg p (p\<lparr>main := Sequencer_wait\<rparr>)"
| run_all_returns: "\<lbrakk>main p = Sequencer_wait; seq p = Seq_done\<rbrakk> \<Longrightarrow>
    process_step cfg lg p (p\<lparr>main := Run_all_returned (group_err p), serving_stopped := True\<rparr>)"

text \<open>
  A request can begin on a connection that was accepted, until \<open>Shutdown\<close> has seen none active; a
  server whose loop failed leaves the connections it has open.
\<close>

definition takes_requests :: "listener \<Rightarrow> bool" where
  "takes_requests l \<longleftrightarrow> acceptor l \<notin> {Not_started, Spawned} \<and>
     (case phase l of
        Starting \<Rightarrow> False
      | Serving \<Rightarrow> True
      | Shutting_down _ \<Rightarrow> True
      | Awaiting_result \<Rightarrow> False
      | Exited r \<Rightarrow> r \<noteq> None)"

inductive env_step :: "process \<Rightarrow> process \<Rightarrow> bool" where
  time_passes: "env_step p (p\<lparr>now := now p + int d\<rparr>)"
| caller_cancels: "env_step p (p\<lparr>caller_done := True\<rparr>)"
| request_begins: "\<lbrakk>i < length (listeners p); takes_requests (listeners p ! i)\<rbrakk> \<Longrightarrow>
    env_step p (p\<lparr>listeners := (listeners p)[i := (listeners p ! i)\<lparr>active := Suc (active (listeners p ! i))\<rparr>]\<rparr>)"
| request_ends: "i < length (listeners p) \<Longrightarrow>
    env_step p (p\<lparr>listeners := (listeners p)[i := (listeners p ! i)\<lparr>active := active (listeners p ! i) - 1\<rparr>]\<rparr>)"

definition runs :: "lifecycle_config \<Rightarrow> logger \<Rightarrow> process \<Rightarrow> process \<Rightarrow> bool" where
  "runs cfg lg = (\<lambda>p q. process_step cfg lg p q \<or> env_step p q)\<^sup>*\<^sup>*"

end
