(* ===== verification/Http_Client.thy ===== *)
theory Http_Client
  imports Config_Types Go_Errors
begin

text \<open>
  \<open>internal/httpclient\<close>: the settings of an outbound dependency, their validation, the transport they
  describe and the instrumented client. OpenTelemetry's transport and the providers are not in the
  repository: \<open>otel_transport\<close> and the no-op providers are arguments, and so is the method
  assertion of \<open>CloseIdleConnections\<close>.
\<close>

section \<open>Settings\<close>

record client_config =
  cl_timeout :: go_duration
  cl_connect_timeout :: go_duration
  cl_tls_handshake_timeout :: go_duration
  cl_response_header_timeout :: go_duration
  cl_max_conns_per_host :: int
  cl_max_idle_conns :: int
  cl_max_idle_conns_per_host :: int
  cl_idle_conn_timeout :: go_duration

definition default_timeout :: go_duration where
  "default_timeout = 30 * 1000000000"

definition default_connect_timeout :: go_duration where
  "default_connect_timeout = 5 * 1000000000"

definition default_tls_handshake_timeout :: go_duration where
  "default_tls_handshake_timeout = 5 * 1000000000"

definition default_response_header_timeout :: go_duration where
  "default_response_header_timeout = 5 * 1000000000"

definition default_max_conns_per_host :: int where
  "default_max_conns_per_host = 100"

definition default_max_idle_conns :: int where
  "default_max_idle_conns = 100"

definition default_max_idle_conns_per_host :: int where
  "default_max_idle_conns_per_host = 10"

definition default_idle_conn_timeout :: go_duration where
  "default_idle_conn_timeout = 90 * 1000000000"

definition default_client_config :: client_config where
  "default_client_config =
     \<lparr>cl_timeout = default_timeout,
      cl_connect_timeout = default_connect_timeout,
      cl_tls_handshake_timeout = default_tls_handshake_timeout,
      cl_response_header_timeout = default_response_header_timeout,
      cl_max_conns_per_host = default_max_conns_per_host,
      cl_max_idle_conns = default_max_idle_conns,
      cl_max_idle_conns_per_host = default_max_idle_conns_per_host,
      cl_idle_conn_timeout = default_idle_conn_timeout\<rparr>"

definition durations :: "client_config \<Rightarrow> (string \<times> go_duration) list" where
  "durations c =
     [(''Timeout'', cl_timeout c),
      (''ConnectTimeout'', cl_connect_timeout c),
      (''TLSHandshakeTimeout'', cl_tls_handshake_timeout c),
      (''ResponseHeaderTimeout'', cl_response_header_timeout c),
      (''IdleConnTimeout'', cl_idle_conn_timeout c)]"

definition counts :: "client_config \<Rightarrow> (string \<times> int) list" where
  "counts c =
     [(''MaxConnsPerHost'', cl_max_conns_per_host c),
      (''MaxIdleConns'', cl_max_idle_conns c),
      (''MaxIdleConnsPerHost'', cl_max_idle_conns_per_host c)]"

fun check_durations :: "(string \<times> go_duration) list \<Rightarrow> go_error option list \<Rightarrow> go_error option list" where
  "check_durations [] errs = errs"
| "check_durations ((name, v) # rest) errs =
     check_durations rest
       (if sint v \<le> 0
        then errs @ [Some (ErrText (name @ '' must be positive, not '' @ duration_string v))]
        else errs)"

fun check_counts :: "(string \<times> int) list \<Rightarrow> go_error option list \<Rightarrow> go_error option list" where
  "check_counts [] errs = errs"
| "check_counts ((name, v) # rest) errs =
     check_counts rest
       (if v < 0
        then errs @ [Some (ErrText (name @ '' must not be negative, not '' @ format_int v))]
        else errs)"

definition client_validate :: "client_config \<Rightarrow> go_error option" where
  "client_validate c = join_errors (check_counts (counts c) (check_durations (durations c) []))"

section \<open>The client\<close>

record transport =
  tr_proxy_from_environment :: bool
  tr_dial_timeout :: go_duration
  tr_tls_handshake_timeout :: go_duration
  tr_response_header_timeout :: go_duration
  tr_max_conns_per_host :: int
  tr_max_idle_conns :: int
  tr_max_idle_conns_per_host :: int
  tr_idle_conn_timeout :: go_duration
  tr_force_http2 :: bool

definition new_transport :: "client_config \<Rightarrow> go_error + transport" where
  "new_transport c =
     (case client_validate c of
        Some err \<Rightarrow> Inl err
      | None \<Rightarrow>
          Inr \<lparr>tr_proxy_from_environment = True,
               tr_dial_timeout = duration_duration (cl_connect_timeout c),
               tr_tls_handshake_timeout = duration_duration (cl_tls_handshake_timeout c),
               tr_response_header_timeout = duration_duration (cl_response_header_timeout c),
               tr_max_conns_per_host = cl_max_conns_per_host c,
               tr_max_idle_conns = cl_max_idle_conns c,
               tr_max_idle_conns_per_host = cl_max_idle_conns_per_host c,
               tr_idle_conn_timeout = duration_duration (cl_idle_conn_timeout c),
               tr_force_http2 = True\<rparr>)"

text \<open>The providers a caller may leave nil, and their no-ops.\<close>

record ('t, 'm, 'p) client_telemetry =
  out_tracer :: "'t option"
  out_meter :: "'m option"
  out_propagator :: "'p option"

record ('r, 'n) closeable =
  round_tripper :: 'r
  pool :: 'n

definition instrument ::
    "('n \<Rightarrow> 't \<Rightarrow> 'm \<Rightarrow> 'p \<Rightarrow> 'r) \<Rightarrow> 't \<times> 'm \<times> 'p \<Rightarrow> 'n \<Rightarrow> ('t, 'm, 'p) client_telemetry \<Rightarrow> ('r, 'n) closeable"
where
  "instrument otel_transport noop nxt tel =
     (case noop of
        (no_tracer, no_meter, no_propagator) \<Rightarrow>
          let tracer = (case out_tracer tel of None \<Rightarrow> no_tracer | Some t \<Rightarrow> t);
              meter = (case out_meter tel of None \<Rightarrow> no_meter | Some m \<Rightarrow> m);
              prop = (case out_propagator tel of None \<Rightarrow> no_propagator | Some p \<Rightarrow> p)
          in \<lparr>round_tripper = otel_transport nxt tracer meter prop, pool = nxt\<rparr>)"

text \<open>\<open>as_closer\<close> is the assertion that a pool has the method: what the method makes of it.\<close>

definition close_idle_connections :: "('n \<Rightarrow> 'n option) \<Rightarrow> ('r, 'n) closeable \<Rightarrow> ('r, 'n) closeable" where
  "close_idle_connections as_closer c =
     (case as_closer (pool c) of
        Some p \<Rightarrow> c\<lparr>pool := p\<rparr>
      | None \<Rightarrow> c)"

record 'r http_client =
  client_transport :: 'r
  client_timeout :: go_duration

definition new_client ::
    "(transport \<Rightarrow> 't \<Rightarrow> 'm \<Rightarrow> 'p \<Rightarrow> 'r) \<Rightarrow> 't \<times> 'm \<times> 'p \<Rightarrow> client_config \<Rightarrow> ('t, 'm, 'p) client_telemetry \<Rightarrow>
     go_error + ('r, transport) closeable http_client" where
  "new_client otel_transport noop c tel =
     (case new_transport c of
        Inl err \<Rightarrow> Inl err
      | Inr tr \<Rightarrow>
          Inr \<lparr>client_transport = instrument otel_transport noop tr tel,
               client_timeout = duration_duration (cl_timeout c)\<rparr>)"

section \<open>What is accepted\<close>

definition duration_complaints :: "client_config \<Rightarrow> string list" where
  "duration_complaints c =
     map (\<lambda>(name, v). name @ '' must be positive, not '' @ duration_string v)
       (filter (\<lambda>(name, v). sint v \<le> 0) (durations c))"

definition count_complaints :: "client_config \<Rightarrow> string list" where
  "count_complaints c =
     map (\<lambda>(name, v). name @ '' must not be negative, not '' @ format_int v)
       (filter (\<lambda>(name, v). v < 0) (counts c))"

lemma check_durations_filter:
  "check_durations ds errs =
     errs @ map (\<lambda>(name, v). Some (ErrText (name @ '' must be positive, not '' @ duration_string v)))
       (filter (\<lambda>(name, v). sint v \<le> 0) ds)"
  by (induction ds errs rule: check_durations.induct) auto

lemma check_counts_filter:
  "check_counts ds errs =
     errs @ map (\<lambda>(name, v). Some (ErrText (name @ '' must not be negative, not '' @ format_int v)))
       (filter (\<lambda>(name, v). v < 0) ds)"
  by (induction ds errs rule: check_counts.induct) auto

lemma client_validate_complaints:
  "client_validate c =
     (let cs = duration_complaints c @ count_complaints c in
      if cs = [] then None else Some (ErrJoin (map ErrText cs)))"
proof -
  have "check_counts (counts c) (check_durations (durations c) []) =
      map (\<lambda>s. Some (ErrText s)) (duration_complaints c @ count_complaints c)"
    by (simp add: check_counts_filter check_durations_filter duration_complaints_def
        count_complaints_def comp_def case_prod_beta)
  moreover have "List.map_filter (\<lambda>e. e) (map (\<lambda>s. Some (ErrText s)) cs) = map ErrText cs" for cs
    by (induction cs) (simp_all add: List.map_filter_simps)
  ultimately show ?thesis
    by (cases "duration_complaints c @ count_complaints c")
      (simp_all add: client_validate_def join_errors_def Let_def)
qed

end
