(* ===== verification/Logging_Setup.thy ===== *)
theory Logging_Setup
  imports Settings Go_Quote Go_Errors
begin

text \<open>
  \<open>internal/logging\<close>: choosing zap's configuration for a format and building the logger. The presets
  and the builder are zap's, so they are arguments; what this package changes in a preset is
  modelled field by field. The sampling policy's type and the built logger's are zap's too.
\<close>

record 's zap_config =
  zap_level :: log_level
  zap_development :: bool
  zap_sampling :: "'s option"
  zap_encoding :: string

record 's zap_presets =
  production_config :: "'s zap_config"
  development_config :: "'s zap_config"

definition config_for :: "print_table \<Rightarrow> 's zap_presets \<Rightarrow> string \<Rightarrow> go_error + 's zap_config" where
  "config_for tab presets format =
     (if format = format_json then Inr ((production_config presets)\<lparr>zap_sampling := None\<rparr>)
      else if format = format_console then Inr ((development_config presets)\<lparr>zap_development := False\<rparr>)
      else Inl (ErrText (''unknown log format '' @ go_quote tab format)))"

definition new_logger ::
    "print_table \<Rightarrow> 's zap_presets \<Rightarrow> ('s zap_config \<Rightarrow> go_error + 'l) \<Rightarrow> log_level \<Rightarrow> string \<Rightarrow> go_error + 'l"
where
  "new_logger tab presets build level format =
     (case config_for tab presets format of
        Inl err \<Rightarrow> Inl err
      | Inr cfg \<Rightarrow>
          (case build (cfg\<lparr>zap_level := level\<rparr>) of
             Inl err \<Rightarrow> Inl (ErrWrap ''building zap logger'' err)
           | Inr lg \<Rightarrow> Inr lg))"

definition new_logger_from_config ::
    "print_table \<Rightarrow> 's zap_presets \<Rightarrow> ('s zap_config \<Rightarrow> go_error + 'l) \<Rightarrow> log_config \<Rightarrow> go_error + 'l" where
  "new_logger_from_config tab presets build cfg = new_logger tab presets build (log_level cfg) (log_format cfg)"

text \<open>
  The slog handler writes into the logger's core, and the process-wide default is one variable,
  the state that \<open>InstallSlogDefault\<close> sets.
\<close>

definition new_slog_handler :: "('l \<Rightarrow> 'c) \<Rightarrow> ('c \<Rightarrow> 'h) \<Rightarrow> 'l \<Rightarrow> 'h" where
  "new_slog_handler core handler_for lg = handler_for (core lg)"

definition install_slog_default :: "('l \<Rightarrow> 'c) \<Rightarrow> ('c \<Rightarrow> 'h) \<Rightarrow> 'l \<Rightarrow> 'h option \<Rightarrow> 'h option" where
  "install_slog_default core handler_for lg old = Some (new_slog_handler core handler_for lg)"

text \<open>A logger that is built keeps the configured level, never samples entries away under the
  JSON format, whatever the production preset does, and never takes on the development preset's
  crash policy under the console format; an unknown format is refused before zap sees it.\<close>

theorem logger_keeps_every_entry:
  assumes "new_logger_from_config tab presets build cfg = Inr lg"
  shows "\<exists>z. build z = Inr lg \<and> zap_level z = log_level cfg \<and>
    log_format cfg \<in> {''json'', ''console''} \<and>
    (if log_format cfg = ''json'' then zap_sampling z = None \<and>
        zap_encoding z = zap_encoding (production_config presets)
     else zap_development z = False \<and> zap_encoding z = zap_encoding (development_config presets))"
  using assms
  by (auto simp: new_logger_from_config_def new_logger_def config_for_def format_json_def
      format_console_def split: sum.splits if_splits intro: exI)

definition sample_presets :: "nat zap_presets" where
  "sample_presets =
     \<lparr>production_config = \<lparr>zap_level = Info, zap_development = False, zap_sampling = Some 100,
        zap_encoding = ''json''\<rparr>,
      development_config = \<lparr>zap_level = Debug, zap_development = True, zap_sampling = None,
        zap_encoding = ''console''\<rparr>\<rparr>"

theorem logger_keeps_every_entry_witness:
  "let cfg = \<lparr>log_level = Warn, log_format = ''json''\<rparr>;
       lg = \<lparr>zap_level = Warn, zap_development = False, zap_sampling = None, zap_encoding = ''json''\<rparr>
   in \<exists>z. (Inr z :: go_error + nat zap_config) = Inr lg \<and> zap_level z = log_level cfg \<and>
    log_format cfg \<in> {''json'', ''console''} \<and>
    (if log_format cfg = ''json'' then zap_sampling z = None \<and>
        zap_encoding z = zap_encoding (production_config sample_presets)
     else zap_development z = False \<and> zap_encoding z = zap_encoding (development_config sample_presets))"
  unfolding Let_def
  by (rule logger_keeps_every_entry [where build = Inr and tab = "\<lambda>_. False"])
    (simp add: new_logger_from_config_def new_logger_def config_for_def format_json_def sample_presets_def)

end
