(* ===== verification/Setting_Rules.thy ===== *)
theory Setting_Rules
  imports Configuration_Properties Lifecycle Http_Client Logging_Setup
begin

text \<open>
  The \<open>validate\<close> tags of the settings structs, as data: for every numeric field its value and its
  rules in the order of its tag. What the rules mean is go-playground/validator's documentation: they
  are checked in order, and \<open>omitempty\<close> ends the list for a zero value. The rules for texts that need
  a parser of the validator's own (\<open>hostname_port\<close>, \<open>http_url\<close>) are arguments.
\<close>

section \<open>Rules\<close>

datatype rule = Gt int | Gte int | Gte_field string | Lt_field string | Omit_empty

fun rules_hold :: "(string \<Rightarrow> int) \<Rightarrow> int \<Rightarrow> rule list \<Rightarrow> bool" where
  "rules_hold field v [] = True"
| "rules_hold field v (r # rs) =
     (case r of
        Gt n \<Rightarrow> n < v \<and> rules_hold field v rs
      | Gte n \<Rightarrow> n \<le> v \<and> rules_hold field v rs
      | Gte_field f \<Rightarrow> field f \<le> v \<and> rules_hold field v rs
      | Lt_field f \<Rightarrow> v < field f \<and> rules_hold field v rs
      | Omit_empty \<Rightarrow> v = 0 \<or> rules_hold field v rs)"

type_synonym tagged = "string \<times> int \<times> rule list"

definition numeric_rules_hold :: "tagged list \<Rightarrow> bool" where
  "numeric_rules_hold fs =
     list_all (\<lambda>(name, v, rs).
       rules_hold (\<lambda>f. case map_of fs f of Some (u, _) \<Rightarrow> u | None \<Rightarrow> 0) v rs) fs"

section \<open>The tags\<close>

definition server_tags :: "server_config \<Rightarrow> tagged list" where
  "server_tags c =
     [(''ReadHeaderTimeout'', sint (read_header_timeout c), [Gt 0]),
      (''ReadTimeout'', sint (read_timeout c), [Gt 0, Gte_field ''ReadHeaderTimeout'']),
      (''WriteTimeout'', sint (write_timeout c), [Gt 0]),
      (''IdleTimeout'', sint (idle_timeout c), [Gt 0]),
      (''ShutdownTimeout'', sint (shutdown_timeout c), [Gt 0]),
      (''MaxHeaderBytes'', sint (max_header_bytes c), [Gt 0]),
      (''MaxRequestBodyBytes'', sint (max_request_body_bytes c), [Gt 0]),
      (''MaxInFlight'', max_in_flight c, [Gte 0]),
      (''HandlerTimeout'', sint (handler_timeout c), [Gte 0, Omit_empty, Lt_field ''WriteTimeout''])]"

definition lifecycle_tags :: "lifecycle_config \<Rightarrow> tagged list" where
  "lifecycle_tags c = [(''PreDrainDelay'', sint (pre_drain_delay c), [Gte 0])]"

definition client_tags :: "client_config \<Rightarrow> tagged list" where
  "client_tags c =
     [(''Timeout'', sint (cl_timeout c), [Gt 0]),
      (''ConnectTimeout'', sint (cl_connect_timeout c), [Gt 0]),
      (''TLSHandshakeTimeout'', sint (cl_tls_handshake_timeout c), [Gt 0]),
      (''ResponseHeaderTimeout'', sint (cl_response_header_timeout c), [Gt 0]),
      (''MaxConnsPerHost'', cl_max_conns_per_host c, [Gte 0]),
      (''MaxIdleConns'', cl_max_idle_conns c, [Gte 0]),
      (''MaxIdleConnsPerHost'', cl_max_idle_conns_per_host c, [Gte 0]),
      (''IdleConnTimeout'', sint (cl_idle_conn_timeout c), [Gt 0])]"

definition server_rules :: "(string \<Rightarrow> bool) \<Rightarrow> server_config \<Rightarrow> bool" where
  "server_rules addr_rule c \<longleftrightarrow>
     cfg_addr c \<noteq> [] \<and> addr_rule (cfg_addr c) \<and> numeric_rules_hold (server_tags c)"

definition log_rules :: "log_config \<Rightarrow> bool" where
  "log_rules c \<longleftrightarrow> log_format c \<noteq> [] \<and> log_format c \<in> {''json'', ''console''}"

definition telemetry_rules :: "(string \<Rightarrow> bool) \<Rightarrow> telemetry_config \<Rightarrow> bool" where
  "telemetry_rules url_rule c \<longleftrightarrow>
     service_name c \<noteq> [] \<and>
     list_all (\<lambda>u. u = [] \<or> url_rule u) [otlp_endpoint c, otlp_traces_endpoint c]"

definition config_rules :: "(string \<Rightarrow> bool) \<Rightarrow> (string \<Rightarrow> bool) \<Rightarrow> config \<Rightarrow> bool" where
  "config_rules addr_rule url_rule c \<longleftrightarrow>
     log_rules (cfg_log c) \<and> server_rules addr_rule (cfg_server c) \<and> server_rules addr_rule (cfg_admin c) \<and>
     numeric_rules_hold (lifecycle_tags (cfg_lifecycle c)) \<and> telemetry_rules url_rule (cfg_telemetry c)"

text \<open>What the program relies on in the validator: a configuration it passes keeps its tags' rules.\<close>

definition enforces_tags ::
    "(string \<Rightarrow> bool) \<Rightarrow> (string \<Rightarrow> bool) \<Rightarrow> (config \<Rightarrow> go_error option) \<Rightarrow> bool" where
  "enforces_tags addr_rule url_rule tags \<longleftrightarrow> (\<forall>c. tags c = None \<longrightarrow> config_rules addr_rule url_rule c)"

section \<open>What a loaded configuration guarantees\<close>

text \<open>
  A bounded server: no timeout or size of \<open>net/http\<close> is zero, which would switch it off, the header
  deadline is inside the read deadline, and so is the handler's inside the write deadline.
\<close>

definition bounded_server :: "server_config \<Rightarrow> bool" where
  "bounded_server c \<longleftrightarrow>
     (let s = new_server c [] (\<lambda>r w x. (Returned, r, x)); h = http_srv s in
      0 < sint (hs_read_header_timeout h) \<and> sint (hs_read_header_timeout h) \<le> sint (hs_read_timeout h) \<and>
      0 < sint (hs_write_timeout h) \<and> 0 < sint (hs_idle_timeout h) \<and> 0 < hs_max_header_bytes h \<and>
      0 < sint (srv_shutdown_timeout s) \<and> 0 < sint (byte_size_bytes (max_request_body_bytes c)) \<and>
      0 \<le> max_in_flight c \<and> 0 \<le> sint (duration_duration (handler_timeout c)) \<and>
      sint (duration_duration (handler_timeout c)) < sint (hs_write_timeout h))"

lemma server_rules_bounded: "server_rules addr_rule c \<Longrightarrow> bounded_server c"
  by (auto simp: server_rules_def numeric_rules_hold_def server_tags_def bounded_server_def new_server_def
      Let_def byte_size_bytes_def duration_duration_def)

definition names_a_port :: "string \<Rightarrow> bool" where
  "names_a_port addr \<longleftrightarrow>
     (case split_host_port addr of
        None \<Rightarrow> False
      | Some (_, port) \<Rightarrow> (case parse_int port of Inl _ \<Rightarrow> False | Inr n \<Rightarrow> n \<noteq> 0))"

lemma checked_port: "check_listen_port tab v addr = None \<Longrightarrow> names_a_port addr"
  by (auto simp: check_listen_port_def names_a_port_def split: option.splits sum.splits if_splits)

text \<open>C15: A configuration that loads can be served with: both listeners have every net/http bound
  switched on, with the read deadline outside the header's and the handler's inside the write
  deadline, the hold is not negative, neither listen address names port 0, the trusted networks
  parse, and the log format is one the logger knows.\<close>

theorem loaded_configuration_is_bounded:
  assumes "enforces_tags addr_rule url_rule tags" and "load tab prefix_error env tags version = (None, c)"
  shows "list_all bounded_server [cfg_server c, cfg_admin c] \<and>
    0 \<le> sint (duration_duration (pre_drain_delay (cfg_lifecycle c))) \<and>
    names_a_port (cfg_addr (cfg_server c)) \<and> names_a_port (cfg_addr (cfg_admin c)) \<and>
    (\<exists>proxies. new_trusted_proxies (cfg_proxy c) = Inr proxies) \<and>
    (\<exists>z. config_for tab presets (log_format (cfg_log c)) = Inr z)"
proof -
  have rules: "config_rules addr_rule url_rule c" and none: "failures tab prefix_error c = []"
    using assms load_checked by (auto simp: enforces_tags_def)
  have "list_all bounded_server [cfg_server c, cfg_admin c]"
    using rules server_rules_bounded by (auto simp: config_rules_def)
  moreover have "0 \<le> sint (duration_duration (pre_drain_delay (cfg_lifecycle c)))"
    using rules by (simp add: config_rules_def numeric_rules_hold_def lifecycle_tags_def duration_duration_def)
  moreover have "\<exists>z. config_for tab presets (log_format (cfg_log c)) = Inr z"
    using rules by (auto simp: config_rules_def log_rules_def config_for_def format_json_def format_console_def)
  moreover have "names_a_port (cfg_addr (cfg_server c))" "names_a_port (cfg_addr (cfg_admin c))"
    using none by (auto simp: failures_def option_list_def intro: checked_port split: option.splits)
  moreover have "proxy_config_validate (cfg_proxy c) = None"
    using none by (simp add: failures_def labelled_def split: option.splits)
  then have "\<exists>proxies. new_trusted_proxies (cfg_proxy c) = Inr proxies"
    by (simp add: proxy_config_validate_def split: sum.splits)
  ultimately show ?thesis by blast
qed

text \<open>A validator that checks exactly the rules, and the defaults under it.\<close>

definition rule_checker :: "config \<Rightarrow> go_error option" where
  "rule_checker c =
     (if config_rules (\<lambda>_. True) (\<lambda>_. True) c then None else Some (ErrText ''validation failed''))"

lemma defaults_load:
  "load (\<lambda>_. False) ErrText (\<lambda>_. (None, default_config)) rule_checker version = (None, default_config)"
proof -
  let ?s = "default_config\<lparr>cfg_telemetry := (cfg_telemetry default_config)\<lparr>service_version := version\<rparr>\<rparr>"
  let ?d = "decode_struct (config_decoder (\<lambda>_. False) ErrText (\<lambda>_. (None, default_config)) rule_checker) ?s"
  have "config_rules (\<lambda>_. True) (\<lambda>_. True) default_config"
    by (simp add: config_rules_def log_rules_def server_rules_def telemetry_rules_def numeric_rules_hold_def
        server_tags_def lifecycle_tags_def default_config_def default_log_config_def format_console_def
        default_server_config_def default_admin_config_def default_addr_def default_admin_addr_def
        default_lifecycle_config_def default_pre_drain_delay_def default_telemetry_config_def
        default_service_name_def default_max_header_bytes_def default_max_request_body_bytes_def second_def)
  then have tags: "rule_checker default_config = None" by (simp add: rule_checker_def)
  note default_config_accepted [of "\<lambda>_. False" ErrText]
  moreover have "case ?d of
      (None, c) \<Rightarrow> c = default_config \<and> failures (\<lambda>_. False) ErrText default_config = []
    | (Some err, c) \<Rightarrow> failures (\<lambda>_. False) ErrText default_config \<noteq> [] \<and> (\<exists>es. err = ErrJoin es) \<and>
        reported err = failures (\<lambda>_. False) ErrText default_config"
    by (rule decode_config_checks) (simp_all add: tags)
  ultimately show ?thesis unfolding load_decodes by (cases ?d; cases "fst ?d") simp_all
qed

theorem loaded_configuration_is_bounded_witness:
  "list_all bounded_server [cfg_server default_config, cfg_admin default_config] \<and>
    0 \<le> sint (duration_duration (pre_drain_delay (cfg_lifecycle default_config))) \<and>
    names_a_port (cfg_addr (cfg_server default_config)) \<and> names_a_port (cfg_addr (cfg_admin default_config)) \<and>
    (\<exists>proxies. new_trusted_proxies (cfg_proxy default_config) = Inr proxies) \<and>
    (\<exists>z. config_for (\<lambda>_. False) sample_presets (log_format (cfg_log default_config)) = Inr z)"
proof (rule loaded_configuration_is_bounded)
  show "enforces_tags (\<lambda>_. True) (\<lambda>_. True) rule_checker"
    by (simp add: enforces_tags_def rule_checker_def)
qed (rule defaults_load)

section \<open>The client's two validators\<close>

lemma client_tags_agree_with_validate: "client_validate c = None \<longleftrightarrow> numeric_rules_hold (client_tags c)"
  by (auto simp: client_validate_complaints numeric_rules_hold_def client_tags_def duration_complaints_def
      count_complaints_def durations_def counts_def)

text \<open>C32: A client is built exactly when the struct tags, which the environment path applies, accept its
  settings, which is when every timeout is positive and no pool limit is negative: neither way in
  is stricter than the other. Its pool and its overall bound are then the settings as given;
  otherwise the error names every setting that is wrong, the timeouts first, each with the value it
  has.\<close>

theorem client_built_as_configured:
  "case new_client otel_transport noop c tel of
     Inr client \<Rightarrow>
       numeric_rules_hold (client_tags c) \<and>
       list_all (\<lambda>(name, v). 0 < sint v) (durations c) \<and> list_all (\<lambda>(name, v). 0 \<le> v) (counts c) \<and>
       client_timeout client = cl_timeout c \<and>
       (let tr = pool (client_transport client) in
        tr_dial_timeout tr = cl_connect_timeout c \<and>
        tr_tls_handshake_timeout tr = cl_tls_handshake_timeout c \<and>
        tr_response_header_timeout tr = cl_response_header_timeout c \<and>
        tr_idle_conn_timeout tr = cl_idle_conn_timeout c \<and>
        map snd (counts c) = [tr_max_conns_per_host tr, tr_max_idle_conns tr, tr_max_idle_conns_per_host tr] \<and>
        tr_proxy_from_environment tr)
   | Inl err \<Rightarrow>
       numeric_rules_hold (client_tags c) = False \<and>
       duration_complaints c @ count_complaints c \<noteq> [] \<and>
       err = ErrJoin (map ErrText (duration_complaints c @ count_complaints c))"
proof (cases "duration_complaints c @ count_complaints c = []")
  case True
  then have valid: "client_validate c = None" by (simp add: client_validate_complaints)
  moreover have "list_all (\<lambda>(name, v). 0 < sint v) (durations c)"
    using True by (auto simp: duration_complaints_def filter_empty_conv list_all_iff)
  moreover have "list_all (\<lambda>(name, v). 0 \<le> v) (counts c)"
    using True by (auto simp: count_complaints_def filter_empty_conv list_all_iff)
  ultimately show ?thesis
    using client_tags_agree_with_validate [of c]
    by (simp add: new_client_def new_transport_def instrument_def Let_def duration_duration_def
        counts_def split: prod.splits)
next
  case False
  then have "client_validate c = Some (ErrJoin (map ErrText (duration_complaints c @ count_complaints c)))"
    unfolding client_validate_complaints Let_def by (simp only: if_False)
  with False client_tags_agree_with_validate [of c] show ?thesis by (simp add: new_client_def new_transport_def)
qed

end
