(* ===== verification/Telemetry_Setup.thy ===== *)
theory Telemetry_Setup
  imports Settings Handler_Chain
begin

text \<open>
  \<open>internal/telemetry\<close>: the tracing and metrics pipelines. The OpenTelemetry SDK and the Prometheus
  client are not in the repository: the record \<open>sdk\<close> holds the constructors and shutdowns the code
  calls, whose results decide which of its branches runs. A logger's entries go to the exchange's
  log, as everywhere in this library. A provider is shut down under a context; all the code uses of
  it is the time it allows, which is what the constructors of a shutdown are given.
\<close>

section \<open>The SDK\<close>

record ('res, 'exp, 'tp, 'prop, 'reg, 'mexp, 'mp, 'meter, 'instr) sdk =
  merge_resource :: "(string \<times> string) list \<Rightarrow> go_error + 'res"
  new_exporter :: "string \<Rightarrow> go_error + 'exp"
  new_tracer_provider :: "'exp \<Rightarrow> 'res \<Rightarrow> 'tp"
  noop_tracer_provider :: 'tp
  shutdown_tracer_provider :: "go_duration \<Rightarrow> 'tp \<Rightarrow> go_error option"
  context_propagator :: 'prop
  empty_propagator :: 'prop
  new_registry :: 'reg
  new_metrics_exporter :: "'reg \<Rightarrow> go_error + 'mexp"
  new_meter_provider :: "'mexp \<Rightarrow> 'res \<Rightarrow> 'mp"
  noop_meter_provider :: 'mp
  shutdown_meter_provider :: "go_duration \<Rightarrow> 'mp \<Rightarrow> go_error option"
  start_runtime_metrics :: "'mp \<Rightarrow> go_error option"
  meter_scope :: "'mp \<Rightarrow> string \<Rightarrow> 'meter"
  observable_gauge :: "'meter \<Rightarrow> string \<Rightarrow> string \<Rightarrow> go_error + 'instr"
  register_callback :: "'meter \<Rightarrow> 'instr \<Rightarrow> int \<Rightarrow> (string \<times> string) list \<Rightarrow> go_error option"
  metrics_handler :: "'reg \<Rightarrow> handler"

definition new_resource ::
    "('res, 'exp, 'tp, 'prop, 'reg, 'mexp, 'mp, 'meter, 'instr) sdk \<Rightarrow> telemetry_config \<Rightarrow> go_error + 'res" where
  "new_resource k cfg =
     (let attrs = [(''service.name'', service_name cfg)] @
            (if service_version cfg \<noteq> [] then [(''service.version'', service_version cfg)] else [])
      in case merge_resource k attrs of
           Inl err \<Rightarrow> Inl (ErrWrap (''building telemetry resource for service '' @ service_name cfg) err)
         | Inr res \<Rightarrow> Inr res)"

section \<open>Tracing\<close>

record ('tp, 'prop) tracing =
  tracing_provider :: "'tp option"
  tracing_propagator :: "'prop option"

definition tracing_enabled :: "('tp, 'prop) tracing \<Rightarrow> bool" where
  "tracing_enabled t \<longleftrightarrow> tracing_provider t \<noteq> None"

definition tracing_tracer_provider ::
    "('res, 'exp, 'tp, 'prop, 'reg, 'mexp, 'mp, 'meter, 'instr) sdk \<Rightarrow> ('tp, 'prop) tracing \<Rightarrow> 'tp" where
  "tracing_tracer_provider k t =
     (case tracing_provider t of None \<Rightarrow> noop_tracer_provider k | Some p \<Rightarrow> p)"

definition tracing_text_propagator ::
    "('res, 'exp, 'tp, 'prop, 'reg, 'mexp, 'mp, 'meter, 'instr) sdk \<Rightarrow> ('tp, 'prop) tracing \<Rightarrow> 'prop" where
  "tracing_text_propagator k t =
     (case tracing_propagator t of None \<Rightarrow> empty_propagator k | Some p \<Rightarrow> p)"

definition tracing_shutdown ::
    "('res, 'exp, 'tp, 'prop, 'reg, 'mexp, 'mp, 'meter, 'instr) sdk \<Rightarrow> ('tp, 'prop) tracing \<Rightarrow> go_duration \<Rightarrow>
     go_error option" where
  "tracing_shutdown k t within =
     (case tracing_provider t of
        None \<Rightarrow> None
      | Some p \<Rightarrow> map_option (ErrWrap ''shutting down tracer provider'') (shutdown_tracer_provider k within p))"

text \<open>
  The SDK's own failures, as the installed error handler logs them. Which handler the otel package
  holds is the one process-wide variable the set-up writes: \<open>None\<close> is the SDK's default, which
  writes to standard error and not to the log.
\<close>

record error_handler =
  handler_logger :: logger

definition handle_sdk_error :: "error_handler \<Rightarrow> go_error \<Rightarrow> exchange \<Rightarrow> exchange" where
  "handle_sdk_error h err x =
     log_to (handler_logger h) ErrorLevel ''opentelemetry sdk reported an error'' [(''error'', FError err)] x"

definition otel_handle :: "error_handler option \<Rightarrow> go_error \<Rightarrow> exchange \<Rightarrow> exchange" where
  "otel_handle installed err x = (case installed of None \<Rightarrow> x | Some h \<Rightarrow> handle_sdk_error h err x)"

definition setup_tracing ::
    "('res, 'exp, 'tp, 'prop, 'reg, 'mexp, 'mp, 'meter, 'instr) sdk \<Rightarrow> telemetry_config \<Rightarrow> logger \<Rightarrow>
     error_handler option \<Rightarrow> exchange \<Rightarrow> (go_error + ('tp, 'prop) tracing) \<times> error_handler option \<times> exchange" where
  "setup_tracing k cfg lg installed x =
     (let installed = Some \<lparr>handler_logger = lg\<rparr>;
          prop' = context_propagator k;
          endpoint = traces_endpoint cfg
      in if endpoint = [] then
           (Inr \<lparr>tracing_provider = None, tracing_propagator = Some prop'\<rparr>, installed,
            log_to lg InfoLevel ''tracing disabled: no collector endpoint configured''
              [(''set_to_enable'', FString env_otlp_endpoint)] x)
         else case new_resource k cfg of
             Inl err \<Rightarrow> (Inl err, installed, x)
           | Inr res \<Rightarrow>
               (case new_exporter k endpoint of
                  Inl err \<Rightarrow> (Inl (ErrWrap (''creating OTLP trace exporter for '' @ endpoint) err), installed, x)
                | Inr exporter \<Rightarrow>
                    let provider = new_tracer_provider k exporter res in
                    (Inr \<lparr>tracing_provider = Some provider, tracing_propagator = Some prop'\<rparr>, installed,
                     log_to lg InfoLevel ''tracing enabled''
                       [(''endpoint'', FString endpoint), (''service'', FString (service_name cfg))] x)))"

section \<open>Metrics\<close>

record ('mp, 'reg) metrics =
  metrics_provider :: "'mp option"
  metrics_registry :: 'reg

definition metrics_meter_provider ::
    "('res, 'exp, 'tp, 'prop, 'reg, 'mexp, 'mp, 'meter, 'instr) sdk \<Rightarrow> ('mp, 'reg) metrics \<Rightarrow> 'mp" where
  "metrics_meter_provider k m =
     (case metrics_provider m of None \<Rightarrow> noop_meter_provider k | Some p \<Rightarrow> p)"

definition metrics_http_handler ::
    "('res, 'exp, 'tp, 'prop, 'reg, 'mexp, 'mp, 'meter, 'instr) sdk \<Rightarrow> ('mp, 'reg) metrics \<Rightarrow> handler" where
  "metrics_http_handler k m = metrics_handler k (metrics_registry m)"

definition meter_name :: string where
  "meter_name = ''github.com/uhdaptuhbl/template-go-http-server''"

definition build_labels :: "string \<Rightarrow> build_info \<Rightarrow> (string \<times> string) list" where
  "build_labels go_version info =
     [(''version'', build_version info), (''commit'', build_commit info),
      (''build_date'', build_date info), (''go_version'', go_version)]"

definition record_build_info ::
    "('res, 'exp, 'tp, 'prop, 'reg, 'mexp, 'mp, 'meter, 'instr) sdk \<Rightarrow> string \<Rightarrow> build_info \<Rightarrow> ('mp, 'reg) metrics \<Rightarrow>
     go_error option" where
  "record_build_info k go_version info m =
     (let meter = meter_scope k (metrics_meter_provider k m) meter_name in
      case observable_gauge k meter ''build_info''
          ''Always 1, labelled with the identity of the running build.'' of
        Inl err \<Rightarrow> Some (ErrWrap ''creating the build_info instrument'' err)
      | Inr gauge \<Rightarrow>
          map_option (ErrWrap ''registering the build_info callback'')
            (register_callback k meter gauge 1 (build_labels go_version info)))"

definition metrics_shutdown ::
    "('res, 'exp, 'tp, 'prop, 'reg, 'mexp, 'mp, 'meter, 'instr) sdk \<Rightarrow> ('mp, 'reg) metrics \<Rightarrow> go_duration \<Rightarrow>
     go_error option" where
  "metrics_shutdown k m within =
     (case metrics_provider m of
        None \<Rightarrow> None
      | Some p \<Rightarrow> map_option (ErrWrap ''shutting down meter provider'') (shutdown_meter_provider k within p))"

definition setup_metrics ::
    "('res, 'exp, 'tp, 'prop, 'reg, 'mexp, 'mp, 'meter, 'instr) sdk \<Rightarrow> telemetry_config \<Rightarrow> logger \<Rightarrow> exchange \<Rightarrow>
     (go_error + ('mp, 'reg) metrics) \<times> exchange" where
  "setup_metrics k cfg lg x =
     (case new_resource k cfg of
        Inl err \<Rightarrow> (Inl err, x)
      | Inr res \<Rightarrow>
          let registry = new_registry k in
          case new_metrics_exporter k registry of
            Inl err \<Rightarrow> (Inl (ErrWrap ''creating prometheus metrics exporter'' err), x)
          | Inr exporter \<Rightarrow>
              let provider = new_meter_provider k exporter res in
              case start_runtime_metrics k provider of
                Some err \<Rightarrow> (Inl (ErrWrap ''starting runtime metrics collection'' err), x)
              | None \<Rightarrow>
                  (Inr \<lparr>metrics_provider = Some provider, metrics_registry = registry\<rparr>,
                   log_to lg InfoLevel ''metrics enabled''
                     [(''exposition'', FString ''prometheus''), (''service'', FString (service_name cfg))] x))"

section \<open>What the two pipelines share\<close>

text \<open>
  A pipeline as the start-up and the shutdown use it: a provider that is never missing, and a stop
  that does nothing when there is none to stop and otherwise says which pipeline failed.
\<close>

locale telemetry_pipeline =
  fixes provider :: "'s \<Rightarrow> 'p option"
    and used :: "'s \<Rightarrow> 'p"
    and noop :: 'p
    and stop_provider :: "'d \<Rightarrow> 'p \<Rightarrow> go_error option"
    and stop :: "'s \<Rightarrow> 'd \<Rightarrow> go_error option"
    and label :: string
  assumes used_own: "provider s = Some p \<Longrightarrow> used s = p"
    and used_noop: "provider s = None \<Longrightarrow> used s = noop"
    and stop_nothing: "provider s = None \<Longrightarrow> stop s within = None"
    and stop_own: "provider s = Some p \<Longrightarrow> stop s within = map_option (ErrWrap label) (stop_provider within p)"
begin

lemma stops_quietly: "stop s within = None \<longleftrightarrow> provider s = None \<or> stop_provider within (used s) = None"
  by (cases "provider s") (simp_all add: used_own stop_nothing stop_own)

lemma stop_failure: "stop s within = Some err \<Longrightarrow> \<exists>e. err = ErrWrap label e \<and> stop_provider within (used s) = Some e"
  by (cases "provider s") (auto simp: used_own stop_nothing stop_own)

end

interpretation traces: telemetry_pipeline tracing_provider "tracing_tracer_provider k" "noop_tracer_provider k"
  "shutdown_tracer_provider k" "tracing_shutdown k" "''shutting down tracer provider''" for k
  by unfold_locales (simp_all add: tracing_tracer_provider_def tracing_shutdown_def)

interpretation measures: telemetry_pipeline metrics_provider "metrics_meter_provider k" "noop_meter_provider k"
  "shutdown_meter_provider k" "metrics_shutdown k" "''shutting down meter provider''" for k
  by unfold_locales (simp_all add: metrics_meter_provider_def metrics_shutdown_def)

text \<open>C31: Tracing is on exactly when a collector endpoint is configured, and either way there is
  something to use and to stop: trace headers are read and passed on, one entry says which it is,
  and without an endpoint no exporter is asked for, spans go to the no-op provider and stopping
  cannot fail. A set-up that fails had an endpoint, and logs nothing. Whatever comes of it, an
  error the SDK reports from then on is one error entry of the application's log.\<close>

theorem tracing_follows_the_endpoint:
  "case setup_tracing k cfg lg installed x of (res, installed', y) \<Rightarrow>
     (\<exists>e. log (otel_handle installed' err z) = log z @ [e] \<and> entry_level e = ErrorLevel \<and>
        entry_fields e = lg @ [(''error'', FError err)]) \<and>
     (case res of
        Inl _ \<Rightarrow> traces_endpoint cfg \<noteq> [] \<and> y = x
      | Inr t \<Rightarrow>
          tracing_enabled t = (traces_endpoint cfg \<noteq> []) \<and>
          tracing_text_propagator k t = context_propagator k \<and>
          (\<exists>e. log y = log x @ [e] \<and> entry_message e =
             (if tracing_enabled t then ''tracing enabled''
              else ''tracing disabled: no collector endpoint configured'')) \<and>
          (if tracing_enabled t
           then \<exists>exporter res. new_exporter k (traces_endpoint cfg) = Inr exporter \<and> new_resource k cfg = Inr res \<and>
             tracing_tracer_provider k t = new_tracer_provider k exporter res
           else tracing_tracer_provider k t = noop_tracer_provider k \<and> tracing_shutdown k t within = None))"
proof (cases "traces_endpoint cfg = []")
  case True
  let ?t = "\<lparr>tracing_provider = None, tracing_propagator = Some (context_propagator k)\<rparr>"
  have "tracing_tracer_provider k ?t = noop_tracer_provider k" "tracing_shutdown k ?t within = None"
    by (simp_all add: traces.used_noop traces.stop_nothing)
  with True show ?thesis
    by (simp add: setup_tracing_def tracing_enabled_def tracing_text_propagator_def log_to_def log_at_def
        otel_handle_def handle_sdk_error_def)
next
  case False
  have "tracing_tracer_provider k \<lparr>tracing_provider = Some p, tracing_propagator = pr\<rparr> = p" for p pr
    by (simp add: traces.used_own)
  with False show ?thesis
    by (auto simp: setup_tracing_def tracing_enabled_def tracing_text_propagator_def log_to_def log_at_def Let_def
        otel_handle_def handle_sdk_error_def split: sum.splits)
qed

end
