(* ===== verification/Web_Assets.thy ===== *)
theory Web_Assets
  imports Handler_Chain
begin

text \<open>
  \<open>internal/web\<close>: the embedded frontend's entity tags and headers. The embedded tree is the list of
  what \<open>fs.WalkDir\<close> reports for it, with what reading each file gives; SHA-256 and
  \<open>http.FileServerFS\<close> are arguments.
\<close>

section \<open>Entity tags\<close>

datatype walk_entry =
    Walk_error go_error
  | Walk_dir string
  | Walk_file string "go_error + bytes"

definition entity_tag :: "(bytes \<Rightarrow> bytes) \<Rightarrow> bytes \<Rightarrow> string" where
  "entity_tag sha256 data = CHR 0x22 # hex_encode (take 16 (sha256 data)) @ [CHR 0x22]"

fun walk_tags ::
    "(bytes \<Rightarrow> bytes) \<Rightarrow> walk_entry list \<Rightarrow> (string \<rightharpoonup> string) \<Rightarrow> go_error + (string \<rightharpoonup> string)" where
  "walk_tags sha256 [] tags = Inr tags"
| "walk_tags sha256 (e # es) tags =
     (case e of
        Walk_error err \<Rightarrow> Inl err
      | Walk_dir _ \<Rightarrow> walk_tags sha256 es tags
      | Walk_file name contents \<Rightarrow>
          (case contents of
             Inl err \<Rightarrow> Inl (ErrWrap (''reading embedded asset '' @ name) err)
           | Inr data \<Rightarrow> walk_tags sha256 es (tags(CHR ''/'' # name \<mapsto> entity_tag sha256 data))))"

definition etags :: "(bytes \<Rightarrow> bytes) \<Rightarrow> walk_entry list \<Rightarrow> go_error + (string \<rightharpoonup> string)" where
  "etags sha256 entries =
     (case walk_tags sha256 entries Map.empty of
        Inl err \<Rightarrow> Inl (ErrWrap ''computing embedded asset entity tags'' err)
      | Inr tags \<Rightarrow> Inr tags)"

section \<open>Headers\<close>

definition content_security_policy :: string where
  "content_security_policy =
     ''default-src '' @ [CHR 0x27] @ ''self'' @ [CHR 0x27] @ ''; frame-ancestors '' @ [CHR 0x27] @ ''none'' @
     [CHR 0x27] @ ''; base-uri '' @ [CHR 0x27] @ ''self'' @ [CHR 0x27] @ ''; object-src '' @ [CHR 0x27] @
     ''none'' @ [CHR 0x27]"

text \<open>\<open>path.Join\<close> of a rooted path and a name.\<close>

definition path_join :: "string \<Rightarrow> string \<Rightarrow> string" where
  "path_join p name = clean_rooted (p @ ''/'' @ name)"

definition asset_key :: "string \<Rightarrow> string" where
  "asset_key url =
     (let cleaned = clean_rooted (CHR ''/'' # url) in
      if has_suffix url ''/'' \<or> cleaned = ''/'' then path_join cleaned ''index.html'' else cleaned)"

definition with_asset_headers :: "(string \<rightharpoonup> string) \<Rightarrow> handler \<Rightarrow> handler" where
  "with_asset_headers tags next r w x =
     (let x = set_header ''X-Content-Type-Options'' ''nosniff'' x;
          x = set_header ''Referrer-Policy'' ''no-referrer'' x;
          x = set_header ''Content-Security-Policy'' content_security_policy x;
          x = set_header ''Cache-Control'' ''no-cache'' x;
          x = (case tags (asset_key (url_path r)) of
                 None \<Rightarrow> x
               | Some tag \<Rightarrow> set_header ''ETag'' tag x)
      in next r w x)"

text \<open>\<open>fs.Sub\<close> opens the tree, or does not.\<close>

definition web_handler ::
    "(bytes \<Rightarrow> bytes) \<Rightarrow> (walk_entry list \<Rightarrow> handler) \<Rightarrow> go_error + walk_entry list \<Rightarrow> go_error + handler" where
  "web_handler sha256 file_server sub =
     (case sub of
        Inl err \<Rightarrow> Inl (ErrWrap ''opening embedded frontend assets under dist'' err)
      | Inr tree \<Rightarrow>
          (case etags sha256 tree of
             Inl err \<Rightarrow> Inl err
           | Inr tags \<Rightarrow> Inr (with_asset_headers tags (file_server tree))))"

section \<open>Facts\<close>

definition embedded_files :: "walk_entry list \<Rightarrow> (string \<times> bytes) list" where
  "embedded_files es =
     List.map_filter (\<lambda>e. case e of Walk_file name (Inr data) \<Rightarrow> Some (name, data) | _ \<Rightarrow> None) es"

lemma walk_tags_Inr:
  "walk_tags sha256 es tags = Inr out \<Longrightarrow>
   out = tags ++ map_of (rev (map (\<lambda>(name, data). (CHR ''/'' # name, entity_tag sha256 data)) (embedded_files es)))"
  by (induction es arbitrary: tags)
    (auto simp: embedded_files_def List.map_filter_simps split: walk_entry.splits sum.splits)

lemma etags_Inr:
  assumes "etags sha256 es = Inr tags" "distinct (map fst (embedded_files es))"
  shows "(name, data) \<in> set (embedded_files es) \<Longrightarrow> tags (CHR ''/'' # name) = Some (entity_tag sha256 data)"
    and "k \<notin> (\<lambda>(name, data). CHR ''/'' # name) ` set (embedded_files es) \<Longrightarrow> tags k = None"
proof -
  let ?ts = "map (\<lambda>(name, data). (CHR ''/'' # name, entity_tag sha256 data)) (embedded_files es)"
  have tags: "tags = map_of (rev ?ts)"
    using assms(1) walk_tags_Inr [of sha256 es Map.empty tags] by (auto simp: etags_def split: sum.splits)
  have keys: "map fst ?ts = map ((#) CHR ''/'') (map fst (embedded_files es))"
    by (simp add: comp_def case_prod_beta)
  have "distinct (map fst ?ts)"
    unfolding keys using assms(2) by (simp add: distinct_map inj_on_def)
  then have dist: "distinct (map fst (rev ?ts))" by (simp only: rev_map [symmetric] distinct_rev)
  show "tags (CHR ''/'' # name) = Some (entity_tag sha256 data)" if "(name, data) \<in> set (embedded_files es)"
    unfolding tags using that by (intro map_of_is_SomeI dist) force
  show "tags k = None" if "k \<notin> (\<lambda>(name, data). CHR ''/'' # name) ` set (embedded_files es)"
    unfolding tags map_of_eq_None_iff using that by force
qed

text \<open>Cleaning a rooted path that is clean.\<close>

definition plain_segment :: "string \<Rightarrow> bool" where
  "plain_segment s \<longleftrightarrow> s \<noteq> [] \<and> s \<noteq> ''.'' \<and> s \<noteq> ''..'' \<and> CHR ''/'' \<notin> set s"

definition path_of :: "string list \<Rightarrow> string" where
  "path_of segs = CHR ''/'' # join segs ''/''"

lemma clean_segments_plain:
  "list_all plain_segment segs \<Longrightarrow>
   foldl (\<lambda>out s. if s = [] \<or> s = ''.'' then out else if s = ''..'' then butlast out else out @ [s]) out segs =
   out @ segs"
  by (induction segs arbitrary: out) (auto simp: plain_segment_def)

lemma split_plain:
  "segs \<noteq> [] \<Longrightarrow> list_all plain_segment segs \<Longrightarrow> split (join segs ''/'') CHR ''/'' = segs"
  by (rule split_joined) (auto simp: plain_segment_def list_all_iff)

lemma clean_segments_skip: "clean_segments ([] # segs) = clean_segments segs"
  by (simp add: clean_segments_def)

lemma clean_rooted_plain:
  assumes "segs \<noteq> []" "list_all plain_segment segs"
  shows "clean_rooted (path_of segs) = path_of segs"
    and "clean_rooted (CHR ''/'' # path_of segs) = path_of segs"
    and "clean_rooted (CHR ''/'' # path_of segs @ ''/'') = path_of segs"
proof -
  note split = split_plain [OF assms]
  have clean: "clean_segments segs = segs"
    using clean_segments_plain [OF assms(2), of "[]"] by (simp add: clean_segments_def)
  have trailing: "clean_segments (segs @ [[]]) = segs"
    using clean by (simp add: clean_segments_def)
  have dir: "split (join segs ''/'' @ ''/'') CHR ''/'' = segs @ [[]]"
    using split_append [of "join segs ''/''" "CHR ''/''" "[]"] by (simp add: split)
  show "clean_rooted (path_of segs) = path_of segs"
    "clean_rooted (CHR ''/'' # path_of segs) = path_of segs"
    "clean_rooted (CHR ''/'' # path_of segs @ ''/'') = path_of segs"
    by (simp_all add: clean_rooted_def path_of_def split clean clean_segments_skip dir trailing)
qed

lemma join_snoc: "segs \<noteq> [] \<Longrightarrow> join (segs @ [s]) sep = join segs sep @ sep @ s"
  by (induction segs rule: list_nonempty_induct) (auto simp: join_Cons_nonempty)

lemma path_of_ends:
  assumes "segs \<noteq> []" "list_all plain_segment segs"
  shows "\<not> has_suffix (path_of segs) ''/''" "path_of segs \<noteq> ''/''"
proof -
  obtain init s where segs: "segs = init @ [s]" and s: "plain_segment s"
    using assms by (cases segs rule: rev_cases) auto
  obtain p where p: "path_of segs = p @ s" "p \<noteq> []"
    by (cases "init = []") (auto simp: segs path_of_def join_snoc)
  have nonempty: "s \<noteq> []" using s by (simp add: plain_segment_def)
  then have "last s \<in> set s" by simp
  then have "last s \<noteq> CHR ''/''" using s by (auto simp: plain_segment_def simp del: last_in_set)
  then have "last (path_of segs) \<noteq> CHR ''/''" using nonempty by (simp add: p)
  then show "\<not> has_suffix (path_of segs) ''/''" "path_of segs \<noteq> ''/''" by (auto simp: has_suffix_iff)
qed

lemma asset_key_file:
  "segs \<noteq> [] \<Longrightarrow> list_all plain_segment segs \<Longrightarrow> asset_key (path_of segs) = path_of segs"
  by (simp add: asset_key_def Let_def clean_rooted_plain path_of_ends)

lemma asset_key_directory:
  assumes "list_all plain_segment segs"
  shows "asset_key (path_of segs @ (if segs = [] then [] else ''/'')) = path_of (segs @ [''index.html''])"
proof -
  have index: "plain_segment ''index.html''" by (simp add: plain_segment_def)
  show ?thesis
  proof (cases "segs = []")
    case True
    show ?thesis unfolding True by code_simp
  next
    case False
    have slash: "has_suffix (path_of segs @ ''/'') ''/''" by (auto simp: has_suffix_iff)
    have "path_join (path_of segs) ''index.html'' = clean_rooted (path_of (segs @ [''index.html'']))"
      using False by (simp add: path_join_def path_of_def join_snoc)
    then show ?thesis
      using clean_rooted_plain(3) [OF False assms] clean_rooted_plain(1) [of "segs @ [''index.html'']"]
        assms index False slash
      by (simp add: asset_key_def Let_def)
  qed
qed

section \<open>The validator of a request\<close>

lemma length_entity_tag: "length (sha256 data) = 32 \<Longrightarrow> length (entity_tag sha256 data) = 34"
  by (simp add: entity_tag_def length_hex_encode)

lemma canonical_asset_keys:
  "canonical_key ''X-Content-Type-Options'' = ''X-Content-Type-Options''"
  "canonical_key ''Referrer-Policy'' = ''Referrer-Policy''"
  "canonical_key ''Content-Security-Policy'' = ''Content-Security-Policy''"
  "canonical_key ''Cache-Control'' = ''Cache-Control''"
  "canonical_key ''ETag'' = ''Etag''"
  by code_simp+


definition zero_digest :: "bytes \<Rightarrow> bytes" where
  "zero_digest b = replicate 32 CHR 0x00"

definition sample_tree :: "walk_entry list" where
  "sample_tree = [Walk_dir ''.'', Walk_dir ''app'', Walk_file ''app/index.html'' (Inr ''<p>'')]"


end
