(* ===== verification/Lifecycle_Properties.thy ===== *)
theory Lifecycle_Properties
  imports Lifecycle
begin

text \<open>
  The life cycle's guarantees, as invariants of every reachable state of the process: a graceful
  shutdown fails readiness and holds before any listener stops, the process ends with the first
  error or after every server has drained, and it does end, in a bounded number of steps.
\<close>

section \<open>One server\<close>

text \<open>How the fields of a server at work agree.\<close>

definition listener_ok :: "listener \<Rightarrow> bool" where
  "listener_ok l \<longleftrightarrow>
     (phase l = Starting \<longrightarrow> acceptor l = Not_started \<and> \<not> in_shutdown l \<and> serve_err l = None \<and> active l = 0) \<and>
     (phase l = Serving \<longrightarrow> \<not> in_shutdown l \<and> acceptor l \<noteq> Not_started) \<and>
     ((\<exists>t. phase l = Shutting_down t) \<longrightarrow> in_shutdown l \<and> acceptor l \<noteq> Not_started) \<and>
     (phase l = Awaiting_result \<longrightarrow>
        in_shutdown l \<and> active l = 0 \<and> acceptor l \<noteq> Not_started) \<and>
     (phase l = Exited None \<longrightarrow> in_shutdown l \<and> active l = 0) \<and>
     (acceptor l = Result_sent \<and> \<not> has_exited (phase l) \<longrightarrow> serve_err l \<noteq> None) \<and>
     (serve_err l \<noteq> None \<longrightarrow> acceptor l = Result_sent) \<and>
     (\<not> in_shutdown l \<longrightarrow> serve_err l \<noteq> Some None) \<and>
     (\<forall>err. acceptor l = Serve_returned err \<and> \<not> in_shutdown l \<longrightarrow> \<not> errors_is err ServerClosed)"

lemma new_listener_ok: "listener_ok (new_listener s)"
  by (simp add: listener_ok_def new_listener_def)

lemma server_step_ok:
  assumes "server_step stop t l l' es" "listener_ok l"
  shows "listener_ok l'"
  using assms
  by (elim server_step.cases; (elim disjE)?; simp add: listener_ok_def serve_result_def)

lemma server_step_exited:
  "server_step stop t l l' es \<Longrightarrow> phase l = Exited r \<Longrightarrow> phase l' = Exited r \<and> es = []"
  by (erule server_step.cases) auto

lemma server_step_shutdown:
  "server_step stop t l l' es \<Longrightarrow> in_shutdown l' \<Longrightarrow> in_shutdown l \<or> stop"
  by (erule server_step.cases) auto

text \<open>What a step logs.\<close>

lemma server_step_log:
  "server_step stop t l l' es \<Longrightarrow> (t', e) \<in> set es \<Longrightarrow> entry_message e = ''shutting down'' \<Longrightarrow>
   t' = t \<and> stop \<and> phase l = Serving"
  by (erule server_step.cases) (auto simp: server_entry_def)

section \<open>A measure\<close>

definition phase_rank :: "phase \<Rightarrow> nat" where
  "phase_rank ph =
     (case ph of Starting \<Rightarrow> 7 | Serving \<Rightarrow> 3 | Shutting_down _ \<Rightarrow> 2 | Awaiting_result \<Rightarrow> 1 | Exited _ \<Rightarrow> 0)"

definition acceptor_rank :: "acceptor \<Rightarrow> nat" where
  "acceptor_rank a =
     (case a of Not_started \<Rightarrow> 0 | Spawned \<Rightarrow> 3 | Accepting \<Rightarrow> 2 | Serve_returned _ \<Rightarrow> 1 | Result_sent \<Rightarrow> 0)"

definition listener_rank :: "listener \<Rightarrow> nat" where
  "listener_rank l = phase_rank (phase l) + acceptor_rank (acceptor l)"

definition process_rank :: "process \<Rightarrow> nat" where
  "process_rank p =
     sum_list (map listener_rank (listeners p)) +
     (case seq p of Seq_waiting \<Rightarrow> 2 | Seq_holding _ \<Rightarrow> 1 | Seq_done \<Rightarrow> 0) +
     (case main p of Group_wait \<Rightarrow> 2 | Sequencer_wait \<Rightarrow> 1 | Run_all_returned _ \<Rightarrow> 0)"

lemma server_step_rank:
  "server_step stop t l l' es \<Longrightarrow> listener_ok l \<Longrightarrow> listener_rank l' < listener_rank l"
  by (erule server_step.cases; (elim disjE)?; simp add: listener_rank_def phase_rank_def acceptor_rank_def listener_ok_def)

lemma sum_list_update_less:
  "i < length xs \<Longrightarrow> f y < f (xs ! i) \<Longrightarrow> sum_list (map f (xs[i := y])) < sum_list (map f xs :: nat list)"
proof (induction xs arbitrary: i)
  case (Cons x xs)
  then show ?case by (cases i) auto
qed simp

lemma process_step_rank:
  assumes "process_step cfg lg p q" "list_all listener_ok (listeners p)"
  shows "process_rank q < process_rank p"
  using assms(1)
proof (cases rule: process_step.cases)
  case (server_moves i l es)
  have "listener_rank l < listener_rank (listeners p ! i)"
    using server_moves assms(2) by (auto intro: server_step_rank simp: list_all_length)
  with server_moves show ?thesis by (simp add: process_rank_def sum_list_update_less)
next
  case sequencer_moves
  then show ?thesis by (cases rule: drain_step.cases) (simp_all add: process_rank_def)
qed (simp_all add: process_rank_def)

lemma sum_list_update_same:
  "f y = f (xs ! i) \<Longrightarrow> sum_list (map f (xs[i := y])) = sum_list (map f xs :: nat list)"
proof -
  assume "f y = f (xs ! i)"
  then have "map f (xs[i := y]) = map f xs"
    by (cases "i < length xs") (simp_all add: map_update list_update_same_conv list_update_beyond)
  then show ?thesis by simp
qed

lemma env_step_rank: "env_step p q \<Longrightarrow> process_rank q = process_rank p"
  by (erule env_step.cases) (simp_all add: process_rank_def sum_list_update_same listener_rank_def)

section \<open>The process\<close>

text \<open>The servers, the group and \<open>RunAll\<close>.\<close>

definition group_ok :: "process \<Rightarrow> bool" where
  "group_ok p \<longleftrightarrow>
     list_all listener_ok (listeners p) \<and>
     (main p \<noteq> Group_wait \<longrightarrow> list_all (\<lambda>l. has_exited (phase l)) (listeners p)) \<and>
     (\<forall>l \<in> set (listeners p). in_shutdown l \<longrightarrow> group_done p) \<and>
     (\<forall>l \<in> set (listeners p). exit_error (phase l) \<noteq> None \<longrightarrow> group_err p \<noteq> None) \<and>
     (\<forall>e. group_err p = Some e \<longrightarrow> (\<exists>l \<in> set (listeners p). phase l = Exited (Some e))) \<and>
     (\<forall>r. main p = Run_all_returned r \<longrightarrow> r = group_err p \<and> seq p = Seq_done)"

text \<open>The drain sequencer: the hold that precedes every stop that is not a failure.\<close>

definition held :: "lifecycle_config \<Rightarrow> logger \<Rightarrow> process \<Rightarrow> bool" where
  "held cfg lg p \<longleftrightarrow> caller_done p \<and> draining (ready p) \<and>
     (\<exists>t0. (t0, holding_entry lg cfg) \<in> set (proc_log p) \<and> t0 + sint (pre_drain_delay cfg) \<le> now p)"

definition drain_ok :: "lifecycle_config \<Rightarrow> logger \<Rightarrow> process \<Rightarrow> bool" where
  "drain_ok cfg lg p \<longleftrightarrow>
     (seq p = Seq_waiting \<longrightarrow> \<not> serving_stopped p) \<and>
     (\<forall>t. seq p = Seq_holding t \<longrightarrow> \<not> serving_stopped p \<and> caller_done p \<and> draining (ready p) \<and>
        (t - sint (pre_drain_delay cfg), holding_entry lg cfg) \<in> set (proc_log p)) \<and>
     (seq p = Seq_done \<and> main p = Group_wait \<longrightarrow> serving_stopped p) \<and>
     (serving_stopped p \<and> main p = Group_wait \<longrightarrow> held cfg lg p) \<and>
     (group_err p = None \<and> main p \<noteq> Group_wait \<and> listeners p \<noteq> [] \<longrightarrow> held cfg lg p)"

definition stops_after_hold :: "lifecycle_config \<Rightarrow> logger \<Rightarrow> timed_log \<Rightarrow> bool" where
  "stops_after_hold cfg lg es \<longleftrightarrow>
     list_all (\<lambda>(t, e). entry_message e = ''shutting down'' \<longrightarrow>
       list_ex (\<lambda>(t0, e0). e0 = holding_entry lg cfg \<and> t0 + sint (pre_drain_delay cfg) \<le> t) es) es"

lemma process_start_ok: "group_ok (process_start rd t servers)" "drain_ok cfg lg (process_start rd t servers)"
  by (auto simp: group_ok_def drain_ok_def process_start_def new_listener_ok list_all_iff)
    (simp_all add: new_listener_def)

lemma set_list_update: "i < length xs \<Longrightarrow> set (xs[i := y]) \<subseteq> insert y (set xs)"
  by (rule set_update_subset_insert)

lemma first_error_simps [simp]:
  "first_error None r = r" "first_error (Some e) r = Some e"
  "first_error old new = None \<longleftrightarrow> old = None \<and> new = None"
  by (auto simp: first_error_def split: option.splits)

lemma exit_error_iff: "exit_error ph = Some e \<longleftrightarrow> ph = Exited (Some e)"
  by (cases ph) auto

lemma server_moves_group_ok:
  assumes ok: "group_ok p" and i: "i < length (listeners p)"
    and move: "server_step (group_done p) (now p) (listeners p ! i) l es"
  shows "group_ok (p\<lparr>listeners := (listeners p)[i := l],
    group_err := first_error (group_err p) (exit_error (phase l)), proc_log := proc_log p @ es\<rparr>)"
proof -
  let ?q = "p\<lparr>listeners := (listeners p)[i := l],
    group_err := first_error (group_err p) (exit_error (phase l)), proc_log := proc_log p @ es\<rparr>"
  have mem: "listeners p ! i \<in> set (listeners p)" using i by simp
  have sub: "set (listeners ?q) \<subseteq> insert l (set (listeners p))"
    using set_update_subset_insert by fastforce
  have lok: "listener_ok l"
    using ok mem move by (auto simp: group_ok_def list_all_iff intro: server_step_ok)
  have gd: "group_done p \<Longrightarrow> group_done ?q" by (auto simp: group_done_def)
  have shut: "in_shutdown l \<Longrightarrow> group_done ?q"
    using server_step_shutdown [OF move] ok mem gd by (auto simp: group_ok_def)
  have stays: "has_exited (phase (listeners p ! i)) \<Longrightarrow> phase l = phase (listeners p ! i)"
    using server_step_exited [OF move] by (cases "phase (listeners p ! i)") auto
  have first: "\<exists>l' \<in> set (listeners ?q). phase l' = Exited (Some e)" if "group_err ?q = Some e" for e
  proof (cases "group_err p")
    case None
    with that have "phase l = Exited (Some e)" by (simp add: exit_error_iff)
    then show ?thesis using i set_update_memI by fastforce
  next
    case (Some e')
    with that have "group_err p = Some e" by simp
    then obtain l' where l': "l' \<in> set (listeners p)" "phase l' = Exited (Some e)"
      using ok by (auto simp: group_ok_def)
    then obtain j where j: "j < length (listeners p)" "listeners p ! j = l'" by (auto simp: in_set_conv_nth)
    show ?thesis
    proof (cases "j = i")
      case True
      then have "phase l = Exited (Some e)" using stays j l' by simp
      then show ?thesis using i set_update_memI by fastforce
    next
      case False
      then have "(listeners p)[i := l] ! j = l'" using j by simp
      then have "l' \<in> set ((listeners p)[i := l])" using j(1) by (metis length_list_update nth_mem)
      then show ?thesis using l'(2) by auto
    qed
  qed
  show ?thesis
    unfolding group_ok_def
  proof (intro conjI ballI allI impI)
    show "list_all listener_ok (listeners ?q)"
      using ok lok sub by (auto simp: group_ok_def list_all_iff)
  next
    assume "main ?q \<noteq> Group_wait"
    then have "list_all (\<lambda>l. has_exited (phase l)) (listeners p)" using ok by (simp add: group_ok_def)
    moreover from this have "has_exited (phase l)" using stays mem by (simp add: list_all_iff)
    ultimately show "list_all (\<lambda>l. has_exited (phase l)) (listeners ?q)"
      using sub by (auto simp: list_all_iff)
  next
    fix l' assume "l' \<in> set (listeners ?q)" "in_shutdown l'"
    then show "group_done ?q" using sub shut ok gd by (auto simp: group_ok_def)
  next
    fix l' assume "l' \<in> set (listeners ?q)" "exit_error (phase l') \<noteq> None"
    then show "group_err ?q \<noteq> None" using sub ok by (auto simp: group_ok_def)
  next
    fix r assume returned: "main ?q = Run_all_returned r"
    then have "phase l = phase (listeners p ! i)"
      using stays ok mem by (auto simp: group_ok_def list_all_iff)
    then have "group_err ?q = group_err p"
      using ok mem by (cases "exit_error (phase l)"; cases "group_err p") (auto simp: group_ok_def)
    then show "r = group_err ?q" "seq ?q = Seq_done" using ok returned by (auto simp: group_ok_def)
  qed (use first in auto)
qed

lemma process_step_group_ok: "process_step cfg lg p q \<Longrightarrow> group_ok p \<Longrightarrow> group_ok q"
proof (erule process_step.cases)
  fix p' i l es
  assume "group_ok p" "p = p'" "i < length (listeners p')"
    "server_step (group_done p') (now p') (listeners p' ! i) l es"
    "q = p'\<lparr>listeners := (listeners p')[i := l],
      group_err := first_error (group_err p') (exit_error (phase l)), proc_log := proc_log p' @ es\<rparr>"
  then show "group_ok q" using server_moves_group_ok by blast
next
  fix p' q'
  assume "group_ok p" "p = p'" "q = q'" "drain_step cfg lg p' q'"
  then show "group_ok q"
    by (elim drain_step.cases) (auto simp: group_ok_def group_done_def)
qed (auto simp: group_ok_def group_done_def)

lemma active_update_ok:
  "listener_ok l \<Longrightarrow> takes_requests l \<or> n \<le> active l \<Longrightarrow> listener_ok (l\<lparr>active := n\<rparr>)"
  by (cases "phase l") (auto simp: listener_ok_def takes_requests_def)

lemma update_active_group_ok:
  assumes "group_ok p" "i < length (listeners p)"
    and "takes_requests (listeners p ! i) \<or> n \<le> active (listeners p ! i)"
  shows "group_ok (p\<lparr>listeners := (listeners p)[i := (listeners p ! i)\<lparr>active := n\<rparr>]\<rparr>)"
proof -
  let ?l = "(listeners p ! i)\<lparr>active := n\<rparr>"
  have mem: "listeners p ! i \<in> set (listeners p)" using assms(2) by simp
  have sub: "set ((listeners p)[i := ?l]) \<subseteq> insert ?l (set (listeners p))"
    by (rule set_update_subset_insert)
  have "listener_ok ?l"
    using assms mem by (auto simp: group_ok_def list_all_iff intro: active_update_ok)
  moreover have "map phase ((listeners p)[i := ?l]) = map phase (listeners p)"
    using assms(2) by (simp add: map_update list_update_same_conv)
  then have "phase ` set ((listeners p)[i := ?l]) = phase ` set (listeners p)" by (metis set_map)
  then have "\<exists>l' \<in> set ((listeners p)[i := ?l]). phase l' = Exited (Some e)"
    if "\<exists>l' \<in> set (listeners p). phase l' = Exited (Some e)" for e
    using that by (metis (no_types, lifting) imageE imageI)
  ultimately show ?thesis
    using assms(1) sub mem unfolding group_ok_def
    by (auto simp: list_all_iff group_done_def)
qed

lemma env_step_group_ok: "env_step p q \<Longrightarrow> group_ok p \<Longrightarrow> group_ok q"
proof (erule env_step.cases)
  fix p' i
  assume "group_ok p" "p = p'" "i < length (listeners p')" "takes_requests (listeners p' ! i)"
    "q = p'\<lparr>listeners := (listeners p')[i := (listeners p' ! i)\<lparr>active := Suc (active (listeners p' ! i))\<rparr>]\<rparr>"
  then show "group_ok q" using update_active_group_ok by blast
next
  fix p' i
  assume "group_ok p" "p = p'" "i < length (listeners p')"
    "q = p'\<lparr>listeners := (listeners p')[i := (listeners p' ! i)\<lparr>active := active (listeners p' ! i) - 1\<rparr>]\<rparr>"
  then show "group_ok q"
    using update_active_group_ok [of p' i "active (listeners p' ! i) - 1"] by simp
qed (auto simp: group_ok_def group_done_def)

lemma held_mono:
  "held cfg lg p \<Longrightarrow> caller_done p \<le> caller_done q \<Longrightarrow> draining (ready p) \<le> draining (ready q) \<Longrightarrow>
   set (proc_log p) \<subseteq> set (proc_log q) \<Longrightarrow> now p \<le> now q \<Longrightarrow> held cfg lg q"
  by (fastforce simp: held_def)

lemma all_drained_group_done:
  "group_ok p \<Longrightarrow> list_all (\<lambda>l. has_exited (phase l)) (listeners p) \<Longrightarrow> group_err p = None \<Longrightarrow>
   l \<in> set (listeners p) \<Longrightarrow> phase l = Exited None \<and> in_shutdown l \<and> active l = 0 \<and> group_done p"
proof -
  assume *: "group_ok p" "list_all (\<lambda>l. has_exited (phase l)) (listeners p)" "group_err p = None"
    "l \<in> set (listeners p)"
  then have "has_exited (phase l)" "exit_error (phase l) = None" by (auto simp: list_all_iff group_ok_def)
  then have ph: "phase l = Exited None" by (cases "phase l") auto
  have "listener_ok l" using * by (auto simp: list_all_iff group_ok_def)
  then have "in_shutdown l \<and> active l = 0" using ph by (simp add: listener_ok_def)
  then show ?thesis using * ph by (auto simp: group_ok_def)
qed

lemma process_step_drain_ok:
  "process_step cfg lg p q \<Longrightarrow> group_ok p \<Longrightarrow> drain_ok cfg lg p \<Longrightarrow> drain_ok cfg lg q"
proof (erule process_step.cases)
  fix p' i l es
  assume "drain_ok cfg lg p" "p = p'" "i < length (listeners p')"
    "q = p'\<lparr>listeners := (listeners p')[i := l],
      group_err := first_error (group_err p') (exit_error (phase l)), proc_log := proc_log p' @ es\<rparr>"
  moreover from this have "held cfg lg p \<Longrightarrow> held cfg lg q" by (auto elim: held_mono)
  ultimately show "drain_ok cfg lg q" by (auto simp: drain_ok_def)
next
  fix p' q'
  assume ok: "drain_ok cfg lg p" and eq: "p = p'" "q = q'" and "drain_step cfg lg p' q'"
  then have "drain_step cfg lg p q" by simp
  then show "drain_ok cfg lg q"
  proof (cases rule: drain_step.cases)
    case drain_begins
    then have "held cfg lg p \<Longrightarrow> held cfg lg q" by (auto elim!: held_mono simp: set_draining_def)
    with drain_begins ok show ?thesis
      by (auto simp: drain_ok_def set_draining_def duration_duration_def)
  next
    case drain_skipped
    then have "held cfg lg p \<Longrightarrow> held cfg lg q" by (auto elim!: held_mono)
    with drain_skipped ok show ?thesis by (auto simp: drain_ok_def done_closed_def)
  next
    case (drain_ends t)
    then have "held cfg lg p \<Longrightarrow> held cfg lg q" by (auto elim!: held_mono)
    moreover have "held cfg lg q" if "t \<le> now p"
      using drain_ends ok that by (force simp: drain_ok_def held_def)
    ultimately show ?thesis using drain_ends ok by (auto simp: drain_ok_def done_closed_def)
  qed
next
  fix p'
  assume ok: "group_ok p" "drain_ok cfg lg p" and eq: "p = p'" "q = p'\<lparr>main := Sequencer_wait\<rparr>"
    and wait: "main p' = Group_wait" "list_all (\<lambda>l. has_exited (phase l)) (listeners p')"
  have "held cfg lg p" if none: "group_err p = None" and some: "listeners p \<noteq> []"
  proof -
    obtain l where "l \<in> set (listeners p)" using some by (cases "listeners p") auto
    then have "group_done p" using all_drained_group_done ok(1) wait(2) none eq(1) by blast
    then show ?thesis using none ok(2) wait(1) eq(1) by (auto simp: group_done_def drain_ok_def)
  qed
  moreover have "held cfg lg p \<Longrightarrow> held cfg lg q" using eq by (auto elim!: held_mono)
  ultimately show "drain_ok cfg lg q" using ok(2) eq by (auto simp: drain_ok_def)
next
  fix p'
  assume "drain_ok cfg lg p" "p = p'" "main p' = Sequencer_wait" "seq p' = Seq_done"
    "q = p'\<lparr>main := Run_all_returned (group_err p'), serving_stopped := True\<rparr>"
  moreover from this have "held cfg lg p \<Longrightarrow> held cfg lg q" by (auto elim!: held_mono)
  ultimately show "drain_ok cfg lg q" by (auto simp: drain_ok_def)
qed

lemma env_step_drain_ok: "env_step p q \<Longrightarrow> drain_ok cfg lg p \<Longrightarrow> drain_ok cfg lg q"
proof -
  assume step: "env_step p q" and ok: "drain_ok cfg lg p"
  have "held cfg lg p \<Longrightarrow> held cfg lg q"
    using step by (elim env_step.cases) (auto elim!: held_mono)
  moreover have "seq q = seq p" "main q = main p" "serving_stopped q = serving_stopped p"
    "group_err q = group_err p" "length (listeners q) = length (listeners p)" "ready q = ready p"
    "proc_log q = proc_log p" "caller_done p \<le> caller_done q"
    using step by (auto elim!: env_step.cases)
  ultimately show ?thesis using ok unfolding drain_ok_def by (metis length_0_conv le_boolE)
qed

text \<open>What the log says of the hold.\<close>

lemma stops_after_hold_append:
  assumes "stops_after_hold cfg lg es"
    and "\<And>t e. (t, e) \<in> set new \<Longrightarrow> entry_message e = ''shutting down'' \<Longrightarrow>
      \<exists>t0. (t0, holding_entry lg cfg) \<in> set (es @ new) \<and> t0 + sint (pre_drain_delay cfg) \<le> t"
  shows "stops_after_hold cfg lg (es @ new)"
  using assms unfolding stops_after_hold_def list_all_iff list_ex_iff by fastforce

lemma process_step_stops_after_hold:
  assumes "process_step cfg lg p q" "group_ok p" "drain_ok cfg lg p"
    and "group_err p = None \<Longrightarrow> stops_after_hold cfg lg (proc_log p)" "group_err q = None"
  shows "stops_after_hold cfg lg (proc_log q)"
  using assms(1)
proof (cases rule: process_step.cases)
  case (server_moves i l es)
  then have none: "group_err p = None" using assms(5) by simp
  show ?thesis
    unfolding server_moves(1)
  proof (simp, rule stops_after_hold_append)
    show "stops_after_hold cfg lg (proc_log p)" using assms(4) none by simp
    fix t e
    assume "(t, e) \<in> set es" "entry_message e = ''shutting down''"
    then have stop: "t = now p" "group_done p" "phase (listeners p ! i) = Serving"
      using server_step_log [OF server_moves(3)] by auto
    then have "main p = Group_wait"
      using assms(2) server_moves(2) by (auto simp: group_ok_def list_all_length)
    then have "held cfg lg p" using stop(2) none assms(3) by (simp add: drain_ok_def group_done_def)
    then show "\<exists>t0. (t0, holding_entry lg cfg) \<in> set (proc_log p @ es) \<and> t0 + sint (pre_drain_delay cfg) \<le> t"
      using stop(1) by (auto simp: held_def)
  qed
next
  case sequencer_moves
  then have keep: "group_err p = None" using assms(5) by (auto elim: drain_step.cases)
  show ?thesis
    using sequencer_moves
  proof (cases rule: drain_step.cases)
    case drain_begins
    then show ?thesis using assms(4) keep
      by (simp, intro stops_after_hold_append) (auto simp: holding_entry_def)
  qed (use assms(4) keep in auto)
qed (use assms(4,5) in auto)

section \<open>Reachable states\<close>

definition life_ok :: "lifecycle_config \<Rightarrow> logger \<Rightarrow> process \<Rightarrow> bool" where
  "life_ok cfg lg p \<longleftrightarrow> group_ok p \<and> drain_ok cfg lg p \<and>
     (group_err p = None \<longrightarrow> stops_after_hold cfg lg (proc_log p))"

lemma life_ok_step:
  assumes "process_step cfg lg p q \<or> env_step p q" "life_ok cfg lg p"
  shows "life_ok cfg lg q"
  using assms(1)
proof
  assume "process_step cfg lg p q"
  then show ?thesis
    using assms(2) process_step_group_ok process_step_drain_ok process_step_stops_after_hold
    unfolding life_ok_def by metis
next
  assume step: "env_step p q"
  then have "proc_log q = proc_log p" "group_err q = group_err p" by (auto elim!: env_step.cases)
  then show ?thesis
    using step assms(2) env_step_group_ok env_step_drain_ok unfolding life_ok_def by metis
qed

lemma runs_life_ok: "runs cfg lg p q \<Longrightarrow> life_ok cfg lg p \<Longrightarrow> life_ok cfg lg q"
  unfolding runs_def by (induction rule: rtranclp_induct) (auto intro: life_ok_step)

lemma reached_life_ok: "runs cfg lg (process_start rd t servers) p \<Longrightarrow> life_ok cfg lg p"
  by (rule runs_life_ok)
    (auto simp: life_ok_def process_start_ok, simp add: process_start_def stops_after_hold_def)

lemma runs_listeners: "runs cfg lg p q \<Longrightarrow> length (listeners q) = length (listeners p)"
  unfolding runs_def
  by (induction rule: rtranclp_induct)
    (auto elim!: process_step.cases env_step.cases drain_step.cases)

section \<open>Progress\<close>

lemma process_start_rank: "process_rank (process_start rd t servers) = 7 * length servers + 4"
  by (induction servers)
    (simp_all add: process_rank_def process_start_def new_listener_def listener_rank_def
      phase_rank_def acceptor_rank_def)

lemma server_progress:
  assumes ok: "listener_ok l" and running: "\<not> has_exited (phase l)"
    and stop: "phase l = Serving \<Longrightarrow> stop"
  shows "\<exists>d l' es. server_step stop (t + int d) l l' es"
proof (cases "phase l")
  case Starting
  then show ?thesis by (blast intro: server_step.listen_fails)
next
  case Serving
  then show ?thesis using stop by (blast intro: server_step.cancelled)
next
  case (Shutting_down deadline)
  show ?thesis
  proof (cases "acceptor l = Accepting")
    case True
    then show ?thesis using ok Shutting_down
      by (auto simp: listener_ok_def intro: server_step.serve_closed)
  next
    case False
    have "deadline \<le> t + int (nat (deadline - t))" by simp
    with False Shutting_down show ?thesis by (blast intro: server_step.timed_out)
  qed
next
  case Awaiting_result
  show ?thesis
  proof (cases "acceptor l")
    case (Serve_returned err)
    then show ?thesis by (blast intro: server_step.result_sent)
  next
    case Result_sent
    then obtain r where "serve_err l = Some r" using ok Awaiting_result by (auto simp: listener_ok_def)
    then show ?thesis
      using Awaiting_result by (cases r) (blast intro: server_step.complete server_step.serve_failed)+
  qed (use ok Awaiting_result in \<open>auto simp: listener_ok_def intro: server_step.serve_closed\<close>)
qed (use running in simp)

lemma sequencer_progress:
  assumes "seq p \<noteq> Seq_done" "caller_done p \<or> done_closed p"
  shows "\<exists>d q. drain_step cfg lg (p\<lparr>now := now p + int d\<rparr>) q"
proof (cases "seq p")
  case Seq_waiting
  let ?p = "p\<lparr>now := now p + int 0\<rparr>"
  have "drain_step cfg lg ?p (?p\<lparr>ready := set_draining (ready ?p),
      proc_log := proc_log ?p @ [(now ?p, holding_entry lg cfg)],
      seq := Seq_holding (now ?p + sint (duration_duration (pre_drain_delay cfg)))\<rparr>) \<or>
    drain_step cfg lg ?p (?p\<lparr>seq := Seq_done\<rparr>)"
    using assms(2) Seq_waiting drain_step.intros(1,2) [of ?p cfg lg] by (auto simp: done_closed_def)
  then show ?thesis by blast
next
  case (Seq_holding t)
  let ?p = "p\<lparr>now := now p + int (nat (t - now p))\<rparr>"
  have "drain_step cfg lg ?p (?p\<lparr>serving_stopped := True, seq := Seq_done\<rparr>)"
    using Seq_holding by (intro drain_step.drain_ends) auto
  then show ?thesis by blast
qed (use assms in simp)

lemma process_progress:
  assumes ok: "group_ok p" "drain_ok cfg lg p" and stop: "caller_done p \<or> group_err p \<noteq> None"
    and running: "\<nexists>r. main p = Run_all_returned r"
  shows "\<exists>d q. process_step cfg lg (p\<lparr>now := now p + int d\<rparr>) q"
proof (cases "seq p \<noteq> Seq_done \<and> (caller_done p \<or> done_closed p)")
  case True
  then show ?thesis using sequencer_progress [of p cfg lg] by (blast intro: process_step.sequencer_moves)
next
  case blocked: False
  show ?thesis
  proof (cases "main p")
    case Group_wait
    show ?thesis
    proof (cases "list_all (\<lambda>l. has_exited (phase l)) (listeners p)")
      case True
      then have "process_step cfg lg (p\<lparr>now := now p + int 0\<rparr>) (p\<lparr>now := now p + int 0\<rparr>\<lparr>main := Sequencer_wait\<rparr>)"
        using Group_wait by (intro process_step.wait_returns) simp_all
      then show ?thesis by blast
    next
      case False
      then obtain i where i: "i < length (listeners p)" "\<not> has_exited (phase (listeners p ! i))"
        by (auto simp: list_all_length)
      have "listener_ok (listeners p ! i)" using ok(1) i(1) by (simp add: group_ok_def list_all_length)
      moreover have "group_done p"
        using blocked stop ok(2) Group_wait by (auto simp: drain_ok_def group_done_def)
      ultimately obtain d l es where
        "server_step (group_done p) (now p + int d) (listeners p ! i) l es"
        using server_progress i(2) by blast
      then show ?thesis
        using process_step.server_moves [of i "p\<lparr>now := now p + int d\<rparr>" l es cfg lg] i(1)
        by (auto simp: group_done_def)
    qed
  next
    case Sequencer_wait
    then have "seq p = Seq_done" using blocked by (simp add: done_closed_def)
    then have "process_step cfg lg (p\<lparr>now := now p + int 0\<rparr>)
        (p\<lparr>now := now p + int 0\<rparr>\<lparr>main := Run_all_returned (group_err (p\<lparr>now := now p + int 0\<rparr>)),
           serving_stopped := True\<rparr>)"
      using Sequencer_wait by (intro process_step.run_all_returns) simp_all
    then show ?thesis by blast
  qed (use running in auto)
qed

end
