(* ===== verification/Lifecycle_Exec.thy ===== *)
theory Lifecycle_Exec
  imports Lifecycle
begin

text \<open>
  The life cycle as a program: which goroutine moves next, and with what result, is an action, and
  an action's effect is computed. The actions are exactly the steps of the relations in \<open>Lifecycle\<close>,
  so a schedule that runs is a reachable state, which is how concrete runs are exhibited.
\<close>

section \<open>Actions\<close>

datatype server_action =
    Listen_fails go_error
  | Listens string
  | Serve_begins
  | Serve_fails go_error
  | Serve_closed
  | Send_result
  | Serve_stopped
  | Cancelled
  | Shut_down
  | Close_fails go_error
  | Timed_out
  | Serve_failed
  | Complete

definition guard :: "bool \<Rightarrow> 'a \<Rightarrow> 'a option" where
  "guard b x = (if b then Some x else None)"

lemma guard_Some [simp]: "guard b x = Some y \<longleftrightarrow> b \<and> x = y"
  by (simp add: guard_def)

fun shutting :: "phase \<Rightarrow> int option" where
  "shutting (Shutting_down t) = Some t"
| "shutting _ = None"

lemma shutting_Some [simp]: "shutting ph = Some t \<longleftrightarrow> ph = Shutting_down t"
  by (cases ph) auto

fun server_act :: "server_action \<Rightarrow> bool \<Rightarrow> int \<Rightarrow> listener \<Rightarrow> (listener \<times> timed_log) option" where
  "server_act (Listen_fails err) stop t l =
     guard (phase l = Starting)
       (l\<lparr>phase := Exited (Some (listen_error (srv l) err))\<rparr>, [])"
| "server_act (Listens a) stop t l =
     guard (phase l = Starting)
       (let l' = l\<lparr>bound_addr := a, acceptor := Spawned, phase := Serving\<rparr>
        in (l', [(t, server_entry l' ''http server listening'' [])]))"
| "server_act Serve_begins stop t l =
     guard (acceptor l = Spawned \<and> \<not> in_shutdown l) (l\<lparr>acceptor := Accepting\<rparr>, [])"
| "server_act (Serve_fails err) stop t l =
     guard (acceptor l = Accepting \<and> \<not> in_shutdown l \<and> \<not> errors_is err ServerClosed)
       (l\<lparr>acceptor := Serve_returned err\<rparr>, [])"
| "server_act Serve_closed stop t l =
     guard ((acceptor l = Spawned \<or> acceptor l = Accepting) \<and> in_shutdown l)
       (l\<lparr>acceptor := Serve_returned (ErrSentinel ServerClosed)\<rparr>, [])"
| "server_act Send_result stop t l =
     (case acceptor l of
        Serve_returned err \<Rightarrow> Some (l\<lparr>acceptor := Result_sent, serve_err := Some (serve_result err)\<rparr>, [])
      | _ \<Rightarrow> None)"
| "server_act Serve_stopped stop t l =
     (case serve_err l of
        Some r \<Rightarrow> guard (phase l = Serving) (l\<lparr>phase := Exited r, serve_err := None\<rparr>, [])
      | None \<Rightarrow> None)"
| "server_act Cancelled stop t l =
     guard (phase l = Serving \<and> stop)
       (l\<lparr>phase := Shutting_down (shutdown_deadline l t), in_shutdown := True\<rparr>,
        [(t, server_entry l ''shutting down'' [(''timeout'', FDuration (sint (srv_shutdown_timeout (srv l))))])])"
| "server_act Shut_down stop t l =
     guard (shutting (phase l) \<noteq> None \<and> acceptor l \<noteq> Accepting \<and> active l = 0)
       (l\<lparr>phase := Awaiting_result\<rparr>, [])"
| "server_act (Close_fails err) stop t l =
     guard (shutting (phase l) \<noteq> None \<and> acceptor l \<noteq> Accepting \<and> active l = 0)
       (l\<lparr>phase := Exited (Some (shutdown_error err))\<rparr>, [])"
| "server_act Timed_out stop t l =
     (case shutting (phase l) of
        Some deadline \<Rightarrow>
          guard (acceptor l \<noteq> Accepting \<and> deadline \<le> t)
            (l\<lparr>phase := Exited (Some (shutdown_error (ErrSentinel DeadlineExceeded)))\<rparr>, [])
      | None \<Rightarrow> None)"
| "server_act Serve_failed stop t l =
     (case serve_err l of
        Some (Some err) \<Rightarrow>
          guard (phase l = Awaiting_result) (l\<lparr>phase := Exited (Some err), serve_err := None\<rparr>, [])
      | _ \<Rightarrow> None)"
| "server_act Complete stop t l =
     guard (phase l = Awaiting_result \<and> serve_err l = Some None)
       (l\<lparr>phase := Exited None, serve_err := None\<rparr>, [(t, server_entry l ''shutdown complete'' [])])"

lemma server_act_sound: "server_act a stop t l = Some (l', es) \<Longrightarrow> server_step stop t l l' es"
  by (cases a) (auto simp: Let_def intro!: server_step.intros split: acceptor.splits option.splits)

lemma server_act_complete: "server_step stop t l l' es \<Longrightarrow> \<exists>a. server_act a stop t l = Some (l', es)"
proof (induction rule: server_step.induct)
  case (listen_fails l err)
  then show ?case by (intro exI [of _ "Listen_fails err"]) simp
next
  case (listens l l' a)
  then show ?case by (intro exI [of _ "Listens a"]) (simp add: Let_def)
next
  case (serve_begins l)
  then show ?case by (intro exI [of _ Serve_begins]) simp
next
  case (serve_fails l err)
  then show ?case by (intro exI [of _ "Serve_fails err"]) simp
next
  case (serve_closed l)
  then show ?case by (intro exI [of _ Serve_closed]) simp
next
  case (result_sent l err)
  then show ?case by (intro exI [of _ Send_result]) simp
next
  case (serve_stopped l r)
  then show ?case by (intro exI [of _ Serve_stopped]) simp
next
  case (cancelled l)
  then show ?case by (intro exI [of _ Cancelled]) simp
next
  case (shut_down l t)
  then show ?case by (intro exI [of _ Shut_down]) simp
next
  case (close_fails l t err)
  then show ?case by (intro exI [of _ "Close_fails err"]) simp
next
  case (timed_out l t)
  then show ?case by (intro exI [of _ Timed_out]) simp
next
  case (serve_failed l err)
  then show ?case by (intro exI [of _ Serve_failed]) simp
next
  case (complete l)
  then show ?case by (intro exI [of _ Complete]) simp
qed

datatype action =
    Server nat server_action
  | Drain_begins
  | Drain_skipped
  | Drain_ends
  | Wait_returns
  | Run_all_ends
  | Time_passes nat
  | Caller_cancels
  | Request_begins nat
  | Request_ends nat

definition set_active :: "nat \<Rightarrow> nat \<Rightarrow> process \<Rightarrow> process" where
  "set_active i n p = p\<lparr>listeners := (listeners p)[i := (listeners p ! i)\<lparr>active := n\<rparr>]\<rparr>"

fun act :: "lifecycle_config \<Rightarrow> logger \<Rightarrow> action \<Rightarrow> process \<Rightarrow> process option" where
  "act cfg lg (Server i a) p =
     (if i < length (listeners p) then
        (case server_act a (group_done p) (now p) (listeners p ! i) of
           None \<Rightarrow> None
         | Some (l, es) \<Rightarrow>
             Some (p\<lparr>listeners := (listeners p)[i := l],
                     group_err := first_error (group_err p) (exit_error (phase l)),
                     proc_log := proc_log p @ es\<rparr>))
      else None)"
| "act cfg lg Drain_begins p =
     guard (seq p = Seq_waiting \<and> caller_done p)
       (p\<lparr>ready := set_draining (ready p),
          proc_log := proc_log p @ [(now p, holding_entry lg cfg)],
          seq := Seq_holding (now p + sint (duration_duration (pre_drain_delay cfg)))\<rparr>)"
| "act cfg lg Drain_skipped p = guard (seq p = Seq_waiting \<and> done_closed p) (p\<lparr>seq := Seq_done\<rparr>)"
| "act cfg lg Drain_ends p =
     (case seq p of
        Seq_holding t \<Rightarrow> guard (t \<le> now p \<or> done_closed p) (p\<lparr>serving_stopped := True, seq := Seq_done\<rparr>)
      | _ \<Rightarrow> None)"
| "act cfg lg Wait_returns p =
     guard (main p = Group_wait \<and> list_all (\<lambda>l. has_exited (phase l)) (listeners p))
       (p\<lparr>main := Sequencer_wait\<rparr>)"
| "act cfg lg Run_all_ends p =
     guard (main p = Sequencer_wait \<and> seq p = Seq_done)
       (p\<lparr>main := Run_all_returned (group_err p), serving_stopped := True\<rparr>)"
| "act cfg lg (Time_passes d) p = Some (p\<lparr>now := now p + int d\<rparr>)"
| "act cfg lg Caller_cancels p = Some (p\<lparr>caller_done := True\<rparr>)"
| "act cfg lg (Request_begins i) p =
     guard (i < length (listeners p) \<and> takes_requests (listeners p ! i))
       (set_active i (Suc (active (listeners p ! i))) p)"
| "act cfg lg (Request_ends i) p =
     guard (i < length (listeners p)) (set_active i (active (listeners p ! i) - 1) p)"

fun acts :: "lifecycle_config \<Rightarrow> logger \<Rightarrow> action list \<Rightarrow> process \<Rightarrow> process option" where
  "acts cfg lg [] p = Some p"
| "acts cfg lg (a # as) p = (case act cfg lg a p of None \<Rightarrow> None | Some q \<Rightarrow> acts cfg lg as q)"

lemma act_sound: "act cfg lg a p = Some q \<Longrightarrow> process_step cfg lg p q \<or> env_step p q"
proof (cases a)
  case (Server i sa)
  assume "act cfg lg a p = Some q"
  then show ?thesis
    using Server server_act_sound process_step.server_moves by (auto split: if_splits option.splits)
next
  case (Request_begins i)
  assume "act cfg lg a p = Some q"
  then show ?thesis
    using Request_begins by (auto simp: set_active_def intro: env_step.request_begins)
next
  case (Request_ends i)
  assume "act cfg lg a p = Some q"
  then show ?thesis using Request_ends env_step.request_ends [of i p] by (auto simp: set_active_def)
qed (auto intro: process_step.sequencer_moves drain_step.intros process_step.wait_returns
    process_step.run_all_returns env_step.time_passes env_step.caller_cancels split: sequencer.splits)

lemma acts_sound: "acts cfg lg as p = Some q \<Longrightarrow> runs cfg lg p q"
proof (induction as arbitrary: p)
  case Nil
  then show ?case by (simp add: runs_def)
next
  case (Cons a as)
  then obtain p' where "act cfg lg a p = Some p'" "acts cfg lg as p' = Some q"
    by (auto split: option.splits)
  then show ?case
    using Cons.IH act_sound unfolding runs_def by (metis (no_types, lifting) converse_rtranclp_into_rtranclp)
qed

lemma act_complete:
  assumes "process_step cfg lg p q \<or> env_step p q"
  shows "\<exists>a. act cfg lg a p = Some q"
  using assms
proof
  assume "process_step cfg lg p q"
  then show ?thesis
  proof (cases rule: process_step.cases)
    case (server_moves i l es)
    then obtain a where "server_act a (group_done p) (now p) (listeners p ! i) = Some (l, es)"
      using server_act_complete by blast
    then show ?thesis using server_moves by (intro exI [of _ "Server i a"]) simp
  next
    case sequencer_moves
    then show ?thesis
    proof (cases rule: drain_step.cases)
      case drain_begins
      then show ?thesis by (intro exI [of _ Drain_begins]) simp
    next
      case drain_skipped
      then show ?thesis by (intro exI [of _ Drain_skipped]) simp
    next
      case (drain_ends t)
      then show ?thesis by (intro exI [of _ Drain_ends]) simp
    qed
  next
    case wait_returns
    then show ?thesis by (intro exI [of _ Wait_returns]) simp
  next
    case run_all_returns
    then show ?thesis by (intro exI [of _ Run_all_ends]) simp
  qed
next
  assume "env_step p q"
  then show ?thesis
  proof (cases rule: env_step.cases)
    case (time_passes d)
    then show ?thesis by (intro exI [of _ "Time_passes d"]) simp
  next
    case caller_cancels
    then show ?thesis by (intro exI [of _ Caller_cancels]) simp
  next
    case (request_begins i)
    then show ?thesis by (intro exI [of _ "Request_begins i"]) (auto simp: set_active_def)
  next
    case (request_ends i)
    then show ?thesis by (intro exI [of _ "Request_ends i"]) (simp add: set_active_def)
  qed
qed

lemma acts_complete: "runs cfg lg p q \<Longrightarrow> \<exists>as. acts cfg lg as p = Some q"
  unfolding runs_def
proof (induction rule: converse_rtranclp_induct)
  case base
  show ?case by (intro exI [of _ "[]"]) simp
next
  case (step p p')
  then obtain a as where "act cfg lg a p = Some p'" "acts cfg lg as p' = Some q"
    using act_complete by blast
  then show ?case by (intro exI [of _ "a # as"]) simp
qed

lemma runs_iff_acts: "runs cfg lg p q \<longleftrightarrow> (\<exists>as. acts cfg lg as p = Some q)"
  using acts_sound acts_complete by blast

end
