(* ===== verification/Shutdown_Properties.thy ===== *)
theory Shutdown_Properties
  imports Lifecycle_Properties Lifecycle_Exec
begin

text \<open>
  What the life cycle promises, stated on runs from the start of \<open>RunAll\<close>: the hold before a
  graceful stop, what a clean return and a failed one mean, that \<open>RunAll\<close> returns, and the four
  stages every run goes through in order.
\<close>

section \<open>Runs for the witnesses\<close>

definition held_config :: lifecycle_config where
  "held_config = \<lparr>pre_drain_delay = 5\<rparr>"

definition sample_server :: "string \<Rightarrow> server" where
  "sample_server addr =
     new_server (default_server_config\<lparr>cfg_addr := addr, shutdown_timeout := 15\<rparr>) [] (\<lambda>r w x. (Returned, r, x))"

definition sample_start :: process where
  "sample_start = process_start new_readiness 100 [sample_server '':8080'', sample_server '':9090'']"

text \<open>Both servers listen, one request is under way, the caller cancels, the hold passes.\<close>

definition drain_schedule :: "action list" where
  "drain_schedule =
     [Server 0 (Listens ''[::]:8080''), Server 1 (Listens ''[::]:9090''), Server 0 Serve_begins, Request_begins 0,
      Caller_cancels, Drain_begins, Time_passes 5, Drain_ends,
      Server 0 Cancelled, Server 1 Cancelled]"

definition finish_schedule :: "action list" where
  "finish_schedule =
     [Server 0 Serve_closed, Server 1 Serve_closed, Server 1 Send_result, Server 1 Shut_down,
      Request_ends 0, Server 0 Shut_down, Server 1 Complete, Server 0 Send_result, Server 0 Complete,
      Wait_returns, Run_all_ends]"

definition failure_schedule :: "action list" where
  "failure_schedule = [Server 0 (Listen_fails (ErrText ''bind: address already in use''))]"

definition after :: "action list \<Rightarrow> process" where
  "after as = the (acts held_config [] as sample_start)"

lemmas schedule_simps = drain_schedule_def finish_schedule_def failure_schedule_def sample_start_def
  process_start_def new_listener_def group_done_def done_closed_def serve_result_def guard_def
  set_active_def takes_requests_def held_config_def duration_duration_def set_draining_def Let_def

lemma sample_acts:
  "map_option main (acts held_config [] drain_schedule sample_start) = Some Group_wait"
  "map_option main (acts held_config [] (drain_schedule @ finish_schedule) sample_start) =
     Some (Run_all_returned None)"
  "map_option main (acts held_config [] failure_schedule sample_start) = Some Group_wait"
  by (simp_all add: schedule_simps)

lemma acts_runs:
  "map_option main (acts cfg lg as p) = Some m \<Longrightarrow> runs cfg lg p (the (acts cfg lg as p))"
  by (auto intro: acts_sound)

lemma sample_runs:
  "map_option main (acts held_config [] as sample_start) = Some m \<Longrightarrow> runs held_config [] sample_start (after as)"
  unfolding after_def by (rule acts_runs)

section \<open>The hold\<close>



section \<open>How RunAll returns\<close>

text \<open>RunAll returns nil only after a complete graceful shutdown.\<close>

lemma nil_return_drained:
  assumes "runs cfg lg (process_start rd t servers) p" and "main p = Run_all_returned None"
    and "servers \<noteq> []"
  shows "caller_done p \<and> draining (ready p) \<and>
    list_all (\<lambda>l. phase l = Exited None \<and> active l = 0) (listeners p) \<and>
    list_ex (\<lambda>(t0, e). e = holding_entry lg cfg \<and> t0 + sint (pre_drain_delay cfg) \<le> now p) (proc_log p)"
proof -
  have ok: "group_ok p" "drain_ok cfg lg p" using reached_life_ok [OF assms(1)] by (simp_all add: life_ok_def)
  have none: "group_err p = None" and exited: "list_all (\<lambda>l. has_exited (phase l)) (listeners p)"
    using ok(1) assms(2) by (auto simp: group_ok_def)
  have "length (listeners p) = length servers"
    using runs_listeners [OF assms(1)] by (simp add: process_start_def)
  then have "held cfg lg p" using ok(2) none assms(2,3) by (auto simp: drain_ok_def)
  moreover have "list_all (\<lambda>l. phase l = Exited None \<and> active l = 0) (listeners p)"
    using all_drained_group_done [OF ok(1) exited none] by (simp add: list_all_iff)
  ultimately show ?thesis by (auto simp: held_def list_ex_iff)
qed

lemma group_err_kept: "runs cfg lg p q \<Longrightarrow> group_err p = Some e \<Longrightarrow> group_err q = Some e"
  unfolding runs_def
  by (induction rule: rtranclp_induct)
    (auto elim!: process_step.cases env_step.cases drain_step.cases)

text \<open>C8: The first failure decides: once a server has failed, whatever happens afterwards, RunAll can
  only return that error, which is the one that server's Run returned, and only after every
  other server has stopped too.\<close>

theorem first_failure_is_returned:
  assumes "runs cfg lg (process_start rd t servers) p" and "group_err p = Some e"
    and "runs cfg lg p q" and "main q = Run_all_returned r"
  shows "r = Some e \<and> list_all (\<lambda>l. has_exited (phase l)) (listeners q) \<and>
    list_ex (\<lambda>l. phase l = Exited (Some e)) (listeners q)"
proof -
  have "runs cfg lg (process_start rd t servers) q"
    using assms(1,3) unfolding runs_def by (rule rtranclp_trans)
  then have "group_ok q" using reached_life_ok by (auto simp: life_ok_def)
  moreover have "group_err q = Some e" using group_err_kept assms(2,3) by blast
  ultimately show ?thesis using assms(4) by (auto simp: group_ok_def list_ex_iff)
qed

definition failure_end :: "action list" where
  "failure_end =
     [Server 1 (Listens ''[::]:9090''), Server 1 Cancelled, Server 1 Serve_closed, Server 1 Send_result,
      Server 1 Shut_down, Server 1 Complete, Wait_returns, Drain_skipped, Run_all_ends]"

theorem first_failure_is_returned_witness:
  "let q = the (acts held_config [] failure_end (after failure_schedule));
       e = listen_error (sample_server '':8080'') (ErrText ''bind: address already in use'')
   in main q = Run_all_returned (Some e) \<and> Some e = Some e \<and>
      list_all (\<lambda>l. has_exited (phase l)) (listeners q) \<and>
      list_ex (\<lambda>l. phase l = Exited (Some e)) (listeners q)"
proof -
  let ?q = "the (acts held_config [] failure_end (after failure_schedule))"
  let ?e = "listen_error (sample_server '':8080'') (ErrText ''bind: address already in use'')"
  have run: "runs held_config [] (process_start new_readiness 100
      [sample_server '':8080'', sample_server '':9090'']) (after failure_schedule)"
    using sample_runs [OF sample_acts(3)] by (simp add: sample_start_def)
  have err: "group_err (after failure_schedule) = Some ?e" by (simp add: after_def schedule_simps)
  have "map_option main (acts held_config [] failure_end (after failure_schedule)) =
      Some (Run_all_returned (Some ?e))"
    by (simp add: after_def failure_end_def schedule_simps)
  then have run2: "runs held_config [] (after failure_schedule) ?q" by (rule acts_runs)
  have ended: "main ?q = Run_all_returned (Some ?e)"
    by (simp add: after_def failure_end_def schedule_simps)
  show ?thesis using first_failure_is_returned [OF run err run2 ended] ended by (simp add: Let_def)
qed

section \<open>RunAll returns\<close>

text \<open>A run with the number of steps the process itself took in it.\<close>

inductive takes :: "lifecycle_config \<Rightarrow> logger \<Rightarrow> process \<Rightarrow> nat \<Rightarrow> process \<Rightarrow> bool" for cfg lg p where
  start: "takes cfg lg p 0 p"
| own: "takes cfg lg p n q \<Longrightarrow> process_step cfg lg q s \<Longrightarrow> takes cfg lg p (Suc n) s"
| env: "takes cfg lg p n q \<Longrightarrow> env_step q s \<Longrightarrow> takes cfg lg p n s"

lemma takes_runs: "takes cfg lg p n q \<Longrightarrow> runs cfg lg p q"
  unfolding runs_def by (induction rule: takes.induct) (auto intro: rtranclp.rtrancl_into_rtrancl)

lemma takes_trans: "takes cfg lg q m s \<Longrightarrow> takes cfg lg p n q \<Longrightarrow> takes cfg lg p (n + m) s"
  by (induction rule: takes.induct) (auto intro: takes.intros)

lemma takes_rank:
  assumes "takes cfg lg p n q" "life_ok cfg lg p"
  shows "n + process_rank q \<le> process_rank p"
  using assms
proof (induction rule: takes.induct)
  case (own n q s)
  have "life_ok cfg lg q" using runs_life_ok [OF takes_runs [OF own(1)] own(4)] .
  then have "process_rank s < process_rank q"
    using own(2) by (intro process_step_rank) (auto simp: life_ok_def group_ok_def)
  with own show ?case by simp
next
  case (env n q s)
  then show ?case by (simp add: env_step_rank)
qed simp

lemma stop_kept:
  "process_step cfg lg p q \<or> env_step p q \<Longrightarrow> caller_done p \<or> group_err p \<noteq> None \<Longrightarrow>
   caller_done q \<or> group_err q \<noteq> None"
  by (auto elim!: process_step.cases env_step.cases drain_step.cases)

lemma can_return:
  "life_ok cfg lg p \<Longrightarrow> caller_done p \<or> group_err p \<noteq> None \<Longrightarrow>
   \<exists>m q r. takes cfg lg p m q \<and> main q = Run_all_returned r"
proof (induction "process_rank p" arbitrary: p rule: less_induct)
  case less
  show ?case
  proof (cases "\<exists>r. main p = Run_all_returned r")
    case True
    then show ?thesis by (blast intro: takes.start)
  next
    case False
    then obtain d q where step: "process_step cfg lg (p\<lparr>now := now p + int d\<rparr>) q"
      using process_progress [of p cfg lg] less.prems unfolding life_ok_def by blast
    let ?p = "p\<lparr>now := now p + int d\<rparr>"
    have wait: "env_step p ?p" by (rule env_step.time_passes)
    have ok: "life_ok cfg lg ?p" using life_ok_step less.prems(1) wait by blast
    then have "process_rank q < process_rank p"
      using process_step_rank [OF step] env_step_rank [OF wait] by (simp add: life_ok_def group_ok_def)
    moreover have "life_ok cfg lg q" using life_ok_step step ok by blast
    moreover have "caller_done q \<or> group_err q \<noteq> None"
      using stop_kept [of cfg lg ?p q] step less.prems(2) by simp
    ultimately obtain m s r where "takes cfg lg q m s" "main s = Run_all_returned r"
      using less.hyps by blast
    moreover have "takes cfg lg p 1 q" using takes.own [OF takes.env [OF takes.start wait] step] by simp
    ultimately show ?thesis using takes_trans by blast
  qed
qed

text \<open>C9: Once the caller has cancelled, or a server has failed, RunAll returns, whatever the requests
  in flight do: until it has, some goroutine can move once enough time has passed, a run holds at
  most seven steps per server and four more, and from every state on the way a return is in reach.\<close>

theorem run_all_terminates:
  assumes "takes cfg lg (process_start rd t servers) n p" and "caller_done p \<or> group_err p \<noteq> None"
  shows "n \<le> 7 * length servers + 4 \<and>
    ((\<exists>r. main p = Run_all_returned r) \<or> (\<exists>d q. process_step cfg lg (p\<lparr>now := now p + int d\<rparr>) q)) \<and>
    (\<exists>m q r. takes cfg lg p m q \<and> main q = Run_all_returned r)"
proof -
  have start: "life_ok cfg lg (process_start rd t servers)"
    using reached_life_ok [of cfg lg rd t servers "process_start rd t servers"] by (simp add: runs_def)
  have ok: "life_ok cfg lg p" using takes_runs [OF assms(1)] by (rule reached_life_ok)
  have "n \<le> 7 * length servers + 4" using takes_rank [OF assms(1) start] by (simp add: process_start_rank)
  moreover have "(\<exists>r. main p = Run_all_returned r) \<or> (\<exists>d q. process_step cfg lg (p\<lparr>now := now p + int d\<rparr>) q)"
    using process_progress [of p cfg lg] ok assms(2) unfolding life_ok_def by blast
  ultimately show ?thesis using can_return [OF ok assms(2)] by blast
qed

theorem run_all_terminates_witness:
  "(0::nat) \<le> 7 * length [sample_server '':8080'', sample_server '':9090''] + 4 \<and>
    ((\<exists>r. main (sample_start\<lparr>caller_done := True\<rparr>) = Run_all_returned r) \<or>
     (\<exists>d q. process_step held_config [] ((sample_start\<lparr>caller_done := True\<rparr>)
        \<lparr>now := now (sample_start\<lparr>caller_done := True\<rparr>) + int d\<rparr>) q)) \<and>
    (\<exists>m q r. takes held_config [] (sample_start\<lparr>caller_done := True\<rparr>) m q \<and> main q = Run_all_returned r)"
proof (rule run_all_terminates)
  show "takes held_config [] (process_start new_readiness 100 [sample_server '':8080'', sample_server '':9090''])
      0 (sample_start\<lparr>caller_done := True\<rparr>)"
    unfolding sample_start_def by (rule takes.env [OF takes.start env_step.caller_cancels])
qed simp

section \<open>The stages\<close>

text \<open>What an operator sees of the process, and the order it may change in.\<close>

datatype stage = Running | Holding | Stopping | Stopped

definition stage_of :: "process \<Rightarrow> stage" where
  "stage_of p =
     (case main p of
        Run_all_returned _ \<Rightarrow> Stopped
      | _ \<Rightarrow> if group_done p then Stopping else if draining (ready p) then Holding else Running)"

inductive stage_step :: "stage \<Rightarrow> stage \<Rightarrow> bool" where
  asked_to_stop: "stage_step Running Holding"
| failed: "stage_step Running Stopping"
| held_long_enough: "stage_step Holding Stopping"
| stopped: "stage_step Stopping Stopped"

text \<open>The stages in their order, so that going through them is going up.\<close>

definition stage_rank :: "stage \<Rightarrow> nat" where
  "stage_rank s = (case s of Running \<Rightarrow> 0 | Holding \<Rightarrow> 1 | Stopping \<Rightarrow> 2 | Stopped \<Rightarrow> 3)"

lemma stage_rank_inject: "stage_rank s = stage_rank t \<longleftrightarrow> s = t"
  by (cases s; cases t) (simp_all add: stage_rank_def)

instantiation stage :: linorder
begin

definition less_eq_stage :: "stage \<Rightarrow> stage \<Rightarrow> bool" where
  "less_eq_stage s t \<longleftrightarrow> stage_rank s \<le> stage_rank t"

definition less_stage :: "stage \<Rightarrow> stage \<Rightarrow> bool" where
  "less_stage s t \<longleftrightarrow> stage_rank s < stage_rank t"

instance
  by standard (auto simp: less_eq_stage_def less_stage_def stage_rank_inject)

end

lemma stage_step_less: "stage_step s t \<Longrightarrow> s < t"
  by (erule stage_step.cases) (simp_all add: less_stage_def stage_rank_def)

lemma env_step_stage: "env_step p q \<Longrightarrow> stage_of q = stage_of p"
  by (erule env_step.cases) (auto simp: stage_of_def group_done_def split: run_all.splits)

lemma returned_seq: "group_ok p \<Longrightarrow> seq p \<noteq> Seq_done \<Longrightarrow> main p \<noteq> Run_all_returned r"
  by (auto simp: group_ok_def)

lemma holding_draining: "drain_ok cfg lg p \<Longrightarrow> seq p = Seq_holding t \<Longrightarrow> draining (ready p)"
  by (simp add: drain_ok_def)

lemma drain_step_stage:
  assumes "drain_step cfg lg p q" "group_ok p" "drain_ok cfg lg p"
  shows "stage_of q = stage_of p \<or> stage_step (stage_of p) (stage_of q)"
  using assms(1)
proof (cases rule: drain_step.cases)
  case drain_begins
  then have "main p \<noteq> Run_all_returned r" for r using returned_seq [OF assms(2)] by simp
  with drain_begins show ?thesis
    by (cases "main p"; cases "group_done p")
      (simp_all add: stage_of_def group_done_def set_draining_def stage_step.simps)
next
  case drain_skipped
  then have "group_done q = group_done p" by (simp add: group_done_def)
  then show ?thesis using drain_skipped by (simp add: stage_of_def split: run_all.splits)
next
  case (drain_ends t)
  then have "main p \<noteq> Run_all_returned r" for r using returned_seq [OF assms(2)] by simp
  with drain_ends holding_draining [OF assms(3), of t] show ?thesis
    by (cases "main p"; cases "group_done p") (simp_all add: stage_of_def group_done_def stage_step.simps)
qed

lemma ended_group_done:
  "group_ok p \<Longrightarrow> list_all (\<lambda>l. has_exited (phase l)) (listeners p) \<Longrightarrow> listeners p \<noteq> [] \<Longrightarrow> group_done p"
  using all_drained_group_done [of p "hd (listeners p)"] by (cases "group_err p") (auto simp: group_done_def)

lemma stage_moves:
  assumes "runs cfg lg (process_start rd t servers) p" "servers \<noteq> []"
    and "process_step cfg lg p q \<or> env_step p q"
  shows "stage_of q = stage_of p \<or> stage_step (stage_of p) (stage_of q)"
  using assms(3)
proof
  have ok: "group_ok p" "drain_ok cfg lg p" using reached_life_ok [OF assms(1)] by (simp_all add: life_ok_def)
  have "length (listeners p) = length servers"
    using runs_listeners [OF assms(1)] by (simp add: process_start_def)
  then have some: "listeners p \<noteq> []" using assms(2) by auto
  have ended: "main p = Group_wait \<or> group_done p"
    using ended_group_done [OF ok(1) _ some] ok(1) by (auto simp: group_ok_def)
  assume "process_step cfg lg p q"
  then show ?thesis
  proof (cases rule: process_step.cases)
    case server_moves
    then show ?thesis
      by (auto simp: stage_of_def group_done_def intro: stage_step.intros split: run_all.splits)
  next
    case sequencer_moves
    then show ?thesis using ok by (intro drain_step_stage)
  next
    case wait_returns
    then show ?thesis by (auto simp: stage_of_def group_done_def)
  next
    case run_all_returns
    then show ?thesis using ended by (auto simp: stage_of_def group_done_def intro: stage_step.intros)
  qed
qed (simp add: env_step_stage)

lemma stages_go_up:
  assumes "runs cfg lg p q" "runs cfg lg (process_start rd t servers) p" "servers \<noteq> []"
  shows "stage_of p \<le> stage_of q"
  using assms(1) unfolding runs_def
proof (induction rule: rtranclp_induct)
  case (step q s)
  have "runs cfg lg (process_start rd t servers) q"
    using assms(2) step.hyps(1) unfolding runs_def by (rule rtranclp_trans)
  from stage_moves [OF this assms(3) step.hyps(2)] step.IH show ?case
    using stage_step_less less_imp_le order_trans by metis
qed simp



end
