(* ===== verification/Service_Main.thy ===== *)
theory Service_Main
  imports Configuration_Properties Logging_Setup Telemetry_Setup Web_Assets Shutdown_Properties
begin

text \<open>
  \<open>cmd/service/main.go\<close>: \<open>run\<close>, from the configuration to the return of \<open>RunAll\<close>, with its deferred
  clean-up, and \<open>start\<close>, which turns its error into the exit status. Everything \<open>run\<close> calls that is
  in the repository is called here as its theory defines it; \<open>outside\<close> collects what is not. A
  deferred call is run on the result of what follows it, on every path. The interleaving of
  \<open>RunAll\<close>'s goroutines is a schedule of \<open>Lifecycle_Exec\<close>; as long as \<open>RunAll\<close> has not returned
  under it, \<open>run\<close> has no result. The goroutine that may exit the process at the second signal is
  only started here; \<open>Lifetime\<close> interleaves it with the rest.
\<close>

section \<open>What the process is given\<close>

record ('s, 'c, 'h, 'tp, 'mp, 'prop) outside =
  print_tab :: print_table
  prefix_error :: "string \<Rightarrow> go_error"
  read_environment :: "config validator"
  tag_rules :: "config \<Rightarrow> go_error option"
  log_presets :: "'s zap_presets"
  build_logger :: "'s zap_config \<Rightarrow> go_error + logger"
  logger_core :: "logger \<Rightarrow> 'c"
  slog_handler_for :: "'c \<Rightarrow> 'h"
  digest :: "bytes \<Rightarrow> bytes"
  file_server :: "walk_entry list \<Rightarrow> handler"
  embedded_tree :: "go_error + walk_entry list"
  otel_handler :: "('tp, 'mp, 'prop) otel"
  noop_providers :: "('tp, 'mp, 'prop) providers"
  redirect_handler :: "string \<Rightarrow> foreign_handler"
  profiling :: pprof_handlers
  go_toolchain :: string

text \<open>The variables the linker overrides.\<close>

definition default_build :: build_info where
  "default_build = \<lparr>build_version = ''dev'', build_commit = ''unknown'', build_date = ''unknown''\<rparr>"

definition telemetry_shutdown_timeout :: go_duration where
  "telemetry_shutdown_timeout = 5 * second"

text \<open>
  The process as \<open>run\<close> changes it: its log, the slog default, the otel package's error handler,
  whether the second-signal goroutine runs, the servers as \<open>RunAll\<close> left them, and the clean-up
  calls made, in order, a pipeline's with the time it was allowed.
\<close>

datatype cleanup = Logger_synced | Pipeline_shut_down string go_duration

record 'h service =
  svc_io :: exchange
  svc_slog :: "'h option"
  svc_sdk_errors :: "error_handler option"
  svc_forcing :: bool
  svc_served :: "process option"
  svc_cleaned :: "cleanup list"

definition service_start :: "'h service" where
  "service_start = \<lparr>svc_io = new_exchange, svc_slog = None, svc_sdk_errors = None, svc_forcing = False,
     svc_served = None, svc_cleaned = []\<rparr>"

type_synonym 'h run_result = "(go_error option \<times> 'h service) option"

section \<open>Deferred calls\<close>

definition deferring :: "('h service \<Rightarrow> 'h service) \<Rightarrow> 'h run_result \<Rightarrow> 'h run_result" where
  "deferring clean res = map_option (\<lambda>(err, s). (err, clean s)) res"

text \<open>\<open>defer logger.Sync()\<close>: its error is dropped.\<close>

definition sync_logger :: "'h service \<Rightarrow> 'h service" where
  "sync_logger s = s\<lparr>svc_cleaned := svc_cleaned s @ [Logger_synced]\<rparr>"

text \<open>\<open>shutDown\<close>: \<open>stop\<close> is called under a deadline of its own, whatever became of the caller's context.\<close>

definition shut_down_pipeline ::
    "logger \<Rightarrow> string \<Rightarrow> (go_duration \<Rightarrow> go_error option) \<Rightarrow> 'h service \<Rightarrow> 'h service" where
  "shut_down_pipeline lg what stop s =
     (let s = s\<lparr>svc_cleaned := svc_cleaned s @ [Pipeline_shut_down what telemetry_shutdown_timeout]\<rparr> in
      case stop telemetry_shutdown_timeout of
        None \<Rightarrow> s
      | Some err \<Rightarrow>
          s\<lparr>svc_io := log_to lg ErrorLevel ''shutting down telemetry''
              [(''pipeline'', FString what), (''error'', FError err)] (svc_io s)\<rparr>)"

section \<open>run\<close>

text \<open>\<open>RunAll\<close> under a schedule: nothing before it has returned.\<close>

definition run_all_under ::
    "action list \<Rightarrow> int \<Rightarrow> lifecycle_config \<Rightarrow> readiness \<Rightarrow> logger \<Rightarrow> server list \<Rightarrow>
     (go_error option \<times> process) option" where
  "run_all_under schedule t cfg rd lg servers =
     (case acts cfg lg schedule (process_start rd t servers) of
        None \<Rightarrow> None
      | Some p \<Rightarrow> (case main p of Run_all_returned r \<Rightarrow> Some (r, p) | _ \<Rightarrow> None))"

definition instrumentation_of ::
    "('res, 'exp, 'tp, 'prop, 'reg, 'mexp, 'mp, 'meter, 'instr) sdk \<Rightarrow> ('tp, 'prop) tracing \<Rightarrow> ('mp, 'reg) metrics \<Rightarrow>
     ('tp, 'mp, 'prop) telemetry" where
  "instrumentation_of k tracing metrics =
     \<lparr>tracer_provider = Some (tracing_tracer_provider k tracing),
      meter_provider = Some (metrics_meter_provider k metrics),
      propagator = Some (tracing_text_propagator k tracing)\<rparr>"

definition service_servers ::
    "('s, 'c, 'h, 'tp, 'mp, 'prop) outside \<Rightarrow> logger \<Rightarrow> config \<Rightarrow> trusted_proxies \<Rightarrow> readiness \<Rightarrow> handler \<Rightarrow>
     ('tp, 'mp, 'prop) telemetry \<Rightarrow> process_info \<Rightarrow> handler \<Rightarrow> server list" where
  "service_servers o' lg cfg proxies rd ui tel info metrics =
     [new_server (cfg_server cfg) lg
        (new_mux (otel_handler o') (noop_providers o') (redirect_handler o') (cfg_server cfg) proxies rd lg tel ui),
      new_server (cfg_admin cfg) lg
        (new_admin_mux (redirect_handler o') (profiling o') (go_toolchain o') (cfg_admin cfg) lg rd info metrics)]"

text \<open>
  The body of \<open>run\<close>, cut where a deferred call is registered: with metrics, with traces, with a
  logger.
\<close>

definition run_serving ::
    "('s, 'c, 'h, 'tp, 'mp, 'prop) outside \<Rightarrow>
     ('res, 'exp, 'tp, 'prop, 'reg, 'mexp, 'mp, 'meter, 'instr) sdk \<Rightarrow> action list \<Rightarrow> int \<Rightarrow> process_info \<Rightarrow>
     config \<Rightarrow> logger \<Rightarrow> handler \<Rightarrow> trusted_proxies \<Rightarrow> ('tp, 'prop) tracing \<Rightarrow> ('mp, 'reg) metrics \<Rightarrow>
     'h service \<Rightarrow> 'h run_result" where
  "run_serving o' k schedule t info cfg lg ui proxies tracing metrics s =
     (case record_build_info k (go_toolchain o') (process_build info) metrics of
        Some err \<Rightarrow> Some (Some (ErrWrap ''recording build information'' err), s)
      | None \<Rightarrow>
          (case run_all_under schedule t (cfg_lifecycle cfg) new_readiness lg
               (service_servers o' lg cfg proxies new_readiness ui (instrumentation_of k tracing metrics) info
                  (metrics_http_handler k metrics)) of
             None \<Rightarrow> None
           | Some (err, p) \<Rightarrow>
               Some (map_option (ErrWrap ''running server'') err,
                 s\<lparr>svc_served := Some p,
                   svc_io := (svc_io s)\<lparr>log := log (svc_io s) @ map snd (proc_log p)\<rparr>\<rparr>)))"

definition run_traced ::
    "('s, 'c, 'h, 'tp, 'mp, 'prop) outside \<Rightarrow>
     ('res, 'exp, 'tp, 'prop, 'reg, 'mexp, 'mp, 'meter, 'instr) sdk \<Rightarrow> action list \<Rightarrow> int \<Rightarrow> process_info \<Rightarrow>
     config \<Rightarrow> logger \<Rightarrow> handler \<Rightarrow> trusted_proxies \<Rightarrow> ('tp, 'prop) tracing \<Rightarrow> 'h service \<Rightarrow> 'h run_result" where
  "run_traced o' k schedule t info cfg lg ui proxies tracing s =
     (case setup_metrics k (cfg_telemetry cfg) lg (svc_io s) of
        (Inl err, io) \<Rightarrow> Some (Some (ErrWrap ''initialising metrics'' err), s\<lparr>svc_io := io\<rparr>)
      | (Inr metrics, io) \<Rightarrow>
          deferring (shut_down_pipeline lg ''metrics'' (metrics_shutdown k metrics))
            (run_serving o' k schedule t info cfg lg ui proxies tracing metrics (s\<lparr>svc_io := io\<rparr>)))"

definition run_logged ::
    "('s, 'c, 'h, 'tp, 'mp, 'prop) outside \<Rightarrow>
     ('res, 'exp, 'tp, 'prop, 'reg, 'mexp, 'mp, 'meter, 'instr) sdk \<Rightarrow> action list \<Rightarrow> int \<Rightarrow> process_info \<Rightarrow>
     config \<Rightarrow> logger \<Rightarrow> 'h service \<Rightarrow> 'h run_result" where
  "run_logged o' k schedule t info cfg lg s =
     (let s = s\<lparr>svc_slog := install_slog_default (logger_core o') (slog_handler_for o') lg (svc_slog s)\<rparr>;
          s = s\<lparr>svc_io := build_log (go_toolchain o') (process_build info) lg (svc_io s)\<rparr>;
          s = s\<lparr>svc_io := log_effective lg cfg (svc_io s)\<rparr>;
          s = s\<lparr>svc_forcing := True\<rparr>
      in case web_handler (digest o') (file_server o') (embedded_tree o') of
           Inl err \<Rightarrow> Some (Some (ErrWrap ''preparing frontend handler'' err), s)
         | Inr ui \<Rightarrow>
             (case new_trusted_proxies (cfg_proxy cfg) of
                Inl err \<Rightarrow>
                  Some (Some (ErrWrap ''configuring trusted proxies''
                    (proxy_error_value (print_tab o') (prefix_error o') err)), s)
              | Inr proxies \<Rightarrow>
                  (case setup_tracing k (cfg_telemetry cfg) lg (svc_sdk_errors s) (svc_io s) of
                     (Inl err, installed, io) \<Rightarrow>
                       Some (Some (ErrWrap ''initialising tracing'' err), s\<lparr>svc_sdk_errors := installed, svc_io := io\<rparr>)
                   | (Inr tracing, installed, io) \<Rightarrow>
                       deferring (shut_down_pipeline lg ''traces'' (tracing_shutdown k tracing))
                         (run_traced o' k schedule t info cfg lg ui proxies tracing
                            (s\<lparr>svc_sdk_errors := installed, svc_io := io\<rparr>)))))"

definition load_config :: "('s, 'c, 'h, 'tp, 'mp, 'prop) outside \<Rightarrow> string \<Rightarrow> go_error option \<times> config" where
  "load_config o' version = load (print_tab o') (prefix_error o') (read_environment o') (tag_rules o') version"

definition run ::
    "('s, 'c, 'h, 'tp, 'mp, 'prop) outside \<Rightarrow>
     ('res, 'exp, 'tp, 'prop, 'reg, 'mexp, 'mp, 'meter, 'instr) sdk \<Rightarrow> action list \<Rightarrow> int \<Rightarrow> build_info \<Rightarrow> int \<Rightarrow>
     'h service \<Rightarrow> 'h run_result" where
  "run o' k schedule t build started s =
     (case load_config o' (build_version build) of
        (Some err, _) \<Rightarrow> Some (Some err, s)
      | (None, cfg) \<Rightarrow>
          (case new_logger_from_config (print_tab o') (log_presets o') (build_logger o') (cfg_log cfg) of
             Inl err \<Rightarrow> Some (Some (ErrWrap ''initialising logger'' err), s)
           | Inr lg \<Rightarrow>
               deferring sync_logger
                 (run_logged o' k schedule t \<lparr>process_build = build, process_started = started\<rparr> cfg lg s)))"

section \<open>start\<close>

text \<open>The exit status, what is written to standard error, and the process at its end.\<close>

definition start ::
    "('s, 'c, 'h, 'tp, 'mp, 'prop) outside \<Rightarrow>
     ('res, 'exp, 'tp, 'prop, 'reg, 'mexp, 'mp, 'meter, 'instr) sdk \<Rightarrow> action list \<Rightarrow> int \<Rightarrow> build_info \<Rightarrow> int \<Rightarrow>
     (int \<times> string \<times> 'h service) option" where
  "start o' k schedule t build started =
     (case run o' k schedule t build started service_start of
        None \<Rightarrow> None
      | Some (Some err, s) \<Rightarrow> Some (1, ''service: '' @ error_text err @ [char_of (10 :: nat)], s)
      | Some (None, s) \<Rightarrow> Some (0, [], s))"

section \<open>Clean-up\<close>

text \<open>
  What each stage leaves to be undone, by the message its failure carries; a run that reached the
  servers has everything to undo, in the reverse of the order it was set up.
\<close>

definition failed_in :: "string set \<Rightarrow> go_error option \<Rightarrow> bool" where
  "failed_in stages err = (case err of Some (ErrWrap p _) \<Rightarrow> p \<in> stages | _ \<Rightarrow> False)"

definition cleanup_due :: "go_error option \<Rightarrow> cleanup list" where
  "cleanup_due err =
     (if failed_in {''loading configuration'', ''initialising logger''} err then []
      else if failed_in {''preparing frontend handler'', ''configuring trusted proxies'', ''initialising tracing''} err
      then [Logger_synced]
      else if failed_in {''initialising metrics''} err then [Pipeline_shut_down ''traces'' telemetry_shutdown_timeout, Logger_synced]
      else [Pipeline_shut_down ''metrics'' telemetry_shutdown_timeout, Pipeline_shut_down ''traces'' telemetry_shutdown_timeout, Logger_synced])"

lemma failed_in_iff: "failed_in A r \<longleftrightarrow> (\<exists>p e. r = Some (ErrWrap p e) \<and> p \<in> A)"
  by (auto simp: failed_in_def split: option.splits go_error.splits)

lemma failed_in_simps [simp]:
  "\<not> failed_in A None"
  "failed_in A (Some (ErrWrap p e)) \<longleftrightarrow> p \<in> A"
  by (simp_all add: failed_in_def)

lemma failed_in_mono: "failed_in A r \<Longrightarrow> A \<subseteq> B \<Longrightarrow> failed_in B r"
  by (auto simp: failed_in_iff)

lemma failed_in_disjoint: "failed_in A r \<Longrightarrow> B \<inter> A = {} \<Longrightarrow> \<not> failed_in B r"
  by (auto simp: failed_in_iff)

lemma cleanup_due_simps [simp]:
  "cleanup_due None = [Pipeline_shut_down ''metrics'' telemetry_shutdown_timeout, Pipeline_shut_down ''traces'' telemetry_shutdown_timeout, Logger_synced]"
  "cleanup_due (Some (ErrWrap ''running server'' e)) =
     [Pipeline_shut_down ''metrics'' telemetry_shutdown_timeout, Pipeline_shut_down ''traces'' telemetry_shutdown_timeout, Logger_synced]"
  "cleanup_due (Some (ErrWrap ''recording build information'' e)) =
     [Pipeline_shut_down ''metrics'' telemetry_shutdown_timeout, Pipeline_shut_down ''traces'' telemetry_shutdown_timeout, Logger_synced]"
  "cleanup_due (Some (ErrWrap ''initialising metrics'' e)) = [Pipeline_shut_down ''traces'' telemetry_shutdown_timeout, Logger_synced]"
  "cleanup_due (Some (ErrWrap ''initialising tracing'' e)) = [Logger_synced]"
  "cleanup_due (Some (ErrWrap ''preparing frontend handler'' e)) = [Logger_synced]"
  "cleanup_due (Some (ErrWrap ''initialising logger'' e)) = []"
  "cleanup_due (Some (ErrWrap ''loading configuration'' e)) = []"
  by (simp_all add: cleanup_due_def)

lemma shut_down_pipeline_simps [simp]:
  "svc_cleaned (shut_down_pipeline lg what r s) = svc_cleaned s @ [Pipeline_shut_down what telemetry_shutdown_timeout]"
  "svc_served (shut_down_pipeline lg what r s) = svc_served s"
  "svc_slog (shut_down_pipeline lg what r s) = svc_slog s"
  "svc_forcing (shut_down_pipeline lg what r s) = svc_forcing s"
  by (simp_all add: shut_down_pipeline_def Let_def split: option.splits)

lemma sync_logger_simps [simp]:
  "svc_cleaned (sync_logger s) = svc_cleaned s @ [Logger_synced]"
  "svc_served (sync_logger s) = svc_served s"
  "svc_slog (sync_logger s) = svc_slog s"
  "svc_forcing (sync_logger s) = svc_forcing s"
  by (simp_all add: sync_logger_def)

lemma deferring_Some: "deferring c res = Some (r, s') \<longleftrightarrow> (\<exists>s. res = Some (r, s) \<and> s' = c s)"
  by (auto simp: deferring_def)

lemma load_error:
  assumes "load_config o' v = (Some err, c)"
  shows "\<exists>e. err = ErrWrap ''loading configuration'' e"
  using assms unfolding load_config_def load_decodes by (auto split: prod.splits option.splits)

text \<open>A loaded proxy list has been parsed once already.\<close>

lemma loaded_proxies:
  assumes "load_config o' v = (None, cfg)"
  shows "\<exists>proxies. new_trusted_proxies (cfg_proxy cfg) = Inr proxies"
proof -
  have "failures (print_tab o') (prefix_error o') cfg = []"
    using assms load_checked unfolding load_config_def by blast
  then have "proxy_config_validate (cfg_proxy cfg) = None"
    by (simp add: failures_def labelled_def split: option.splits)
  then show ?thesis by (simp add: proxy_config_validate_def split: sum.splits)
qed

lemma run_serving_result:
  assumes "run_serving o' k schedule t info cfg lg ui proxies tracing metrics s = Some (r, s')"
  shows "svc_cleaned s' = svc_cleaned s \<and> svc_forcing s' = svc_forcing s \<and> svc_slog s' = svc_slog s \<and>
    (r = None \<or> failed_in {''recording build information'', ''running server''} r) \<and>
    (r = None \<longrightarrow> (\<exists>p servers. svc_served s' = Some p \<and> length servers = 2 \<and>
       runs (cfg_lifecycle cfg) lg (process_start new_readiness t servers) p \<and>
       main p = Run_all_returned None))"
  using assms
  by (auto simp: run_serving_def run_all_under_def failed_in_def service_servers_def dest!: acts_sound
      split: option.splits run_all.splits
      intro!: exI [of _ "service_servers o' lg cfg proxies new_readiness ui (instrumentation_of k tracing metrics) info
        (metrics_http_handler k metrics)"])

text \<open>A run with a logger: what is left to undo, and what a clean return shows.\<close>

definition ran_clean :: "config \<Rightarrow> logger \<Rightarrow> int \<Rightarrow> 'h service \<Rightarrow> bool" where
  "ran_clean cfg lg t s \<longleftrightarrow>
     (\<exists>p servers. svc_served s = Some p \<and> length servers = 2 \<and>
        runs (cfg_lifecycle cfg) lg (process_start new_readiness t servers) p \<and> main p = Run_all_returned None)"

lemma ran_clean_simps [simp]:
  "ran_clean cfg lg t (shut_down_pipeline lg' what r s) = ran_clean cfg lg t s"
  "ran_clean cfg lg t (sync_logger s) = ran_clean cfg lg t s"
  by (simp_all add: ran_clean_def)

text \<open>What a run from some point on leaves: the calls deferred so far are still to come.\<close>

definition leaves :: "string set \<Rightarrow> cleanup list \<Rightarrow> config \<Rightarrow> logger \<Rightarrow> int \<Rightarrow> 'h service \<Rightarrow> go_error option \<Rightarrow> 'h service \<Rightarrow> bool"
where
  "leaves stages pending cfg lg t s r s' \<longleftrightarrow>
     svc_cleaned s' @ pending = svc_cleaned s @ cleanup_due r \<and>
     svc_forcing s' = svc_forcing s \<and> svc_slog s' = svc_slog s \<and>
     (case r of None \<Rightarrow> ran_clean cfg lg t s' | Some _ \<Rightarrow> failed_in stages r)"

lemma leaves_mono: "leaves A pending cfg lg t s r s' \<Longrightarrow> A \<subseteq> B \<Longrightarrow> leaves B pending cfg lg t s r s'"
  by (auto simp: leaves_def intro: failed_in_mono split: option.splits)

lemma leaves_shut_down:
  "leaves A (Pipeline_shut_down what telemetry_shutdown_timeout # pending) cfg lg t s r s' \<Longrightarrow>
   leaves A pending cfg lg t s r (shut_down_pipeline lg' what stopped s')"
  by (auto simp: leaves_def split: option.splits)

lemma leaves_io [simp]:
  "leaves A pending cfg lg t (s\<lparr>svc_io := io\<rparr>) = leaves A pending cfg lg t s"
  "leaves A pending cfg lg t (s\<lparr>svc_sdk_errors := installed\<rparr>) = leaves A pending cfg lg t s"
  by (auto simp: leaves_def fun_eq_iff)

lemma leaves_start:
  "\<lbrakk>svc_cleaned s = svc_cleaned u; svc_forcing s = svc_forcing u; svc_slog s = svc_slog u\<rbrakk> \<Longrightarrow>
   leaves A pending cfg lg t s r s' = leaves A pending cfg lg t u r s'"
  by (simp add: leaves_def)

lemma leaves_failed:
  "\<lbrakk>p \<in> A; cleanup_due (Some (ErrWrap p e)) = pending; svc_cleaned s' = svc_cleaned s;
    svc_forcing s' = svc_forcing s; svc_slog s' = svc_slog s\<rbrakk> \<Longrightarrow>
   leaves A pending cfg lg t s (Some (ErrWrap p e)) s'"
  by (simp add: leaves_def)

lemma run_serving_leaves:
  assumes "run_serving o' k schedule t info cfg lg ui proxies tracing metrics s = Some (r, s')"
  shows "leaves {''recording build information'', ''running server''}
    [Pipeline_shut_down ''metrics'' telemetry_shutdown_timeout, Pipeline_shut_down ''traces'' telemetry_shutdown_timeout, Logger_synced] cfg lg t s r s'"
  using run_serving_result [OF assms] by (cases r) (auto simp: leaves_def ran_clean_def failed_in_iff)

lemma run_traced_leaves:
  assumes "run_traced o' k schedule t info cfg lg ui proxies tracing s = Some (r, s')"
  shows "leaves {''initialising metrics'', ''recording build information'', ''running server''}
    [Pipeline_shut_down ''traces'' telemetry_shutdown_timeout, Logger_synced] cfg lg t s r s'"
proof -
  obtain res io where metrics: "setup_metrics k (cfg_telemetry cfg) lg (svc_io s) = (res, io)" by fastforce
  show ?thesis
  proof (cases res)
    case (Inl err)
    then have "r = Some (ErrWrap ''initialising metrics'' err)" "s' = s\<lparr>svc_io := io\<rparr>"
      using assms metrics by (simp_all add: run_traced_def)
    then show ?thesis by (simp add: leaves_failed)
  next
    case (Inr metrics)
    then obtain s1 where
      s1: "run_serving o' k schedule t info cfg lg ui proxies tracing metrics (s\<lparr>svc_io := io\<rparr>) = Some (r, s1)"
      "s' = shut_down_pipeline lg ''metrics'' (metrics_shutdown k metrics) s1"
      using assms metrics by (auto simp: run_traced_def deferring_Some)
    show ?thesis
      unfolding s1(2)
      by (rule leaves_mono, rule leaves_shut_down, rule run_serving_leaves [OF s1(1), unfolded leaves_io]) auto
  qed
qed

lemma run_logged_leaves:
  assumes "run_logged o' k schedule t info cfg lg s = Some (r, s')"
    and "new_trusted_proxies (cfg_proxy cfg) = Inr proxies"
  shows "leaves {''preparing frontend handler'', ''initialising tracing'', ''initialising metrics'',
      ''recording build information'', ''running server''} [Logger_synced] cfg lg t
    (s\<lparr>svc_slog := Some (new_slog_handler (logger_core o') (slog_handler_for o') lg), svc_forcing := True\<rparr>) r s'"
proof -
  let ?s = "s\<lparr>svc_slog := Some (new_slog_handler (logger_core o') (slog_handler_for o') lg), svc_forcing := True\<rparr>"
  let ?io = "log_effective lg cfg (build_log (go_toolchain o') (process_build info) lg (svc_io s))"
  define s1 where "s1 = s\<lparr>svc_slog := Some (new_slog_handler (logger_core o') (slog_handler_for o') lg),
    svc_io := ?io, svc_forcing := True\<rparr>"
  have s1: "svc_cleaned s1 = svc_cleaned ?s" "svc_forcing s1 = svc_forcing ?s" "svc_slog s1 = svc_slog ?s"
    "svc_io s1 = ?io"
    by (simp_all add: s1_def)
  obtain res installed io where
    traced: "setup_tracing k (cfg_telemetry cfg) lg (svc_sdk_errors s) ?io = (res, installed, io)"
    by (metis prod_cases3)
  have run: "run_logged o' k schedule t info cfg lg s =
      (case web_handler (digest o') (file_server o') (embedded_tree o') of
         Inl err \<Rightarrow> Some (Some (ErrWrap ''preparing frontend handler'' err), s1)
       | Inr ui \<Rightarrow>
           (case res of
              Inl err \<Rightarrow>
                Some (Some (ErrWrap ''initialising tracing'' err), s1\<lparr>svc_sdk_errors := installed, svc_io := io\<rparr>)
            | Inr tracing \<Rightarrow>
                deferring (shut_down_pipeline lg ''traces'' (tracing_shutdown k tracing))
                  (run_traced o' k schedule t info cfg lg ui proxies tracing
                     (s1\<lparr>svc_sdk_errors := installed, svc_io := io\<rparr>))))"
    by (cases "web_handler (digest o') (file_server o') (embedded_tree o')")
      (simp_all add: run_logged_def Let_def s1_def install_slog_default_def assms(2) traced split: sum.split)
  show ?thesis
  proof (cases "web_handler (digest o') (file_server o') (embedded_tree o')")
    case (Inl err)
    then have "r = Some (ErrWrap ''preparing frontend handler'' err)" "s' = s1" using assms(1) run by simp_all
    then show ?thesis by (simp only:) (rule leaves_failed; simp add: s1)
  next
    case ui: (Inr ui)
    show ?thesis
    proof (cases res)
      case (Inl err)
      then have "r = Some (ErrWrap ''initialising tracing'' err)" "s' = s1\<lparr>svc_sdk_errors := installed, svc_io := io\<rparr>"
        using assms(1) run ui by simp_all
      then show ?thesis by (simp only:) (rule leaves_failed; simp add: s1)
    next
      case (Inr tracing)
      then obtain s2 where
        s2: "run_traced o' k schedule t info cfg lg ui proxies tracing
          (s1\<lparr>svc_sdk_errors := installed, svc_io := io\<rparr>) = Some (r, s2)"
        "s' = shut_down_pipeline lg ''traces'' (tracing_shutdown k tracing) s2"
        using assms(1) run ui by (auto simp: deferring_Some)
      show ?thesis
        unfolding s2(2) leaves_start [OF s1(1-3), symmetric]
        by (rule leaves_mono, rule leaves_shut_down, rule run_traced_leaves [OF s2(1), unfolded leaves_io]) auto
    qed
  qed
qed

lemma run_result:
  assumes "run o' k schedule t build started s = Some (r, s')"
  shows "svc_cleaned s' = svc_cleaned s @ cleanup_due r \<and>
    \<not> failed_in {''configuring trusted proxies''} r \<and>
    (case r of
       Some _ \<Rightarrow> True
     | None \<Rightarrow> svc_forcing s' \<and>
         (\<exists>cfg lg. load_config o' (build_version build) = (None, cfg) \<and> ran_clean cfg lg t s'))"
proof (cases "load_config o' (build_version build)")
  case (Pair loaded cfg)
  show ?thesis
  proof (cases loaded)
    case (Some err)
    then have "load_config o' (build_version build) = (Some err, cfg)" using Pair by simp
    with load_error obtain e where "err = ErrWrap ''loading configuration'' e" by blast
    moreover have "r = Some err" "s' = s" using assms Pair Some by (simp_all add: run_def)
    ultimately show ?thesis by simp
  next
    case None
    show ?thesis
    proof (cases "new_logger_from_config (print_tab o') (log_presets o') (build_logger o') (cfg_log cfg)")
      case (Inl err)
      then have "r = Some (ErrWrap ''initialising logger'' err)" "s' = s"
        using assms Pair None by (simp_all add: run_def)
      then show ?thesis by simp
    next
      case (Inr lg)
      obtain proxies where proxies: "new_trusted_proxies (cfg_proxy cfg) = Inr proxies"
        using loaded_proxies Pair None by blast
      obtain s1 where s1: "s' = sync_logger s1"
        "run_logged o' k schedule t \<lparr>process_build = build, process_started = started\<rparr> cfg lg s = Some (r, s1)"
        using assms Pair None Inr by (auto simp: run_def deferring_Some)
      note left = run_logged_leaves [OF s1(2) proxies]
      then have "svc_cleaned s' = svc_cleaned s @ cleanup_due r" using s1(1) by (simp add: leaves_def)
      moreover have "\<not> failed_in {''configuring trusted proxies''} r"
      proof (cases r)
        case (Some e)
        then show ?thesis
          using left unfolding leaves_def by (elim conjE, intro failed_in_disjoint) (simp, simp)
      qed simp
      moreover have "case r of Some _ \<Rightarrow> True | None \<Rightarrow> svc_forcing s' \<and> ran_clean cfg lg t s'"
        using left s1(1) by (cases r) (simp_all add: leaves_def)
      ultimately show ?thesis using Pair None by (cases r) auto
    qed
  qed
qed


text \<open>C2: The process exits with status 0 only after a complete graceful shutdown: a configuration was
  loaded, both listeners were served, the caller cancelled, readiness failed for the configured
  pre-drain delay, both servers stopped with no request in flight and no error, and metrics, traces
  and the logger were flushed in that order. Nothing is written to standard error then.\<close>

theorem exit_zero_means_drained:
  assumes "start o' k schedule t build started = Some (0, out, s')"
  shows "out = [] \<and> svc_forcing s' \<and>
    svc_cleaned s' = [Pipeline_shut_down ''metrics'' telemetry_shutdown_timeout, Pipeline_shut_down ''traces'' telemetry_shutdown_timeout, Logger_synced] \<and>
    (\<exists>cfg lg p. load_config o' (build_version build) = (None, cfg) \<and> svc_served s' = Some p \<and>
       length (listeners p) = 2 \<and> caller_done p \<and> draining (ready p) \<and>
       list_all (\<lambda>l. phase l = Exited None \<and> active l = 0) (listeners p) \<and>
       list_ex (\<lambda>(t0, e). e = holding_entry lg (cfg_lifecycle cfg) \<and>
         t0 + sint (pre_drain_delay (cfg_lifecycle cfg)) \<le> now p) (proc_log p))"
proof -
  have ran: "run o' k schedule t build started service_start = Some (None, s')" and out: "out = []"
    using assms by (auto simp: start_def split: option.splits prod.splits)
  from run_result [OF ran] obtain cfg lg where
    cfg: "load_config o' (build_version build) = (None, cfg)" "ran_clean cfg lg t s'"
    and finished: "svc_forcing s'" "svc_cleaned s' = cleanup_due None"
    by (auto simp: service_start_def)
  from cfg(2) obtain p servers where p: "svc_served s' = Some p" "length servers = 2"
    "runs (cfg_lifecycle cfg) lg (process_start new_readiness t servers) p" "main p = Run_all_returned None"
    by (auto simp: ran_clean_def)
  have "servers \<noteq> []" using p(2) by auto
  from nil_return_drained [OF p(3,4) this]
  have drained: "caller_done p" "draining (ready p)"
    "list_all (\<lambda>l. phase l = Exited None \<and> active l = 0) (listeners p)"
    "list_ex (\<lambda>(t0, e). e = holding_entry lg (cfg_lifecycle cfg) \<and>
       t0 + sint (pre_drain_delay (cfg_lifecycle cfg)) \<le> now p) (proc_log p)" by auto
  have "length (listeners p) = 2"
    using runs_listeners [OF p(3)] p(2) by (simp add: process_start_def)
  then show ?thesis
    using cfg(1) p(1) drained finished out
    by (simp add: cleanup_due_def failed_in_def) blast
qed

section \<open>A run from start to exit\<close>

text \<open>A configuration with a short hold, an SDK and an operating system where everything succeeds.\<close>

definition quick_config :: config where
  "quick_config = default_config\<lparr>cfg_lifecycle := held_config\<rparr>"

definition quiet_reply :: foreign_handler where
  "quiet_reply r = HDone"

definition easy_outside :: "(nat, unit, unit, unit, unit, unit) outside" where
  "easy_outside =
     \<lparr>print_tab = (\<lambda>_. False), prefix_error = ErrText, read_environment = (\<lambda>_. (None, quick_config)),
      tag_rules = (\<lambda>_. None), log_presets = sample_presets, build_logger = (\<lambda>_. Inr []),
      logger_core = (\<lambda>_. ()), slog_handler_for = (\<lambda>_. ()), digest = zero_digest,
      file_server = (\<lambda>_ r w x. (Returned, r, x)), embedded_tree = Inr sample_tree,
      otel_handler = fixed_span_otel,
      noop_providers = \<lparr>used_tracer = (), used_meter = (), used_propagator = ()\<rparr>,
      redirect_handler = (\<lambda>_. quiet_reply),
      profiling = \<lparr>pprof_index = quiet_reply, pprof_cmdline = quiet_reply, pprof_profile = quiet_reply,
        pprof_symbol = quiet_reply, pprof_trace = quiet_reply\<rparr>,
      go_toolchain = ''go1.26''\<rparr>"

definition easy_sdk :: "(unit, unit, unit, unit, unit, unit, unit, unit, unit) sdk" where
  "easy_sdk =
     \<lparr>merge_resource = (\<lambda>_. Inr ()), new_exporter = (\<lambda>_. Inr ()), new_tracer_provider = (\<lambda>_ _. ()),
      noop_tracer_provider = (), shutdown_tracer_provider = (\<lambda>_ _. None), context_propagator = (),
      empty_propagator = (), new_registry = (), new_metrics_exporter = (\<lambda>_. Inr ()),
      new_meter_provider = (\<lambda>_ _. ()), noop_meter_provider = (), shutdown_meter_provider = (\<lambda>_ _. None),
      start_runtime_metrics = (\<lambda>_. None), meter_scope = (\<lambda>_ _. ()), observable_gauge = (\<lambda>_ _ _. Inr ()),
      register_callback = (\<lambda>_ _ _ _. None), metrics_handler = (\<lambda>_ r w x. (Returned, r, x))\<rparr>"

lemma two_servers_drain:
  "map_option main (acts held_config lg (drain_schedule @ finish_schedule) (process_start rd t [a, b])) =
     Some (Run_all_returned None)"
  by (simp add: schedule_simps)

lemma quick_config_loads: "load_config easy_outside v = (None, quick_config)"
proof -
  have "failures tab prefix_err quick_config = failures tab prefix_err default_config" for tab prefix_err
    by (simp add: failures_def quick_config_def)
  then have "failures (\<lambda>_. False) ErrText quick_config = []" by (simp only: default_config_accepted)
  moreover have "load_config easy_outside v =
      (case decode_struct (config_decoder (\<lambda>_. False) ErrText (\<lambda>_. (None, quick_config)) (\<lambda>_. None))
          (default_config\<lparr>cfg_telemetry := (cfg_telemetry default_config)\<lparr>service_version := v\<rparr>\<rparr>) of
         (Some err, _) \<Rightarrow> (Some (ErrWrap ''loading configuration'' err), zero_config)
       | (None, c) \<Rightarrow> (None, c))" (is "_ = (case ?d of (Some err, _) \<Rightarrow> _ err | (None, c) \<Rightarrow> _ c)")
    by (simp add: load_config_def load_decodes easy_outside_def)
  moreover have "case ?d of
      (None, c) \<Rightarrow> c = quick_config \<and> failures (\<lambda>_. False) ErrText quick_config = []
    | (Some err, c) \<Rightarrow> failures (\<lambda>_. False) ErrText quick_config \<noteq> [] \<and> (\<exists>es. err = ErrJoin es) \<and>
        reported err = failures (\<lambda>_. False) ErrText quick_config"
    by (rule decode_config_checks) simp_all
  ultimately show ?thesis by (cases ?d; cases "fst ?d") simp_all
qed

lemma easy_serving:
  "\<exists>s'. run_serving easy_outside easy_sdk (drain_schedule @ finish_schedule) t info quick_config lg ui proxies
     tracing metrics s = Some (None, s')"
proof -
  let ?a = "new_server (cfg_server quick_config) lg (new_mux (otel_handler easy_outside) (noop_providers easy_outside)
      (redirect_handler easy_outside) (cfg_server quick_config) proxies new_readiness lg
      (instrumentation_of easy_sdk tracing metrics) ui)"
  let ?b = "new_server (cfg_admin quick_config) lg (new_admin_mux (redirect_handler easy_outside) (profiling easy_outside)
      (go_toolchain easy_outside) (cfg_admin quick_config) lg new_readiness info (metrics_http_handler easy_sdk metrics))"
  obtain p where "acts held_config lg (drain_schedule @ finish_schedule) (process_start new_readiness t [?a, ?b]) = Some p"
    "main p = Run_all_returned None"
    using two_servers_drain [of lg new_readiness t ?a ?b] by (auto simp del: acts.simps)
  moreover have "cfg_lifecycle quick_config = held_config" by (simp add: quick_config_def)
  moreover have "record_build_info easy_sdk v b metrics = None" for v b
    by (simp add: record_build_info_def easy_sdk_def)
  ultimately show ?thesis
    by (simp add: run_serving_def run_all_under_def service_servers_def)
qed

lemma easy_stages:
  "new_logger_from_config (print_tab easy_outside) (log_presets easy_outside) (build_logger easy_outside)
     (cfg_log quick_config) = Inr []"
  "\<exists>proxies. new_trusted_proxies (cfg_proxy quick_config) = Inr proxies"
  "\<exists>ui. web_handler (digest easy_outside) (file_server easy_outside) (embedded_tree easy_outside) = Inr ui"
  "\<exists>tracing installed' io'. setup_tracing easy_sdk cfg lg installed io = (Inr tracing, installed', io')"
  "\<exists>metrics io'. setup_metrics easy_sdk cfg lg io = (Inr metrics, io')"
  by (simp_all add: new_logger_from_config_def new_logger_def config_for_def easy_outside_def quick_config_def
      default_config_def default_log_config_def format_json_def format_console_def new_trusted_proxies_def
      default_proxy_config_def web_handler_def etags_def sample_tree_def setup_tracing_def setup_metrics_def
      new_resource_def easy_sdk_def Let_def)

lemma easy_run:
  "\<exists>s. run easy_outside easy_sdk (drain_schedule @ finish_schedule) 100 default_build 0 s0 = Some (None, s)"
proof -
  obtain proxies ui where stage: "new_trusted_proxies (cfg_proxy quick_config) = Inr proxies"
    "web_handler (digest easy_outside) (file_server easy_outside) (embedded_tree easy_outside) = Inr ui"
    using easy_stages(2,3) by blast
  have traced: "\<exists>s'. run_traced easy_outside easy_sdk (drain_schedule @ finish_schedule) 100 info quick_config lg ui
      proxies tracing s = Some (None, s')" for info lg tracing s
  proof -
    obtain metrics io where metrics: "setup_metrics easy_sdk (cfg_telemetry quick_config) lg (svc_io s) = (Inr metrics, io)"
      using easy_stages(5) by blast
    with easy_serving [of 100 info lg ui proxies tracing metrics "s\<lparr>svc_io := io\<rparr>"] show ?thesis
      by (auto simp: run_traced_def deferring_def)
  qed
  have "\<exists>s'. run_logged easy_outside easy_sdk (drain_schedule @ finish_schedule) 100 info quick_config lg s =
      Some (None, s')" for info lg s
  proof -
    let ?io = "log_effective lg quick_config (build_log (go_toolchain easy_outside) (process_build info) lg (svc_io s))"
    obtain tracing installed io where
      "setup_tracing easy_sdk (cfg_telemetry quick_config) lg (svc_sdk_errors s) ?io = (Inr tracing, installed, io)"
      using easy_stages(4) by blast
    with stage traced show ?thesis by (fastforce simp: run_logged_def Let_def deferring_def)
  qed
  then show ?thesis
    by (fastforce simp: run_def quick_config_loads easy_stages(1) deferring_def)
qed

theorem exit_zero_means_drained_witness:
  "let s' = snd (snd (the (start easy_outside easy_sdk (drain_schedule @ finish_schedule) 100 default_build 0)));
       out = fst (snd (the (start easy_outside easy_sdk (drain_schedule @ finish_schedule) 100 default_build 0)))
   in out = [] \<and> svc_forcing s' \<and>
    svc_cleaned s' = [Pipeline_shut_down ''metrics'' telemetry_shutdown_timeout, Pipeline_shut_down ''traces'' telemetry_shutdown_timeout, Logger_synced] \<and>
    (\<exists>cfg lg p. load_config easy_outside (build_version default_build) = (None, cfg) \<and> svc_served s' = Some p \<and>
       length (listeners p) = 2 \<and> caller_done p \<and> draining (ready p) \<and>
       list_all (\<lambda>l. phase l = Exited None \<and> active l = 0) (listeners p) \<and>
       list_ex (\<lambda>(t0, e). e = holding_entry lg (cfg_lifecycle cfg) \<and>
         t0 + sint (pre_drain_delay (cfg_lifecycle cfg)) \<le> now p) (proc_log p))"
proof -
  obtain s where "run easy_outside easy_sdk (drain_schedule @ finish_schedule) 100 default_build 0 service_start =
      Some (None, s)" using easy_run by blast
  then have "start easy_outside easy_sdk (drain_schedule @ finish_schedule) 100 default_build 0 = Some (0, [], s)"
    by (simp add: start_def)
  from exit_zero_means_drained [OF this] show ?thesis
    by (simp only: Let_def \<open>start _ _ _ _ _ _ = _\<close> option.sel fst_conv snd_conv)
qed

end
