(* ===== verification/Signals.thy ===== *)
theory Signals
  imports Response_Json
begin

text \<open>
  \<open>internal/signals\<close>: the goroutine that gives up on a graceful shutdown at the second signal, with
  the buffered channel \<open>start\<close> registers for it in \<open>cmd/service\<close>. The runtime's delivery drops a
  signal when the channel is full; a receive with nothing buffered blocks, so that being scheduled
  changes nothing.
\<close>

definition force_exit_code :: int where
  "force_exit_code = 1"

definition signal_buffer :: nat where
  "signal_buffer = 2"

datatype exit_watch = Not_running | Waiting_first | Waiting_second | Exit_called int

record forced =
  buffered :: "string list"
  watch :: exit_watch
  watch_log :: "log_entry list"

definition forced_start :: forced where
  "forced_start = \<lparr>buffered = [], watch = Not_running, watch_log = []\<rparr>"

text \<open>The runtime delivers a signal; the goroutine gets to run to its next receive.\<close>

definition notify :: "string \<Rightarrow> forced \<Rightarrow> forced" where
  "notify s f = (if length (buffered f) < signal_buffer then f\<lparr>buffered := buffered f @ [s]\<rparr> else f)"

definition second_signal_entry :: "logger \<Rightarrow> string \<Rightarrow> log_entry" where
  "second_signal_entry lg s =
     \<lparr>entry_level = WarnLevel, entry_message = ''second signal received, abandoning in-flight requests'',
      entry_fields = lg @ [(''signal'', FString s), (''exit_code'', FInt force_exit_code)]\<rparr>"

definition force_exit_on_second :: "logger \<Rightarrow> forced \<Rightarrow> forced" where
  "force_exit_on_second lg f =
     (case watch f of
        Not_running \<Rightarrow> f\<lparr>watch := Waiting_first\<rparr>
      | Waiting_first \<Rightarrow>
          (case buffered f of
             [] \<Rightarrow> f
           | _ # rest \<Rightarrow> f\<lparr>buffered := rest, watch := Waiting_second\<rparr>)
      | Waiting_second \<Rightarrow>
          (case buffered f of
             [] \<Rightarrow> f
           | s # rest \<Rightarrow>
               f\<lparr>buffered := rest, watch_log := watch_log f @ [second_signal_entry lg s],
                 watch := Exit_called force_exit_code\<rparr>)
      | Exit_called _ \<Rightarrow> f)"

section \<open>Counting\<close>

definition received :: "exit_watch \<Rightarrow> nat" where
  "received w = (case w of Not_running \<Rightarrow> 0 | Waiting_first \<Rightarrow> 0 | Waiting_second \<Rightarrow> 1 | Exit_called _ \<Rightarrow> 2)"

lemma received_simps [simp]:
  "received Not_running = 0" "received Waiting_first = 0" "received Waiting_second = 1"
  "received (Exit_called c) = 2"
  by (simp_all add: received_def)

text \<open>
  The signals the goroutine still needs are at the front of the buffer as soon as they have been
  delivered: two slots are enough however late the goroutine starts, and a signal that is dropped
  was not needed.
\<close>

definition signals_ok :: "logger \<Rightarrow> string list \<Rightarrow> forced \<Rightarrow> bool" where
  "signals_ok lg ds f \<longleftrightarrow>
     (case watch f of
        Exit_called c \<Rightarrow> c = force_exit_code \<and> 2 \<le> length ds \<and> watch_log f = [second_signal_entry lg (ds ! 1)]
      | w \<Rightarrow> watch_log f = [] \<and> received w \<le> length ds \<and>
          take (2 - received w) (buffered f) = take (2 - received w) (drop (received w) ds))"

lemma take_snoc:
  assumes "take k b = take k c"
  shows "take k (b @ [s]) = take k (c @ [s])"
proof -
  have eq: "min (length b) k = min (length c) k" using arg_cong [OF assms, of length] by simp
  show ?thesis
  proof (cases "length b < k")
    case True
    then have "length c = length b" using eq by (simp add: min_def split: if_splits)
    with True assms show ?thesis by simp
  next
    case False
    then have "k \<le> length c" using eq by (simp add: min_def split: if_splits)
    with False assms show ?thesis by simp
  qed
qed

lemma take_full:
  assumes "take k b = take k c" "k \<le> length b"
  shows "take k b = take k (c @ [s])"
proof -
  have "length (take k b) = k" using assms(2) by simp
  then have "length (take k c) = k" unfolding assms(1) .
  then have "k \<le> length c" by simp
  with assms show ?thesis by simp
qed

lemma signals_ok_notify:
  assumes "signals_ok lg ds f"
  shows "signals_ok lg (ds @ [s]) (notify s f)"
proof (cases "\<exists>c. watch f = Exit_called c")
  case True
  with assms show ?thesis by (auto simp: signals_ok_def notify_def nth_append)
next
  case False
  let ?r = "received (watch f)" and ?k = "2 - received (watch f)"
  have ok: "watch_log f = []" "?r \<le> length ds" "take ?k (buffered f) = take ?k (drop ?r ds)"
    using assms False by (cases "watch f"; simp add: signals_ok_def)+
  have "take ?k (buffered (notify s f)) = take ?k (drop ?r (ds @ [s]))"
    using take_snoc [OF ok(3), of s] take_full [OF ok(3), of s] ok(2)
    by (auto simp: notify_def signal_buffer_def)
  moreover have "watch (notify s f) = watch f" "watch_log (notify s f) = watch_log f"
    by (simp_all add: notify_def)
  ultimately show ?thesis using ok False by (cases "watch f") (simp_all add: signals_ok_def)
qed

lemma signals_ok_run: "signals_ok lg ds f \<Longrightarrow> signals_ok lg ds (force_exit_on_second lg f)"
proof (cases "watch f")
  case Waiting_first
  assume "signals_ok lg ds f"
  with Waiting_first show ?thesis
    by (cases ds; cases "buffered f")
      (auto simp: signals_ok_def force_exit_on_second_def numeral_2_eq_2)
next
  case Waiting_second
  assume ok: "signals_ok lg ds f"
  show ?thesis
  proof (cases "buffered f")
    case (Cons s rest)
    then have "take 1 (drop 1 ds) = [s]" using ok Waiting_second by (simp add: signals_ok_def)
    then have "drop 1 ds \<noteq> [] \<and> hd (drop 1 ds) = s" by (cases "drop 1 ds") auto
    then have "2 \<le> length ds" "ds ! 1 = s" by (auto simp: hd_drop_conv_nth)
    with Cons Waiting_second ok show ?thesis by (simp add: signals_ok_def force_exit_on_second_def)
  qed (use ok Waiting_second in \<open>simp add: force_exit_on_second_def\<close>)
qed (simp_all add: signals_ok_def force_exit_on_second_def)

text \<open>How many more times the goroutine has to run once two signals have been delivered.\<close>

definition turns_left :: "exit_watch \<Rightarrow> nat" where
  "turns_left w =
     (case w of Not_running \<Rightarrow> 3 | Waiting_first \<Rightarrow> 2 | Waiting_second \<Rightarrow> 1 | Exit_called _ \<Rightarrow> 0)"

lemma watcher_turn:
  assumes "signals_ok lg ds f" "2 \<le> length ds"
  shows "turns_left (watch (force_exit_on_second lg f)) = turns_left (watch f) - 1"
proof -
  obtain a b rest where ds: "ds = a # b # rest" using assms(2) by (cases ds rule: remdups_adj.cases) auto
  show ?thesis
    using assms(1) unfolding ds
    by (cases "watch f"; cases "buffered f")
      (auto simp: signals_ok_def force_exit_on_second_def turns_left_def numeral_2_eq_2)
qed

lemma no_turns: "turns_left w = 0 \<longleftrightarrow> (\<exists>c. w = Exit_called c)" "turns_left w \<le> 3"
  by (cases w; simp add: turns_left_def)+

end
