(* ===== verification/Lifetime.thy ===== *)
theory Lifetime
  imports Service_Main Signals
begin

text \<open>
  The process of \<open>cmd/service\<close> from the moment its servers run to its exit, with everything that can
  end it: the signals \<open>start\<close> registered for, the context they cancel, the goroutine that watches
  for the second one, \<open>RunAll\<close> and the return of \<open>run\<close>. What happens is a list of happenings, each
  the move of one party; the parties share the process and nothing else. \<open>RunAll\<close>'s part moves as in
  \<open>Lifecycle_Exec\<close>, except that its caller's cancellation is no longer free: it follows a signal.
\<close>

section \<open>What can happen\<close>

record lifetime =
  serving :: process
  watcher :: forced
  signals :: "string list"
  exit_status :: "int option"

definition lifetime_start :: "readiness \<Rightarrow> int \<Rightarrow> server list \<Rightarrow> lifetime" where
  "lifetime_start rd t servers =
     \<lparr>serving = process_start rd t servers, watcher = forced_start, signals = [], exit_status = None\<rparr>"

text \<open>
  A signal goes to both channels registered for it; the context is cancelled once its own channel
  has one. \<open>Run_returns\<close> is \<open>run\<close>'s return after \<open>RunAll\<close>'s, with the status \<open>start\<close> gives it.
\<close>

datatype happening =
    Signalled string
  | Context_cancelled
  | Watcher_runs
  | Serving_moves action
  | Run_returns

definition return_status :: "go_error option \<Rightarrow> int" where
  "return_status err = (case err of Some _ \<Rightarrow> 1 | None \<Rightarrow> 0)"

definition called_exit :: "forced \<Rightarrow> int option" where
  "called_exit f = (case watch f of Exit_called c \<Rightarrow> Some c | _ \<Rightarrow> None)"

fun happen :: "lifecycle_config \<Rightarrow> logger \<Rightarrow> happening \<Rightarrow> lifetime \<Rightarrow> lifetime option" where
  "happen cfg lg (Signalled s) v = Some (v\<lparr>signals := signals v @ [s], watcher := notify s (watcher v)\<rparr>)"
| "happen cfg lg Context_cancelled v =
     guard (signals v \<noteq> []) (v\<lparr>serving := (serving v)\<lparr>caller_done := True\<rparr>\<rparr>)"
| "happen cfg lg Watcher_runs v =
     (let f = force_exit_on_second lg (watcher v) in Some (v\<lparr>watcher := f, exit_status := called_exit f\<rparr>))"
| "happen cfg lg (Serving_moves a) v =
     (if a = Caller_cancels then None
      else map_option (\<lambda>p. v\<lparr>serving := p\<rparr>) (act cfg lg a (serving v)))"
| "happen cfg lg Run_returns v =
     (case main (serving v) of
        Run_all_returned err \<Rightarrow> Some (v\<lparr>exit_status := Some (return_status err)\<rparr>)
      | _ \<Rightarrow> None)"

text \<open>Nothing happens in a process that has exited.\<close>

fun happens :: "lifecycle_config \<Rightarrow> logger \<Rightarrow> happening list \<Rightarrow> lifetime \<Rightarrow> lifetime option" where
  "happens cfg lg [] v = Some v"
| "happens cfg lg (h # hs) v =
     (if exit_status v \<noteq> None then None
      else case happen cfg lg h v of None \<Rightarrow> None | Some u \<Rightarrow> happens cfg lg hs u)"

lemma happens_append:
  "happens cfg lg (hs @ ks) v = (case happens cfg lg hs v of None \<Rightarrow> None | Some u \<Rightarrow> happens cfg lg ks u)"
  by (induction hs arbitrary: v) (auto split: option.splits)

lemma happens_snoc:
  "happens cfg lg (hs @ [h]) v = Some w \<longleftrightarrow>
   (\<exists>u. happens cfg lg hs v = Some u \<and> exit_status u = None \<and> happen cfg lg h u = Some w)"
  by (auto simp: happens_append split: option.splits if_splits)

section \<open>The exit status of start\<close>

lemma start_status:
  "start o' k schedule t build started = Some (c, out, s) \<Longrightarrow>
   \<exists>err. run o' k schedule t build started service_start = Some (err, s) \<and> c = return_status err"
  unfolding start_def return_status_def
  by (cases "run o' k schedule t build started service_start"; cases "fst (the (run o' k schedule t build started service_start))")
    (simp_all add: case_prod_beta prod_eq_iff)

section \<open>The parties in what happens\<close>

text \<open>\<open>RunAll\<close>'s part of a lifetime is a run of it, under the schedule of its moves.\<close>

fun serving_action :: "happening \<Rightarrow> action list" where
  "serving_action Context_cancelled = [Caller_cancels]"
| "serving_action (Serving_moves a) = [a]"
| "serving_action _ = []"

lemma acts_append:
  "acts cfg lg (as @ bs) p = (case acts cfg lg as p of None \<Rightarrow> None | Some q \<Rightarrow> acts cfg lg bs q)"
  by (induction as arbitrary: p) (auto split: option.splits)

lemma happen_serving:
  "happen cfg lg h v = Some u \<Longrightarrow> acts cfg lg (serving_action h) (serving v) = Some (serving u)"
  by (cases h) (auto simp: Let_def split: if_splits run_all.splits)

lemma happens_serving:
  "happens cfg lg hs v = Some u \<Longrightarrow>
   acts cfg lg (concat (map serving_action hs)) (serving v) = Some (serving u)"
proof (induction hs arbitrary: v)
  case (Cons h hs)
  then obtain w where "happen cfg lg h v = Some w" "happens cfg lg hs w = Some u"
    by (auto split: if_splits option.splits)
  with Cons.IH happen_serving show ?case by (fastforce simp: acts_append)
qed simp

lemma lifetime_runs:
  "happens cfg lg hs (lifetime_start rd t servers) = Some v \<Longrightarrow>
   runs cfg lg (process_start rd t servers) (serving v)"
  using happens_serving acts_sound by (fastforce simp: lifetime_start_def)

lemma lifetime_run_all:
  assumes "happens cfg lg hs (lifetime_start rd t servers) = Some v" "main (serving v) = Run_all_returned err"
  shows "run_all_under (concat (map serving_action hs)) t cfg rd lg servers = Some (err, serving v)"
  using happens_serving [OF assms(1)] assms(2) by (simp add: run_all_under_def lifetime_start_def)

text \<open>What the parties know of each other.\<close>

definition lifetime_ok :: "logger \<Rightarrow> lifetime \<Rightarrow> bool" where
  "lifetime_ok lg v \<longleftrightarrow>
     signals_ok lg (signals v) (watcher v) \<and>
     (caller_done (serving v) \<longrightarrow> signals v \<noteq> []) \<and>
     (\<forall>c. watch (watcher v) = Exit_called c \<longrightarrow> exit_status v = Some c) \<and>
     (\<forall>c. exit_status v = Some c \<longrightarrow> watch (watcher v) = Exit_called c \<or>
        (\<exists>err. main (serving v) = Run_all_returned err \<and> c = return_status err))"

lemma act_caller: "act cfg lg a p = Some q \<Longrightarrow> a \<noteq> Caller_cancels \<Longrightarrow> caller_done q = caller_done p"
  by (cases a) (auto simp: set_active_def split: if_splits option.splits sequencer.splits)

lemma notify_watch [simp]: "watch (notify s f) = watch f"
  by (simp add: notify_def)

lemma called_exit_Some [simp]: "called_exit f = Some c \<longleftrightarrow> watch f = Exit_called c"
  by (auto simp: called_exit_def split: exit_watch.splits)

lemma happen_ok:
  assumes "happen cfg lg h v = Some u" "exit_status v = None" "lifetime_ok lg v"
  shows "lifetime_ok lg u"
proof (cases h)
  case (Serving_moves a)
  then obtain p where "act cfg lg a (serving v) = Some p" "a \<noteq> Caller_cancels" "u = v\<lparr>serving := p\<rparr>"
    using assms(1) by (auto split: if_splits)
  with act_caller [OF this(1,2)] assms(2,3) show ?thesis by (simp add: lifetime_ok_def)
next
  case Watcher_runs
  with assms show ?thesis by (auto simp: lifetime_ok_def Let_def signals_ok_run)
qed (use assms in \<open>auto simp: lifetime_ok_def signals_ok_notify split: run_all.splits\<close>)

lemma happens_ok: "happens cfg lg hs v = Some u \<Longrightarrow> lifetime_ok lg v \<Longrightarrow> lifetime_ok lg u"
proof (induction hs arbitrary: v)
  case (Cons h hs)
  then show ?case by (auto intro: happen_ok split: if_splits option.splits)
qed simp

lemma lifetime_start_ok: "lifetime_ok lg (lifetime_start rd t servers)"
  by (simp add: lifetime_ok_def lifetime_start_def process_start_def forced_start_def signals_ok_def)

lemma lived_ok: "happens cfg lg hs (lifetime_start rd t servers) = Some v \<Longrightarrow> lifetime_ok lg v"
  using happens_ok lifetime_start_ok by blast

lemma happen_signals: "happen cfg lg h v = Some u \<Longrightarrow> \<exists>ss. signals u = signals v @ ss"
  by (cases h) (auto simp: Let_def split: if_splits run_all.splits)

lemma happens_signals: "happens cfg lg hs v = Some u \<Longrightarrow> \<exists>ss. signals u = signals v @ ss"
proof (induction hs arbitrary: v)
  case (Cons h hs)
  then obtain w where "happen cfg lg h v = Some w" "happens cfg lg hs w = Some u"
    by (auto split: if_splits option.splits)
  with Cons.IH happen_signals show ?case by (metis append_assoc)
qed simp

lemma returned_error:
  "group_ok p \<Longrightarrow> main p = Run_all_returned (Some e) \<Longrightarrow> list_ex (\<lambda>l. phase l = Exited (Some e)) (listeners p)"
  unfolding group_ok_def list_ex_iff by metis

section \<open>How the process exits\<close>


text \<open>A schedule of \<open>RunAll\<close> after a signal.\<close>

definition signalled :: "action \<Rightarrow> happening" where
  "signalled a = (if a = Caller_cancels then Context_cancelled else Serving_moves a)"

lemma happens_signalled:
  "acts cfg lg as (serving v) = Some q \<Longrightarrow> signals v \<noteq> [] \<Longrightarrow> exit_status v = None \<Longrightarrow>
   happens cfg lg (map signalled as) v = Some (v\<lparr>serving := q\<rparr>)"
proof (induction as arbitrary: v)
  case (Cons a as)
  then obtain p where p: "act cfg lg a (serving v) = Some p" "acts cfg lg as p = Some q"
    by (auto split: option.splits)
  then have "happen cfg lg (signalled a) v = Some (v\<lparr>serving := p\<rparr>)"
    using Cons.prems(2) by (auto simp: signalled_def)
  with Cons.IH [of "v\<lparr>serving := p\<rparr>"] p(2) Cons.prems(2,3) show ?case by simp
qed simp

lemma returns_signalled:
  assumes "acts cfg lg as (serving v) = Some q" "main q = Run_all_returned err"
    and "signals v \<noteq> []" "exit_status v = None"
  shows "happens cfg lg (map signalled as @ [Run_returns]) v =
    Some (v\<lparr>serving := q, exit_status := Some (return_status err)\<rparr>)"
  unfolding happens_append happens_signalled [OF assms(1,3,4)] using assms(2,4) by simp

definition one_signal :: "happening list" where
  "one_signal = Signalled ''interrupt'' # map signalled (drain_schedule @ finish_schedule) @ [Run_returns]"

definition sample_lifetime :: lifetime where
  "sample_lifetime = lifetime_start new_readiness 100 [sample_server '':8080'', sample_server '':9090'']"

lemma one_signal_exits:
  "\<exists>v. happens held_config [] one_signal sample_lifetime = Some v \<and> exit_status v = Some 0"
proof -
  let ?v = "sample_lifetime\<lparr>signals := [''interrupt''], watcher := notify ''interrupt'' forced_start\<rparr>"
  obtain q where q: "acts held_config [] (drain_schedule @ finish_schedule) (serving ?v) = Some q"
    "main q = Run_all_returned None"
    using sample_acts(2) by (auto simp: sample_start_def sample_lifetime_def lifetime_start_def)
  have "happens held_config [] one_signal sample_lifetime =
      happens held_config [] (map signalled (drain_schedule @ finish_schedule) @ [Run_returns]) ?v"
    by (simp add: one_signal_def sample_lifetime_def lifetime_start_def)
  also have "\<dots> = Some (?v\<lparr>serving := q, exit_status := Some 0\<rparr>)"
    unfolding return_status_def
    by (subst returns_signalled [OF q]) (simp_all add: sample_lifetime_def lifetime_start_def return_status_def)
  finally show ?thesis by auto
qed


section \<open>What signals bring about\<close>

lemma turns_to_go: "lifetime_ok lg v \<Longrightarrow> exit_status v = None \<Longrightarrow> 0 < turns_left (watch (watcher v))"
  by (cases "watch (watcher v)") (simp_all add: turns_left_def lifetime_ok_def)

text \<open>A lifetime whose watcher has called exit.\<close>

lemma forced_exit:
  assumes "lifetime_ok lg u" "watch (watcher u) = Exit_called c"
  shows "exit_status u = Some 1 \<and> watch_log (watcher u) = [second_signal_entry lg (signals u ! 1)]"
  using assms by (simp add: lifetime_ok_def signals_ok_def force_exit_code_def)

lemma watcher_turns:
  "happens cfg lg hs v = Some u \<Longrightarrow> lifetime_ok lg v \<Longrightarrow> 2 \<le> length (signals v) \<Longrightarrow>
   count_list hs Watcher_runs + turns_left (watch (watcher u)) \<le> turns_left (watch (watcher v))"
proof (induction hs arbitrary: v)
  case (Cons h hs)
  then obtain w where w: "exit_status v = None" "happen cfg lg h v = Some w" "happens cfg lg hs w = Some u"
    by (auto split: if_splits option.splits)
  have "lifetime_ok lg w" using happen_ok [OF w(2,1) Cons.prems(2)] .
  moreover have "2 \<le> length (signals w)" using happen_signals [OF w(2)] Cons.prems(3) by auto
  ultimately have rest: "count_list hs Watcher_runs + turns_left (watch (watcher u)) \<le> turns_left (watch (watcher w))"
    using Cons.IH w(3) by blast
  show ?case
  proof (cases "h = Watcher_runs")
    case True
    have "0 < turns_left (watch (watcher v))" using turns_to_go Cons.prems(2) w(1) by blast
    moreover have "turns_left (watch (watcher w)) = turns_left (watch (watcher v)) - 1"
      using w(2) True watcher_turn Cons.prems(2,3) by (auto simp: Let_def lifetime_ok_def)
    ultimately show ?thesis using rest True by simp
  next
    case False
    then have "watch (watcher w) = watch (watcher v)"
      using w(2) by (cases h) (auto split: if_splits run_all.splits)
    then show ?thesis using rest False by simp
  qed
qed simp

lemma can_exit:
  assumes "runs cfg lg (process_start rd t servers) (serving v)" "signals v \<noteq> []" "exit_status v = None"
  shows "\<exists>as u. happens cfg lg (map signalled as @ [Run_returns]) v = Some u \<and> exit_status u \<noteq> None"
proof -
  let ?p = "(serving v)\<lparr>caller_done := True\<rparr>"
  have "env_step (serving v) ?p" by (rule env_step.caller_cancels)
  then have "life_ok cfg lg ?p" using reached_life_ok [OF assms(1)] life_ok_step by blast
  then obtain m q err where q: "takes cfg lg ?p m q" "main q = Run_all_returned err"
    using can_return by fastforce
  obtain as where "acts cfg lg as ?p = Some q" using takes_runs [OF q(1)] acts_complete by blast
  then have "acts cfg lg (Caller_cancels # as) (serving v) = Some q" by simp
  from returns_signalled [OF this q(2) assms(2,3)] show ?thesis
    by (intro exI [of _ "Caller_cancels # as"] exI [of _ "v\<lparr>serving := q, exit_status := Some (return_status err)\<rparr>"])
      simp
qed

lemma watcher_forces:
  assumes "lifetime_ok lg v" "2 \<le> length (signals v)" "exit_status v = None"
  shows "\<exists>n u. n \<le> turns_left (watch (watcher v)) \<and> happens cfg lg (replicate n Watcher_runs) v = Some u \<and>
    exit_status u = Some 1"
  using assms
proof (induction "turns_left (watch (watcher v))" arbitrary: v rule: less_induct)
  case less
  define w where "w = v\<lparr>watcher := force_exit_on_second lg (watcher v),
    exit_status := called_exit (force_exit_on_second lg (watcher v))\<rparr>"
  have w: "happen cfg lg Watcher_runs v = Some w" by (simp add: w_def Let_def)
  have ok: "lifetime_ok lg w" using happen_ok [OF w less.prems(3,1)] .
  have left: "turns_left (watch (watcher w)) = turns_left (watch (watcher v)) - 1"
    using watcher_turn less.prems(1,2) by (auto simp: w_def lifetime_ok_def)
  note some = turns_to_go [OF less.prems(1,3)]
  show ?case
  proof (cases "exit_status w")
    case None
    have "2 \<le> length (signals w)" using less.prems(2) by (simp add: w_def)
    from less.hyps [OF _ ok this None] left some obtain n u where
      "n \<le> turns_left (watch (watcher w))" "happens cfg lg (replicate n Watcher_runs) w = Some u"
      "exit_status u = Some 1" by auto
    with w left some less.prems(3) show ?thesis by (intro exI [of _ "Suc n"] exI [of _ u]) simp
  next
    case (Some c)
    then have "watch (watcher w) = Exit_called c" by (simp add: w_def)
    from forced_exit [OF ok this] w some less.prems(3) show ?thesis
      by (intro exI [of _ "Suc 0"] exI [of _ w]) simp
  qed
qed

text \<open>C12: Signals end the process. After one, with no further help, RunAll can return and the process
  exit. After two, however the servers stand, the watching goroutine exits with status 1 within
  three of its turns, logging once, with the second signal's name; whatever else happens in
  between, no process outlives its third turn.\<close>

theorem signals_end_the_process:
  assumes "happens cfg lg hs (lifetime_start rd t servers) = Some v" and "signals v \<noteq> []"
    and "exit_status v = None"
  shows "(\<exists>as u. happens cfg lg (map signalled as @ [Run_returns]) v = Some u \<and> exit_status u \<noteq> None) \<and>
    (if length (signals v) < 2 then True
     else (\<exists>n u. n \<le> 3 \<and> happens cfg lg (replicate n Watcher_runs) v = Some u \<and> exit_status u = Some 1) \<and>
       (case happens cfg lg hs' v of
          None \<Rightarrow> True
        | Some u \<Rightarrow>
            if count_list hs' Watcher_runs < 3 then True
            else exit_status u = Some 1 \<and> watch_log (watcher u) = [second_signal_entry lg (signals v ! 1)]))"
proof (cases "length (signals v) < 2")
  case True
  then show ?thesis using can_exit [OF lifetime_runs [OF assms(1)] assms(2,3)] by simp
next
  case False
  then have two: "2 \<le> length (signals v)" by simp
  note ok = lived_ok [OF assms(1)]
  have "\<exists>n u. n \<le> 3 \<and> happens cfg lg (replicate n Watcher_runs) v = Some u \<and> exit_status u = Some 1"
    using watcher_forces [OF ok two assms(3)] no_turns(2) le_trans by blast
  moreover have "exit_status u = Some 1 \<and> watch_log (watcher u) = [second_signal_entry lg (signals v ! 1)]"
    if "happens cfg lg hs' v = Some u" "\<not> count_list hs' Watcher_runs < 3" for u
  proof -
    have "turns_left (watch (watcher u)) = 0"
      using watcher_turns [OF that(1) ok two] that(2) no_turns(2) [of "watch (watcher v)"] by simp
    then obtain c where "watch (watcher u) = Exit_called c" using no_turns(1) by blast
    moreover have "signals u ! 1 = signals v ! 1"
      using happens_signals [OF that(1)] two by (auto simp: nth_append)
    ultimately show ?thesis using forced_exit [OF happens_ok [OF that(1) ok]] by simp
  qed
  ultimately show ?thesis
    using False can_exit [OF lifetime_runs [OF assms(1)] assms(2,3)] by (simp split: option.split)
qed

theorem signals_end_the_process_witness:
  "\<exists>u. happens held_config [] [Signalled ''interrupt'', Signalled ''terminated'', Watcher_runs, Watcher_runs, Watcher_runs]
      sample_lifetime = Some u \<and> exit_status u = Some 1 \<and>
    watch_log (watcher u) = [second_signal_entry [] ''terminated'']"
proof -
  let ?v = "sample_lifetime\<lparr>signals := [''interrupt'', ''terminated''],
    watcher := notify ''terminated'' (notify ''interrupt'' forced_start)\<rparr>"
  let ?hs = "[Watcher_runs, Watcher_runs, Watcher_runs]"
  have v: "happens held_config [] [Signalled ''interrupt'', Signalled ''terminated''] sample_lifetime = Some ?v"
    by (simp add: sample_lifetime_def lifetime_start_def)
  have "happens held_config [] ?hs ?v \<noteq> None"
    by (simp add: sample_lifetime_def lifetime_start_def forced_start_def notify_def force_exit_on_second_def
        signal_buffer_def called_exit_def Let_def)
  then obtain u where u: "happens held_config [] ?hs ?v = Some u" by blast
  have "signals ?v \<noteq> []" "exit_status ?v = None" by (simp_all add: sample_lifetime_def lifetime_start_def)
  from signals_end_the_process [OF v [unfolded sample_lifetime_def] this [unfolded sample_lifetime_def],
      of ?hs] u show ?thesis
    using happens_append [of held_config "[]" "[Signalled ''interrupt'', Signalled ''terminated'']" ?hs sample_lifetime] v
    by (simp add: sample_lifetime_def)
qed

end
