(* ===== verification/Magefile.thy ===== *)
theory Magefile
  imports Go_Errors Prelude
begin

text \<open>
  \<open>magefile.go\<close>: the build targets. A target is a function on the working tree, a map from paths to
  directories and files, that returns its error and the tree it leaves. The commands a target runs
  and what \<open>git\<close> prints are outside the repository: \<open>toolbox\<close> says what each does to the tree. The file
  operations are the operating system's, modelled on the tree, each of which it may also refuse.
  \<open>mg.Deps\<close> is mage's and an argument: the error it leaves its caller with stands for the panic.
\<close>

section \<open>The working tree\<close>

datatype entry = Directory | Regular bytes

type_synonym tree = "string \<rightharpoonup> entry"

type_synonym mage_target = "tree \<Rightarrow> go_error option \<times> tree"

record toolbox =
  run_v :: "string list \<Rightarrow> mage_target"
  command_output :: "string list \<Rightarrow> tree \<Rightarrow> go_error + string"
  build_clock :: string
  refuses :: "string \<Rightarrow> string \<Rightarrow> go_error option"
  written_before_failure :: "bytes \<Rightarrow> nat"
  survives_removal :: "string \<Rightarrow> bool"
  mg_deps :: "mage_target list \<Rightarrow> mage_target"

text \<open>Run something and wrap its error, or go on.\<close>

definition wrapped :: "string \<Rightarrow> mage_target \<Rightarrow> mage_target" where
  "wrapped label t w = (case t w of (err, w') \<Rightarrow> (map_option (ErrWrap label) err, w'))"

definition and_then :: "mage_target \<Rightarrow> mage_target \<Rightarrow> mage_target" where
  "and_then t next w =
     (case t w of
        (Some err, w') \<Rightarrow> (Some err, w')
      | (None, w') \<Rightarrow> next w')"

section \<open>File operations\<close>

text \<open>\<open>os.MkdirAll\<close> of one name: nothing to do for a directory, an error for a file.\<close>

definition mkdir_all :: "toolbox \<Rightarrow> string \<Rightarrow> mage_target" where
  "mkdir_all k path w =
     (case w path of
        Some Directory \<Rightarrow> (None, w)
      | Some (Regular _) \<Rightarrow> (Some (ErrWrap (''mkdir '' @ path) (ErrText ''not a directory'')), w)
      | None \<Rightarrow>
          (case refuses k ''mkdir'' path of
             Some err \<Rightarrow> (Some err, w)
           | None \<Rightarrow> (None, w(path \<mapsto> Directory))))"

definition not_exist :: "string \<Rightarrow> string \<Rightarrow> go_error" where
  "not_exist operation path = ErrWrap (operation @ '' '' @ path) (ErrText ''no such file or directory'')"

definition read_file :: "toolbox \<Rightarrow> string \<Rightarrow> tree \<Rightarrow> go_error + bytes" where
  "read_file k path w =
     (case refuses k ''read'' path of
        Some err \<Rightarrow> Inl err
      | None \<Rightarrow>
          (case w path of
             None \<Rightarrow> Inl (not_exist ''open'' path)
           | Some Directory \<Rightarrow> Inl (ErrWrap (''read '' @ path) (ErrText ''is a directory''))
           | Some (Regular contents) \<Rightarrow> Inr contents))"

text \<open>\<open>O_CREATE|O_EXCL\<close>: one decision of the file system, that the path was free, and its creation.\<close>

datatype opened = Open_exists | Open_fails go_error | Opened

definition open_exclusive :: "toolbox \<Rightarrow> string \<Rightarrow> tree \<Rightarrow> opened \<times> tree" where
  "open_exclusive k path w =
     (if w path \<noteq> None then (Open_exists, w)
      else case refuses k ''open'' path of
          Some err \<Rightarrow> (Open_fails err, w)
        | None \<Rightarrow> (Opened, w(path \<mapsto> Regular [])))"

text \<open>A write that fails may have written a part.\<close>

definition write_file :: "toolbox \<Rightarrow> string \<Rightarrow> bytes \<Rightarrow> mage_target" where
  "write_file k path contents w =
     (case refuses k ''write'' path of
        Some err \<Rightarrow> (Some err, w(path \<mapsto> Regular (take (written_before_failure k contents) contents)))
      | None \<Rightarrow> (None, w(path \<mapsto> Regular contents)))"

definition close_file :: "toolbox \<Rightarrow> string \<Rightarrow> mage_target" where
  "close_file k path w = (refuses k ''close'' path, w)"

definition beneath :: "string \<Rightarrow> string \<Rightarrow> bool" where
  "beneath dir path \<longleftrightarrow> path = dir \<or> take (Suc (length dir)) path = dir @ ''/''"

text \<open>\<open>os.RemoveAll\<close> goes on after a failure: what it could remove is gone.\<close>

definition remove_all :: "toolbox \<Rightarrow> string \<Rightarrow> mage_target" where
  "remove_all k dir w =
     (case refuses k ''remove'' dir of
        Some err \<Rightarrow> (Some err, (\<lambda>path. if beneath dir path \<and> \<not> survives_removal k path then None else w path))
      | None \<Rightarrow> (None, (\<lambda>path. if beneath dir path then None else w path)))"

text \<open>What \<open>os.Remove\<close> reports, with the case \<open>os.IsNotExist\<close> recognises kept apart.\<close>

datatype removal = Removed | Not_there | Remove_fails go_error

definition remove_file :: "toolbox \<Rightarrow> string \<Rightarrow> tree \<Rightarrow> removal \<times> tree" where
  "remove_file k path w =
     (if w path = None then (Not_there, w)
      else case refuses k ''remove'' path of
          Some err \<Rightarrow> (Remove_fails err, w)
        | None \<Rightarrow> (Removed, w(path := None)))"

section \<open>Names\<close>

definition binary_name :: string where
  "binary_name = ''service''"

definition output_dir :: string where
  "output_dir = ''bin''"

definition image_name :: string where
  "image_name = ''service''"

definition coverage_file :: string where
  "coverage_file = ''coverage.out''"

definition build_arg_flag :: string where
  "build_arg_flag = ''--build-arg''"

definition env_example_file :: string where
  "env_example_file = ''.env.example''"

definition env_file :: string where
  "env_file = ''.env''"

section \<open>Build identity\<close>

definition mage_version :: "toolbox \<Rightarrow> tree \<Rightarrow> string" where
  "mage_version k w =
     (case command_output k [''git'', ''describe'', ''--tags'', ''--always'', ''--dirty''] w of
        Inl _ \<Rightarrow> ''dev''
      | Inr described \<Rightarrow> (if described = [] then ''dev'' else described))"

definition mage_commit :: "toolbox \<Rightarrow> tree \<Rightarrow> string" where
  "mage_commit k w =
     (case command_output k [''git'', ''rev-parse'', ''--short'', ''HEAD''] w of
        Inl _ \<Rightarrow> ''unknown''
      | Inr hash \<Rightarrow> (if hash = [] then ''unknown'' else hash))"

text \<open>The time of the build, already formatted: \<open>time.Now().UTC().Format(time.RFC3339)\<close>.\<close>

definition mage_build_date :: "toolbox \<Rightarrow> string" where
  "mage_build_date k = build_clock k"

definition ldflags :: "toolbox \<Rightarrow> tree \<Rightarrow> string" where
  "ldflags k w =
     join [''-s'', ''-w'',
       ''-X'', ''main.version='' @ mage_version k w,
       ''-X'', ''main.commit='' @ mage_commit k w,
       ''-X'', ''main.buildDate='' @ mage_build_date k] '' ''"

section \<open>Targets\<close>

definition mage_build :: "toolbox \<Rightarrow> mage_target" where
  "mage_build k =
     and_then (wrapped (''creating output directory '' @ output_dir) (mkdir_all k output_dir))
       (\<lambda>w. let out = output_dir @ ''/'' @ binary_name in
          wrapped (''building '' @ out)
            (run_v k [''go'', ''build'', ''-trimpath'', ''-ldflags'', ldflags k w, ''-o'', out, ''./cmd/service'']) w)"

definition mage_test :: "toolbox \<Rightarrow> mage_target" where
  "mage_test k = wrapped ''running tests'' (run_v k [''go'', ''test'', ''./...''])"

definition mage_race :: "toolbox \<Rightarrow> mage_target" where
  "mage_race k = wrapped ''running tests under the race detector'' (run_v k [''go'', ''test'', ''-race'', ''./...''])"

definition mage_integration :: "toolbox \<Rightarrow> mage_target" where
  "mage_integration k =
     wrapped ''running integration tests'' (run_v k [''go'', ''test'', ''-race'', ''-tags=integration'', ''./...''])"

definition mage_lint :: "toolbox \<Rightarrow> mage_target" where
  "mage_lint k =
     and_then (wrapped ''running golangci-lint'' (run_v k [''go'', ''tool'', ''golangci-lint'', ''run'']))
       (wrapped ''running golangci-lint on the integration suite''
          (run_v k [''go'', ''tool'', ''golangci-lint'', ''run'', ''--build-tags=integration'', ''./internal/server/'']))"

definition mage_cover :: "toolbox \<Rightarrow> mage_target" where
  "mage_cover k =
     and_then
       (wrapped ''running tests with coverage''
          (run_v k [''go'', ''test'', ''-coverprofile='' @ coverage_file, ''./...'']))
       (wrapped ''summarising coverage'' (run_v k [''go'', ''tool'', ''cover'', ''-func='' @ coverage_file]))"

definition mage_vuln :: "toolbox \<Rightarrow> mage_target" where
  "mage_vuln k = wrapped ''running govulncheck'' (run_v k [''go'', ''tool'', ''govulncheck'', ''./...''])"

definition copy_env_example :: "toolbox \<Rightarrow> mage_target" where
  "copy_env_example k w =
     (case read_file k env_example_file w of
        Inl err \<Rightarrow> (Some (ErrWrap (''reading '' @ env_example_file) err), w)
      | Inr contents \<Rightarrow>
          (case open_exclusive k env_file w of
             (Open_exists, w1) \<Rightarrow> (None, w1)
           | (Open_fails err, w1) \<Rightarrow> (Some (ErrWrap (''creating '' @ env_file) err), w1)
           | (Opened, w1) \<Rightarrow>
               (case write_file k env_file contents w1 of
                  (write_err, w2) \<Rightarrow>
                    (case close_file k env_file w2 of
                       (close_err, w3) \<Rightarrow>
                         (map_option (ErrWrap (''writing '' @ env_file)) (join_errors [write_err, close_err]), w3)))))"

definition mage_bootstrap :: "toolbox \<Rightarrow> mage_target" where
  "mage_bootstrap k =
     and_then (wrapped ''downloading module requirements'' (run_v k [''go'', ''mod'', ''download'']))
       (and_then (wrapped ''installing the pinned tools'' (run_v k [''go'', ''install'', ''tool'']))
          (and_then (copy_env_example k) (mg_deps k [mage_lint k, mage_test k])))"

definition mage_tidy :: "toolbox \<Rightarrow> mage_target" where
  "mage_tidy k = wrapped ''tidying the module'' (run_v k [''go'', ''mod'', ''tidy''])"

definition docker_args :: "toolbox \<Rightarrow> tree \<Rightarrow> string list" where
  "docker_args k w =
     [''build'',
      build_arg_flag, ''VERSION='' @ mage_version k w,
      build_arg_flag, ''COMMIT='' @ mage_commit k w,
      build_arg_flag, ''BUILD_DATE='' @ mage_build_date k,
      ''-t'', image_name @ '':'' @ mage_version k w,
      ''-t'', image_name @ '':latest'',
      ''.'']"

definition mage_docker :: "toolbox \<Rightarrow> mage_target" where
  "mage_docker k w = wrapped ''building the container image'' (run_v k (''docker'' # docker_args k w)) w"

definition mage_run :: "toolbox \<Rightarrow> mage_target" where
  "mage_run k =
     and_then (mg_deps k [mage_build k])
       (wrapped (''running '' @ binary_name) (run_v k [output_dir @ ''/'' @ binary_name]))"

definition mage_release_check :: "toolbox \<Rightarrow> mage_target" where
  "mage_release_check k = wrapped ''checking the release configuration'' (run_v k [''goreleaser'', ''check''])"

definition mage_snapshot :: "toolbox \<Rightarrow> mage_target" where
  "mage_snapshot k =
     wrapped ''building a release snapshot'' (run_v k [''goreleaser'', ''release'', ''--snapshot'', ''--clean''])"

definition mage_clean :: "toolbox \<Rightarrow> mage_target" where
  "mage_clean k =
     and_then (wrapped (''removing '' @ output_dir) (remove_all k output_dir))
       (\<lambda>w. case remove_file k coverage_file w of
          (Remove_fails err, w') \<Rightarrow> (Some (ErrWrap (''removing '' @ coverage_file) err), w')
        | (_, w') \<Rightarrow> (None, w'))"

definition mage_default :: "toolbox \<Rightarrow> mage_target" where
  "mage_default = mage_build"

section \<open>The working configuration\<close>

lemma env_names [simp]: "env_example_file \<noteq> env_file"
  by (simp add: env_example_file_def env_file_def)

lemma copy_env_example_existing:
  "w env_file = Some e \<Longrightarrow> snd (copy_env_example k w) = w"
  by (simp add: copy_env_example_def open_exclusive_def split: sum.splits)

lemma copy_env_example_fresh:
  assumes "w env_file = None"
  shows "case copy_env_example k w of
      (None, w') \<Rightarrow> (\<exists>contents. w env_example_file = Some (Regular contents) \<and> w' = w(env_file \<mapsto> Regular contents))
    | (Some _, w') \<Rightarrow> w' = w \<or> (\<exists>contents n. w env_example_file = Some (Regular contents) \<and>
        w' = w(env_file \<mapsto> Regular (take n contents)))"
proof -
  have whole: "\<exists>n. w(env_file \<mapsto> Regular c) = w(env_file \<mapsto> Regular (take n c))" for c
    by (rule exI [of _ "length c"]) simp
  show ?thesis
    using assms
    by (auto simp: copy_env_example_def open_exclusive_def read_file_def write_file_def close_file_def
        join_errors_None_iff intro: whole split: sum.splits option.splits entry.splits)
qed

text \<open>C29: Copying the example configuration never touches a .env that exists nor any other file: only a
  missing .env is created, and it is reported as done only when it holds the whole example.\<close>

theorem env_file_is_never_overwritten:
  "case copy_env_example k w of (r, w') \<Rightarrow>
     (\<forall>path. path = env_file \<or> w' path = w path) \<and>
     (case w env_file of
        Some e \<Rightarrow> w' = w
      | None \<Rightarrow>
          (case r of
             None \<Rightarrow> w' env_file = w env_example_file \<and> w env_example_file \<noteq> None
           | Some _ \<Rightarrow> True))"
proof (cases "w env_file")
  case None
  then show ?thesis
    using copy_env_example_fresh [of w k] by (auto split: prod.splits option.splits if_splits)
next
  case (Some e)
  then show ?thesis using copy_env_example_existing [of w e k] by (simp add: case_prod_beta)
qed

text \<open>C40: A copy that fails while writing leaves a truncated .env behind, and running it again takes
  that file for the developer's own configuration: it succeeds and leaves it truncated.\<close>

theorem failed_copy_is_taken_for_a_configuration:
  assumes "w env_example_file = Some (Regular contents)" and "w env_file = None"
    and "refuses k ''read'' env_example_file = None" and "refuses k ''open'' env_file = None"
    and "refuses k ''write'' env_file = Some err" and "refuses k' ''read'' env_example_file = None"
  shows "case copy_env_example k w of (r, w') \<Rightarrow>
     r \<noteq> None \<and> w' env_file = Some (Regular (take (written_before_failure k contents) contents)) \<and>
     copy_env_example k' w' = (None, w')"
  using assms
  by (simp add: copy_env_example_def open_exclusive_def read_file_def write_file_def close_file_def
      join_errors_def List.map_filter_simps split: option.splits)

definition full_disk :: toolbox where
  "full_disk =
     \<lparr>run_v = (\<lambda>_ w. (None, w)), command_output = (\<lambda>_ _. Inl (ErrText ''no git'')), build_clock = ''2026-01-01T00:00:00Z'',
      refuses = (\<lambda>operation _. if operation = ''write'' then Some (ErrText ''no space left on device'') else None),
      written_before_failure = (\<lambda>_. 5), survives_removal = (\<lambda>_. True),
      mg_deps = (\<lambda>ts w. foldl (\<lambda>(r, w) t. if r = None then t w else (r, w)) (None, w) ts)\<rparr>"

definition fresh_clone :: tree where
  "fresh_clone = [''.env.example'' \<mapsto> Regular ''SERVICE_LOG_LEVEL=info'']"

theorem failed_copy_is_taken_for_a_configuration_witness:
  "case copy_env_example full_disk fresh_clone of (r, w') \<Rightarrow>
     r \<noteq> None \<and>
     w' env_file = Some (Regular (take (written_before_failure full_disk ''SERVICE_LOG_LEVEL=info'') ''SERVICE_LOG_LEVEL=info'')) \<and>
     copy_env_example full_disk w' = (None, w')"
  by (rule failed_copy_is_taken_for_a_configuration)
    (simp_all add: fresh_clone_def full_disk_def env_example_file_def env_file_def)

section \<open>Build identity\<close>

text \<open>The binary and the image carry the same identity: each of the linker's three values is the
  image's build argument of that name, the image is tagged with the version, and none of them is
  empty as long as the clock is readable, whatever git answers.\<close>

theorem binary_and_image_agree:
  "\<exists>v c d.
     ldflags k w = ''-s -w -X main.version='' @ v @ '' -X main.commit='' @ c @ '' -X main.buildDate='' @ d \<and>
     docker_args k w =
       [''build'', ''--build-arg'', ''VERSION='' @ v, ''--build-arg'', ''COMMIT='' @ c, ''--build-arg'', ''BUILD_DATE='' @ d,
        ''-t'', ''service:'' @ v, ''-t'', ''service:latest'', ''.''] \<and>
     v \<noteq> [] \<and> c \<noteq> [] \<and> d = build_clock k"
proof (intro exI conjI)
  show "ldflags k w = ''-s -w -X main.version='' @ mage_version k w @ '' -X main.commit='' @ mage_commit k w @
      '' -X main.buildDate='' @ mage_build_date k"
    by (simp add: ldflags_def)
  show "docker_args k w =
       [''build'', ''--build-arg'', ''VERSION='' @ mage_version k w, ''--build-arg'', ''COMMIT='' @ mage_commit k w,
        ''--build-arg'', ''BUILD_DATE='' @ mage_build_date k, ''-t'', ''service:'' @ mage_version k w,
        ''-t'', ''service:latest'', ''.'']"
    by (simp add: docker_args_def build_arg_flag_def image_name_def)
qed (simp_all add: mage_version_def mage_commit_def mage_build_date_def split: sum.splits)

text \<open>A clean that succeeds leaves no build output and no coverage profile, and everything else as
  it was.\<close>

theorem clean_leaves_no_output:
  "case mage_clean k w of (r, w') \<Rightarrow>
     (\<forall>path. beneath ''bin'' path \<or> path = ''coverage.out'' \<or> w' path = w path) \<and>
     (case r of
        Some _ \<Rightarrow> True
      | None \<Rightarrow> \<forall>path. if beneath ''bin'' path \<or> path = ''coverage.out'' then w' path = None else w' path = w path)"
  by (auto simp: mage_clean_def and_then_def wrapped_def remove_all_def remove_file_def output_dir_def
      coverage_file_def split: option.splits prod.splits removal.splits if_splits)

end
