(* ===== verification/Spec2Isabelle.thy ===== *)
theory Spec2Isabelle
  imports
    Chain_Properties
    Middleware_Properties
    Limits
    Json_Properties
    Trust_Properties
    Readiness_Properties
    Text_Properties
    Routing_Properties
    Setting_Rules
    Lifetime
    Magefile
begin

text \<open>
  A verification library for the Go HTTP server template: the service of \<open>cmd/service\<close>, the packages
  under \<open>internal\<close> it is made of, and the build targets of \<open>magefile.go\<close>.

  \<^bold>\<open>The program.\<close> \<open>start\<close> loads a configuration from the environment, builds a logger, the telemetry
  pipelines and two handler chains, and hands two servers to \<open>RunAll\<close>: the application's listener
  and an administrative one. Both answer readiness from one \<open>Readiness\<close> value, which the drain
  sequencer turns to failing when the process is asked to stop; after the pre-drain delay it stops
  the servers, each of which waits for its requests. A second signal ends the process at once.

  \<^bold>\<open>Go and its libraries.\<close> A Go string or byte slice is a list of bytes. 64-bit integers are words
  where overflow can be observed (sizes, durations) and \<open>int\<close> where the code only compares or counts.
  An error is a tree (\<open>Go_Errors\<close>); a function that returns an error returns a sum or an option; a
  panic is an outcome. \<open>Prelude\<close>, \<open>Go_Text\<close>, \<open>Go_Time\<close>, \<open>Go_Utf8\<close>, \<open>Go_Quote\<close> and \<open>Net_Addr\<close> hold the
  parts of \<open>strings\<close>, \<open>strconv\<close>, \<open>time\<close>, \<open>unicode/utf8\<close>, \<open>encoding/json\<close>, \<open>net\<close> and \<open>net/netip\<close> the code
  calls. \<open>Http\<close> models one exchange of \<open>net/http\<close> as a record that handlers pass on: headers, status
  line, body, log, span operations, random source, clock and how the connection answers writes. A
  handler is a function of request, writer and exchange; \<open>Handler_Contract\<close> says, as the locale
  \<open>handler_contract\<close>, what a handler may do to an exchange that is not its own, and
  \<open>foreign\<close> programs are the handlers nothing is known of. \<open>Serve_Mux\<close> is the routing of
  \<open>http.ServeMux\<close> for the patterns the code registers.

  \<^bold>\<open>Theory by theory, with the source.\<close>

  \<^item> \<open>Config_Types\<close>: \<open>internal/configtype\<close>, sizes and durations as text. Locale \<open>text_codec\<close>, the
    contract of \<open>UnmarshalText\<close> and \<open>MarshalText\<close>; \<open>Text_Properties\<close> has their meaning and round trips.
  \<^item> \<open>Proxy\<close>, \<open>Request_Id\<close>: \<open>internal/server/proxy.go\<close> and \<open>requestid.go\<close>. Locale \<open>trust_decision\<close>.
    \<open>Trust_Properties\<close>: a client behind trusted proxies cannot choose the address it is logged under.
  \<^item> \<open>Response_Json\<close>, \<open>Decode_Json\<close>: \<open>errors.go\<close> and \<open>json.go\<close>; \<open>Json_Properties\<close>: what an error response
    discloses, that every decoding failure is answered, what a pointer names.
  \<^item> \<open>Middleware\<close>: \<open>headers.go\<close>, \<open>recovery.go\<close>, \<open>limits.go\<close>, \<open>responsewriter.go\<close> and the request logging of
    \<open>handler.go\<close>. \<open>Middleware_Properties\<close> takes each branch by branch; \<open>Limits\<close> has the body limit and
    the in-flight limit under interleaving (locale \<open>slot_pool\<close>, the buffered channel's laws).
  \<^item> \<open>Readiness\<close>: \<open>readiness.go\<close>, the concurrent probe as a step relation; \<open>Readiness_Properties\<close>.
  \<^item> \<open>Handler_Chain\<close>: \<open>NewMux\<close>, \<open>NewAdminMux\<close>, the version and health handlers, \<open>internal/buildinfo\<close>.
    \<open>Chain_Properties\<close> is about the whole application chain whatever user interface it serves,
    \<open>Routing_Properties\<close> about which requests each listener answers.
  \<^item> \<open>Server_Config\<close>, \<open>Settings\<close>, \<open>Loader\<close>, \<open>Configuration\<close>: the settings structs, \<open>internal/config\<close> and its
    decoder. \<open>Configuration_Properties\<close>: what a failed load reports. \<open>Setting_Rules\<close>: the \<open>validate\<close> tags
    as data and what a configuration that loads guarantees the servers built from it.
  \<^item> \<open>Http_Client\<close>: \<open>internal/httpclient\<close>. \<open>Logging_Setup\<close>: \<open>internal/logging\<close>. \<open>Web_Assets\<close>: \<open>internal/web\<close>.
    \<open>Telemetry_Setup\<close>: \<open>internal/telemetry\<close>, with the locale \<open>telemetry_pipeline\<close> its two halves share.
  \<^item> \<open>Lifecycle\<close>: \<open>New\<close>, \<open>RunAll\<close>, \<open>drain\<close>, \<open>Run\<close> and \<open>Serve\<close> of \<open>server.go\<close>, one rule per step of a
    goroutine; \<open>Lifecycle_Exec\<close> computes the same steps from a schedule and proves the two agree;
    \<open>Lifecycle_Properties\<close> has the invariants, the measure and progress; \<open>Shutdown_Properties\<close> what
    follows: the hold, the first failure, termination, and the refinement of the four stages an
    operator sees, in the order the instance of \<open>linorder\<close> gives them.
  \<^item> \<open>Signals\<close>: \<open>internal/signals\<close> with its buffered channel.
  \<^item> \<open>Service_Main\<close>: \<open>run\<close> and \<open>start\<close>, composed of all of the above, deferred calls included.
  \<^item> \<open>Lifetime\<close>: the process while its servers run, with everything that can end it interleaved: signals
    and the context they cancel, the goroutine of \<open>Signals\<close>, the steps of \<open>RunAll\<close>, the return of \<open>run\<close>. What
    an exit status means, and what one signal and two bring about.
  \<^item> \<open>Magefile\<close>: the build targets on a working tree.

  \<^bold>\<open>Bounds and fuel.\<close> \<open>unquote_loop\<close> and the media type parser count down the length of their text,
  which every step shortens; reading a body takes at most one read per byte and one per chunk
  (\<open>chunk_fuel\<close>), and \<open>body_limit_is_exact\<close> asks for more than that. A run of \<open>RunAll\<close> is a
  schedule of any length; \<open>run_all_terminates\<close> bounds the steps it takes by itself, seven for each
  server and four more, and shows that once it is asked to stop, or a server has failed, some step
  is always possible when time passes, until it returns.

  \<^bold>\<open>Arguments of the model.\<close> What is not in the repository is an argument, with what the code relies on
  as a named hypothesis where a property needs one: OpenTelemetry (\<open>otel_transparent\<close>, \<open>sdk\<close>), zap,
  go-envconfig and go-playground/validator (\<open>enforces_tags\<close>), what \<open>encoding/json\<close> finds in a body,
  the float step of \<open>time.ParseDuration\<close> (\<open>float_frac_exact\<close>), Unicode's tables, SHA-256, the file
  server, \<open>net/http/pprof\<close>, mage and the commands it runs. The witnesses instantiate each of them.

  \<^bold>\<open>Not modelled.\<close> TCP, HTTP framing and TLS: an exchange begins with a parsed request, and \<open>net/http\<close>'s
  \<open>Serve\<close> and \<open>Shutdown\<close> are their documented results. Real time: a deadline that passes is a step.
  Memory and performance. The package comments in the \<open>doc.go\<close> files, the static frontend, the
  container files and the tests contain no code of the service. \<open>Lifetime\<close> begins where \<open>RunAll\<close> does:
  before that, a signal is one that waits in its channel, and an exit during start-up is not
  interleaved; the deferred clean-up after \<open>RunAll\<close> is one happening. The content of metrics and spans beyond the operations called is the SDK's.
\<close>

section \<open>Across components\<close>



end
